(* ===== verification/AuthLimit.thy ===== *)
theory AuthLimit
  imports Prelude "HOL-Library.Finite_Map"
begin

text \<open>
  \<open>internal/authlimit/limiter.go\<close>: the bounded-memory limiter of failed logins that SMTP
  submission and IMAP share. A limiter holds one bucket per remote IP (key \<open>ip:...\<close>) and
  one per account name (key \<open>account:...\<close>); \<open>Allow\<close> is asked before a password is
  hashed, \<open>Failure\<close> and \<open>Success\<close> report the outcome. The clock \<open>l.now()\<close> is the
  argument \<open>now\<close>. Package \<open>net\<close>'s address parsing is a parameter (record \<open>netlib\<close>).
\<close>

section \<open>State\<close>

record netlib =
  split_host_port :: "string \<Rightarrow> (string \<times> string) option"
  parse_ip :: "string \<Rightarrow> string option"

record bucket =
  failures :: nat
  failureWindowStart :: time
  failureBlockedUntil :: time
  attempts :: nat
  attemptWindowStart :: time
  attemptBlockedUntil :: time
  touchedAt :: time

record limiter =
  buckets :: "(string, bucket) fmap"
  maxFailures :: int
  window :: duration
  block :: duration
  retention :: duration
  maxEntries :: int
  sweepEvery :: duration
  nextSweep :: time
  maxIPAttempts :: int
  ipAttemptWindow :: duration
  ipAttemptBlock :: duration

record limiter_options =
  o_MaxFailures :: int
  o_Window :: duration
  o_Block :: duration
  o_MaxEntries :: int
  o_SweepEvery :: duration
  o_MaxIPAttempts :: int
  o_IPAttemptWindow :: duration
  o_IPAttemptBlock :: duration

definition New :: "limiter_options \<Rightarrow> limiter" where
  "New opts =
     (let mf = (if o_MaxFailures opts < 1 then 5 else o_MaxFailures opts);
          w = (if o_Window opts \<le> 0 then 10 * minute else o_Window opts);
          b = (if o_Block opts \<le> 0 then 15 * minute else o_Block opts);
          me = (if o_MaxEntries opts < 2 then 16 * 1024 else o_MaxEntries opts);
          se = (if o_SweepEvery opts \<le> 0 then minute else o_SweepEvery opts);
          mi = (if o_MaxIPAttempts opts < 1 then 60 else o_MaxIPAttempts opts);
          iw = (if o_IPAttemptWindow opts \<le> 0 then minute else o_IPAttemptWindow opts);
          ib = (if o_IPAttemptBlock opts \<le> 0 then minute else o_IPAttemptBlock opts);
          r0 = w;
          r1 = (if b > r0 then b else r0);
          r2 = (if iw > r1 then iw else r1);
          r3 = (if ib > r2 then ib else r2)
      in \<lparr>buckets = fmempty, maxFailures = mf, window = w, block = b, retention = r3,
          maxEntries = me, sweepEvery = se, nextSweep = zero_time, maxIPAttempts = mi,
          ipAttemptWindow = iw, ipAttemptBlock = ib\<rparr>)"

definition NewDefault :: limiter where
  "NewDefault = New \<lparr>o_MaxFailures = 0, o_Window = 0, o_Block = 0, o_MaxEntries = 0,
     o_SweepEvery = 0, o_MaxIPAttempts = 0, o_IPAttemptWindow = 0, o_IPAttemptBlock = 0\<rparr>"

section \<open>Keys\<close>

definition NormalizeAccount :: "string \<Rightarrow> string" where
  "NormalizeAccount value = ToLower (TrimSpace value)"

definition NormalizeIP :: "netlib \<Rightarrow> string \<Rightarrow> string" where
  "NormalizeIP nl value =
     (let v1 = TrimSpace value;
          v2 = (case split_host_port nl v1 of Some (host, _) \<Rightarrow> host | None \<Rightarrow> v1);
          v3 = TrimChars v2 ''[]''
      in case parse_ip nl v3 of
           Some ip \<Rightarrow> ip
         | None \<Rightarrow> if v3 = '''' then ''unknown'' else ToLower v3)"

definition RemoteIP :: "netlib \<Rightarrow> string option \<Rightarrow> string" where
  "RemoteIP nl address =
     (case address of None \<Rightarrow> ''unknown'' | Some a \<Rightarrow> NormalizeIP nl a)"

definition ipKey :: "netlib \<Rightarrow> string \<Rightarrow> string" where
  "ipKey nl value = ''ip:'' @ NormalizeIP nl value"

definition accountKey :: "string \<Rightarrow> string" where
  "accountKey value = ''account:'' @ NormalizeAccount value"

section \<open>Operations\<close>

definition bucket_count :: "limiter \<Rightarrow> int" where
  "bucket_count l = int (card (fmdom' (buckets l)))"

definition zero_bucket :: bucket where
  "zero_bucket = \<lparr>failures = 0, failureWindowStart = zero_time, failureBlockedUntil = zero_time,
     attempts = 0, attemptWindowStart = zero_time, attemptBlockedUntil = zero_time,
     touchedAt = zero_time\<rparr>"

definition put_bucket :: "string \<Rightarrow> bucket \<Rightarrow> limiter \<Rightarrow> limiter" where
  "put_bucket k e l = l\<lparr>buckets := fmupd k e (buckets l)\<rparr>"

definition expired :: "time \<Rightarrow> limiter \<Rightarrow> bucket \<Rightarrow> bool" where
  "expired now l e \<longleftrightarrow> \<not> now < failureBlockedUntil e \<and> \<not> now < attemptBlockedUntil e
     \<and> now - touchedAt e \<ge> retention l"

definition sweepIfDue :: "time \<Rightarrow> bool \<Rightarrow> limiter \<Rightarrow> limiter" where
  "sweepIfDue now force l =
     (if \<not> force \<and> nextSweep l \<noteq> zero_time \<and> now < nextSweep l then l
      else l\<lparr>buckets := fmfilter (\<lambda>k. case fmlookup (buckets l) k of
                 None \<Rightarrow> False | Some e \<Rightarrow> \<not> expired now l e) (buckets l),
             nextSweep := now + sweepEvery l\<rparr>)"

definition missing_keys :: "limiter \<Rightarrow> string list \<Rightarrow> int" where
  "missing_keys l keys = int (count_where (\<lambda>k. fmlookup (buckets l) k = None) keys)"

definition reset_windows :: "time \<Rightarrow> limiter \<Rightarrow> bucket \<Rightarrow> bucket" where
  "reset_windows now l e =
     (let e1 = (if now - failureWindowStart e \<ge> window l
                then e\<lparr>failures := 0, failureWindowStart := now\<rparr> else e)
      in if now - attemptWindowStart e1 \<ge> ipAttemptWindow l
         then e1\<lparr>attempts := 0, attemptWindowStart := now\<rparr> else e1)"

text \<open>The loop of \<open>Allow\<close> over its two keys; it returns early at a blocked bucket.\<close>

fun checkKeys :: "time \<Rightarrow> limiter \<Rightarrow> string list \<Rightarrow> limiter \<times> bool" where
  "checkKeys now l [] = (l, True)"
| "checkKeys now l (k # ks) =
     (let entry = (case fmlookup (buckets l) k of
            None \<Rightarrow> zero_bucket\<lparr>failureWindowStart := now, attemptWindowStart := now,
                               touchedAt := now\<rparr>
          | Some e \<Rightarrow> e);
          l1 = (case fmlookup (buckets l) k of None \<Rightarrow> put_bucket k entry l | Some _ \<Rightarrow> l)
      in if now < failureBlockedUntil entry \<or> now < attemptBlockedUntil entry then (l1, False)
         else checkKeys now (put_bucket k (reset_windows now l entry) l1) ks)"

fun touchKeys :: "time \<Rightarrow> limiter \<Rightarrow> string list \<Rightarrow> limiter" where
  "touchKeys now l [] = l"
| "touchKeys now l (k # ks) =
     touchKeys now (case fmlookup (buckets l) k of
         None \<Rightarrow> l | Some e \<Rightarrow> put_bucket k (e\<lparr>touchedAt := now\<rparr>) l) ks"

definition chargeIP :: "time \<Rightarrow> string \<Rightarrow> limiter \<Rightarrow> limiter" where
  "chargeIP now k l =
     (case fmlookup (buckets l) k of
        None \<Rightarrow> l
      | Some e \<Rightarrow>
          (let e1 = e\<lparr>attempts := attempts e + 1\<rparr>;
               e2 = (if int (attempts e1) \<ge> maxIPAttempts l
                     then e1\<lparr>attemptBlockedUntil := now + ipAttemptBlock l\<rparr> else e1)
           in put_bucket k e2 l))"

definition admitKeys :: "time \<Rightarrow> limiter \<Rightarrow> string \<Rightarrow> string \<Rightarrow> limiter \<times> bool" where
  "admitKeys now l ipk acck =
     (case checkKeys now l [ipk, acck] of
        (l1, False) \<Rightarrow> (l1, False)
      | (l1, True) \<Rightarrow> (chargeIP now ipk (touchKeys now l1 [ipk, acck]), True))"

definition Allow :: "netlib \<Rightarrow> time \<Rightarrow> limiter \<Rightarrow> string \<Rightarrow> string \<Rightarrow> limiter \<times> bool" where
  "Allow nl now l remoteIP account =
     (let ipk = ipKey nl remoteIP;
          acck = accountKey account;
          l1 = sweepIfDue now False l
      in if bucket_count l1 + missing_keys l1 [ipk, acck] > maxEntries l1
         then let l2 = sweepIfDue now True l1
              in if bucket_count l2 + missing_keys l2 [ipk, acck] > maxEntries l2
                 then (l2, False) else admitKeys now l2 ipk acck
         else admitKeys now l1 ipk acck)"

definition charge_failure :: "time \<Rightarrow> limiter \<Rightarrow> bucket \<Rightarrow> bucket" where
  "charge_failure now l e =
     (let e1 = (if now - failureWindowStart e \<ge> window l
                then e\<lparr>failures := 0, failureWindowStart := now\<rparr> else e);
          e2 = e1\<lparr>failures := failures e1 + 1, touchedAt := now\<rparr>
      in if int (failures e2) \<ge> maxFailures l
         then e2\<lparr>failureBlockedUntil := now + block l\<rparr> else e2)"

definition failKey :: "time \<Rightarrow> limiter \<Rightarrow> string \<Rightarrow> limiter" where
  "failKey now l k =
     (case fmlookup (buckets l) k of
        None \<Rightarrow>
          if bucket_count l \<ge> maxEntries l then l
          else put_bucket k (charge_failure now l
                 (zero_bucket\<lparr>failureWindowStart := now, attemptWindowStart := now\<rparr>)) l
      | Some e \<Rightarrow> put_bucket k (charge_failure now l e) l)"

definition Failure :: "netlib \<Rightarrow> time \<Rightarrow> limiter \<Rightarrow> string \<Rightarrow> string \<Rightarrow> limiter" where
  "Failure nl now l remoteIP account =
     failKey now (failKey now l (ipKey nl remoteIP)) (accountKey account)"

definition Success :: "limiter \<Rightarrow> string \<Rightarrow> limiter" where
  "Success l account = l\<lparr>buckets := fmdrop (accountKey account) (buckets l)\<rparr>"

section \<open>Frame lemmas\<close>

definition config :: "limiter \<Rightarrow> int list" where
  "config l = [maxFailures l, window l, block l, retention l, maxEntries l, sweepEvery l,
     maxIPAttempts l, ipAttemptWindow l, ipAttemptBlock l]"

lemma config_eqD:
  assumes "config l = config l'"
  shows "maxFailures l = maxFailures l'" "window l = window l'" "block l = block l'"
    "retention l = retention l'" "maxEntries l = maxEntries l'"
    "maxIPAttempts l = maxIPAttempts l'" "ipAttemptWindow l = ipAttemptWindow l'"
    "ipAttemptBlock l = ipAttemptBlock l'"
  using assms by (simp_all add: config_def)

lemma config_put [simp]: "config (put_bucket k e l) = config l"
  by (simp add: config_def put_bucket_def)

lemma config_sweep [simp]: "config (sweepIfDue now f l) = config l"
  by (simp add: config_def sweepIfDue_def)

lemma config_checkKeys [simp]: "config (fst (checkKeys now l ks)) = config l"
  by (induction ks arbitrary: l) (auto simp: Let_def split: option.splits)

lemma config_touchKeys [simp]: "config (touchKeys now l ks) = config l"
  by (induction ks arbitrary: l) (auto split: option.splits)

declare checkKeys.simps(2) [simp del] touchKeys.simps(2) [simp del]

lemma config_chargeIP [simp]: "config (chargeIP now k l) = config l"
  by (auto simp: chargeIP_def Let_def split: option.splits)

lemma config_admitKeys [simp]: "config (fst (admitKeys now l i a)) = config l"
proof -
  obtain l1 b where eq: "checkKeys now l [i, a] = (l1, b)" by force
  then have "config l1 = config l" using config_checkKeys [of now l "[i, a]"] by simp
  then show ?thesis using eq by (cases b) (simp_all add: admitKeys_def)
qed

lemma config_Allow [simp]: "config (fst (Allow nl now l ip acc)) = config l"
  by (simp add: Allow_def Let_def)

lemma config_failKey [simp]: "config (failKey now l k) = config l"
  by (auto simp: failKey_def split: option.splits)

lemma config_Failure [simp]: "config (Failure nl now l ip acc) = config l"
  by (simp add: Failure_def)

lemma config_Success [simp]: "config (Success l acc) = config l"
  by (simp add: Success_def config_def)

lemma NormalizeAccount_idem: "NormalizeAccount (NormalizeAccount a) = NormalizeAccount a"
  by (simp add: NormalizeAccount_def TrimSpace_ToLower TrimSpace_idem)

lemma ipKey_neq_accountKey [simp]:
  "ipKey nl a \<noteq> accountKey b" "accountKey b \<noteq> ipKey nl a"
  by (simp_all add: ipKey_def accountKey_def)

lemma lookup_put_bucket [simp]:
  "fmlookup (buckets (put_bucket k e l)) k' = (if k' = k then Some e else fmlookup (buckets l) k')"
  by (simp add: put_bucket_def)

lemma lookup_sweep:
  "fmlookup (buckets (sweepIfDue now f l)) k =
     (if \<not> f \<and> nextSweep l \<noteq> zero_time \<and> now < nextSweep l then fmlookup (buckets l) k
      else (case fmlookup (buckets l) k of None \<Rightarrow> None
        | Some e \<Rightarrow> if expired now l e then None else Some e))"
  by (auto simp: sweepIfDue_def split: option.splits)

section \<open>The number of buckets is bounded\<close>

lemma fmdom'_put [simp]: "fmdom' (buckets (put_bucket k e l)) = insert k (fmdom' (buckets l))"
  by (simp add: put_bucket_def)

lemma finite_dom [simp]: "finite (fmdom' m)"
  by (simp add: fmdom'_alt_def)

lemma dom_checkKeys:
  "fmdom' (buckets (fst (checkKeys now l ks))) \<subseteq> fmdom' (buckets l) \<union> set ks"
proof (induction ks arbitrary: l)
  case Nil
  show ?case by simp
next
  case (Cons k ks)
  have "fmdom' (buckets (fst (checkKeys now l (k # ks)))) \<subseteq> insert k (fmdom' (buckets l)) \<union> set ks"
    using Cons.IH [of "put_bucket k _ l"] Cons.IH [of "put_bucket k _ (put_bucket k _ l)"]
    by (auto simp: checkKeys.simps(2) Let_def split: option.splits)
  then show ?case by simp
qed

lemma dom_touchKeys: "fmdom' (buckets (touchKeys now l ks)) = fmdom' (buckets l)"
proof (induction ks arbitrary: l)
  case Nil
  show ?case by simp
next
  case (Cons k ks)
  have "k \<in> fmdom' (buckets l)" if "fmlookup (buckets l) k = Some e" for e
    using that by (rule fmdom'I)
  then show ?case by (auto simp: touchKeys.simps(2) Cons.IH split: option.splits)
qed

lemma dom_chargeIP: "fmdom' (buckets (chargeIP now k l)) = fmdom' (buckets l)"
  by (auto simp: chargeIP_def Let_def split: option.splits intro: fmdom'I)

lemma dom_admitKeys:
  "fmdom' (buckets (fst (admitKeys now l i a))) \<subseteq> fmdom' (buckets l) \<union> {i, a}"
proof -
  obtain l1 b where eq: "checkKeys now l [i, a] = (l1, b)" by force
  have "fmdom' (buckets l1) \<subseteq> fmdom' (buckets l) \<union> {i, a}"
    using dom_checkKeys [of now l "[i, a]"] eq by simp
  then show ?thesis
    using eq by (cases b) (simp_all add: admitKeys_def dom_chargeIP dom_touchKeys)
qed

lemma dom_sweep: "fmdom' (buckets (sweepIfDue now f l)) \<subseteq> fmdom' (buckets l)"
  by (auto simp: sweepIfDue_def)

lemma card_dom_missing:
  assumes "i \<noteq> a" and "D \<subseteq> fmdom' (buckets l) \<union> {i, a}"
  shows "int (card D) \<le> bucket_count l + missing_keys l [i, a]"
proof -
  let ?M = "{k \<in> {i, a}. fmlookup (buckets l) k = None}"
  have sub: "D \<subseteq> fmdom' (buckets l) \<union> ?M"
  proof
    fix k assume "k \<in> D"
    with assms(2) show "k \<in> fmdom' (buckets l) \<union> ?M"
      by (cases "fmlookup (buckets l) k") (auto intro: fmdom'I)
  qed
  have "finite (fmdom' (buckets l) \<union> ?M)" by simp
  then have "card D \<le> card (fmdom' (buckets l) \<union> ?M)"
    using sub by (rule card_mono)
  also have "\<dots> \<le> card (fmdom' (buckets l)) + card ?M"
    by (rule card_Un_le)
  finally have "int (card D) \<le> bucket_count l + int (card ?M)"
    by (simp add: bucket_count_def)
  moreover have "int (card ?M) = missing_keys l [i, a]"
  proof -
    have "?M = (if fmlookup (buckets l) i = None then {i} else {}) \<union>
        (if fmlookup (buckets l) a = None then {a} else {})"
      by auto
    then show ?thesis using assms(1) by (simp add: missing_keys_def)
  qed
  ultimately show ?thesis by simp
qed

definition bounded :: "limiter \<Rightarrow> bool" where
  "bounded l \<longleftrightarrow> bucket_count l \<le> maxEntries l"

lemma bucket_count_mono:
  "fmdom' (buckets l) \<subseteq> fmdom' (buckets l') \<Longrightarrow> bucket_count l \<le> bucket_count l'"
  by (simp add: bucket_count_def card_mono)

lemma bounded_admitKeys:
  assumes "i \<noteq> a" and "bucket_count l + missing_keys l [i, a] \<le> maxEntries l"
  shows "bounded (fst (admitKeys now l i a))"
  using card_dom_missing [OF assms(1) dom_admitKeys, of now l] assms(2)
  by (simp add: bounded_def config_eqD(5) [OF config_admitKeys])
    (simp add: bucket_count_def)

lemma bounded_sweep: "bounded l \<Longrightarrow> bounded (sweepIfDue now f l)"
  using bucket_count_mono [OF dom_sweep, of now f l]
  by (simp add: bounded_def config_eqD(5) [OF config_sweep])

lemma bounded_Allow [step_inv]: "bounded l \<Longrightarrow> bounded (fst (Allow nl now l ip acc))"
  by (simp add: Allow_def Let_def bounded_sweep bounded_admitKeys)

lemma bounded_failKey: "bounded l \<Longrightarrow> bounded (failKey now l k)"
proof (cases "fmlookup (buckets l) k")
  case None
  then have "k \<notin> fmdom' (buckets l)" by (simp add: fmdom'_notI)
  then show "bounded l \<Longrightarrow> ?thesis"
    using None by (simp add: failKey_def bounded_def bucket_count_def put_bucket_def)
next
  case (Some e)
  then have "k \<in> fmdom' (buckets l)" by (rule fmdom'I)
  then have "insert k (fmdom' (buckets l)) = fmdom' (buckets l)" by auto
  then show "bounded l \<Longrightarrow> ?thesis"
    using Some by (simp add: failKey_def bounded_def bucket_count_def put_bucket_def)
qed

lemma bounded_Failure [step_inv]: "bounded l \<Longrightarrow> bounded (Failure nl now l ip acc)"
  by (simp add: Failure_def bounded_failKey)

lemma bounded_Success [step_inv]: "bounded l \<Longrightarrow> bounded (Success l acc)"
proof -
  have "bucket_count (Success l acc) \<le> bucket_count l"
    by (rule bucket_count_mono) (auto simp: Success_def)
  then show "bounded l \<Longrightarrow> ?thesis" by (simp add: bounded_def Success_def)
qed

section \<open>What a bucket remembers\<close>

text \<open>
  \<open>failed_since t0 W M k n l\<close>: the bucket of \<open>k\<close>, if there is one, has counted exactly \<open>n\<close>
  failures since \<open>t0\<close>, and is blocked past \<open>t0 + W\<close> when \<open>n\<close> reached the limit \<open>M\<close>.
  \<open>attempted_since\<close> says the same of the attempts of an IP bucket.
\<close>

definition failed_since :: "time \<Rightarrow> duration \<Rightarrow> int \<Rightarrow> string \<Rightarrow> nat \<Rightarrow> limiter \<Rightarrow> bool" where
  "failed_since t0 W M k n l \<longleftrightarrow>
     maxFailures l = M \<and> window l = W \<and> W \<le> block l \<and> W \<le> retention l \<and>
     (case fmlookup (buckets l) k of
        None \<Rightarrow> n = 0 \<and> 1 \<le> M
      | Some e \<Rightarrow> t0 \<le> failureWindowStart e \<and> t0 \<le> touchedAt e \<and> failures e = n \<and>
                  (M \<le> int n \<longrightarrow> t0 + W \<le> failureBlockedUntil e))"

definition attempted_since :: "time \<Rightarrow> duration \<Rightarrow> int \<Rightarrow> string \<Rightarrow> nat \<Rightarrow> limiter \<Rightarrow> bool" where
  "attempted_since t0 W M k n l \<longleftrightarrow>
     maxIPAttempts l = M \<and> ipAttemptWindow l = W \<and> W \<le> ipAttemptBlock l \<and> W \<le> retention l \<and>
     (case fmlookup (buckets l) k of
        None \<Rightarrow> n = 0 \<and> 1 \<le> M
      | Some e \<Rightarrow> t0 \<le> attemptWindowStart e \<and> t0 \<le> touchedAt e \<and> attempts e = n \<and>
                  (M \<le> int n \<longrightarrow> t0 + W \<le> attemptBlockedUntil e))"

definition has_bucket :: "string \<Rightarrow> limiter \<Rightarrow> bool" where
  "has_bucket k l \<longleftrightarrow> fmlookup (buckets l) k \<noteq> None"

lemmas since_defs = failed_since_def attempted_since_def

lemma since_sweep:
  assumes "t0 \<le> now" and "now < t0 + W"
  shows "failed_since t0 W M k n l \<Longrightarrow> failed_since t0 W M k n (sweepIfDue now f l)"
    and "attempted_since t0 W M k n l \<Longrightarrow> attempted_since t0 W M k n (sweepIfDue now f l)"
  using assms
  by (auto simp: since_defs lookup_sweep expired_def config_eqD [OF config_sweep]
      split: option.splits)

lemma has_bucket_sweep:
  assumes "failed_since t0 W M k n l" and "now < t0 + W" and "has_bucket k l"
  shows "has_bucket k (sweepIfDue now f l)"
  using assms
  by (auto simp: has_bucket_def failed_since_def lookup_sweep expired_def split: option.splits)

text \<open>One turn of the loop of \<open>checkKeys\<close>, as an update of the examined bucket.\<close>

definition examined :: "time \<Rightarrow> limiter \<Rightarrow> string \<Rightarrow> bucket" where
  "examined now l k = (case fmlookup (buckets l) k of
       None \<Rightarrow> zero_bucket\<lparr>failureWindowStart := now, attemptWindowStart := now, touchedAt := now\<rparr>
     | Some e \<Rightarrow> e)"

lemma checkKeys_Cons:
  "checkKeys now l (k # ks) =
     (let e = examined now l k
      in if now < failureBlockedUntil e \<or> now < attemptBlockedUntil e
         then (put_bucket k e l, False)
         else checkKeys now (put_bucket k (reset_windows now l e) l) ks)"
proof -
  have same: "put_bucket k e l = l" if "fmlookup (buckets l) k = Some e" for e
  proof -
    have "fmupd k e (buckets l) = buckets l" by (rule fmap_ext) (auto simp: that)
    then show ?thesis by (simp add: put_bucket_def)
  qed
  have twice: "put_bucket k e (put_bucket k e' l) = put_bucket k e l" for e e'
    by (simp add: put_bucket_def fmap_ext)
  show ?thesis
    by (cases "fmlookup (buckets l) k")
      (simp_all add: checkKeys.simps(2) examined_def Let_def same twice)
qed

lemma failed_since_put:
  assumes "failed_since t0 W M k n l" and "t0 \<le> now" and "now < t0 + W"
  shows "failed_since t0 W M k n (put_bucket k' (examined now l k') l)"
    and "failed_since t0 W M k n (put_bucket k' (reset_windows now l (examined now l k')) l)"
  using assms
  by (auto simp: failed_since_def examined_def reset_windows_def Let_def zero_bucket_def
      config_eqD [OF config_put] split: option.splits)

lemma attempted_since_put:
  assumes "attempted_since t0 W M k n l" and "t0 \<le> now" and "now < t0 + W"
  shows "attempted_since t0 W M k n (put_bucket k' (examined now l k') l)"
    and "attempted_since t0 W M k n (put_bucket k' (reset_windows now l (examined now l k')) l)"
  using assms
  by (auto simp: attempted_since_def examined_def reset_windows_def Let_def zero_bucket_def
      config_eqD [OF config_put] split: option.splits)

lemma since_checkKeys:
  assumes "t0 \<le> now" and "now < t0 + W"
  shows "failed_since t0 W M k n l \<Longrightarrow> failed_since t0 W M k n (fst (checkKeys now l ks))"
    and "attempted_since t0 W M k n l \<Longrightarrow> attempted_since t0 W M k n (fst (checkKeys now l ks))"
  using assms
  by (induction ks arbitrary: l)
    (auto simp: checkKeys_Cons Let_def failed_since_put attempted_since_put)

lemma has_bucket_put [simp]: "has_bucket k (put_bucket k' e l) \<longleftrightarrow> k = k' \<or> has_bucket k l"
  by (auto simp: has_bucket_def)

lemma has_bucket_checkKeys: "has_bucket k l \<Longrightarrow> has_bucket k (fst (checkKeys now l ks))"
  by (induction ks arbitrary: l) (auto simp: checkKeys_Cons Let_def)

lemma checkKeys_admits:
  assumes "snd (checkKeys now l ks)" and "k \<in> set ks" and "t0 \<le> now" and "now < t0 + W"
  shows "(failed_since t0 W M k n l \<longrightarrow> int n < M) \<and> (attempted_since t0 W M k n l \<longrightarrow> int n < M)
    \<and> has_bucket k (fst (checkKeys now l ks))"
  using assms
proof (induction ks arbitrary: l)
  case (Cons k' ks)
  let ?e = "examined now l k'"
  let ?l = "put_bucket k' (reset_windows now l ?e) l"
  from Cons.prems have ok: "\<not> now < failureBlockedUntil ?e" "\<not> now < attemptBlockedUntil ?e"
    and rec: "checkKeys now l (k' # ks) = checkKeys now ?l ks"
    by (auto simp: checkKeys_Cons Let_def split: if_splits)
  show ?case
  proof (cases "k = k'")
    case True
    then show ?thesis
      using ok rec Cons.prems(3,4) has_bucket_checkKeys [of k ?l now ks]
      by (auto simp: since_defs examined_def split: option.splits)
  next
    case False
    then show ?thesis
      using rec Cons.prems Cons.IH [of ?l] failed_since_put(2) attempted_since_put(2) by auto
  qed
qed simp

lemma since_touch:
  assumes "t0 \<le> now" and "fmlookup (buckets l) k' = Some e"
  shows "failed_since t0 W M k n l \<Longrightarrow>
      failed_since t0 W M k n (put_bucket k' (e\<lparr>touchedAt := now\<rparr>) l)"
    and "attempted_since t0 W M k n l \<Longrightarrow>
      attempted_since t0 W M k n (put_bucket k' (e\<lparr>touchedAt := now\<rparr>) l)"
  using assms by (auto simp: since_defs config_eqD [OF config_put] split: option.splits)

lemma since_touchKeys:
  assumes "t0 \<le> now"
  shows "failed_since t0 W M k n l \<Longrightarrow> failed_since t0 W M k n (touchKeys now l ks)"
    and "attempted_since t0 W M k n l \<Longrightarrow> attempted_since t0 W M k n (touchKeys now l ks)"
  by (induction ks arbitrary: l)
    (auto simp: touchKeys.simps(2) intro: since_touch [OF assms] split: option.splits)

lemma has_bucket_touchKeys [simp]: "has_bucket k (touchKeys now l ks) \<longleftrightarrow> has_bucket k l"
  using dom_touchKeys [of now l ks] by (auto simp: has_bucket_def fmlookup_dom'_iff set_eq_iff)

lemma has_bucket_chargeIP [simp]: "has_bucket k (chargeIP now i l) \<longleftrightarrow> has_bucket k l"
  by (auto simp: chargeIP_def Let_def has_bucket_def split: option.splits)

lemma since_chargeIP:
  "failed_since t0 W M k n l \<Longrightarrow> failed_since t0 W M k n (chargeIP now i l)"
  "k \<noteq> i \<Longrightarrow> attempted_since t0 W M k n l \<Longrightarrow> attempted_since t0 W M k n (chargeIP now i l)"
  "t0 \<le> now \<Longrightarrow> has_bucket i l \<Longrightarrow> attempted_since t0 W M i n l \<Longrightarrow>
     attempted_since t0 W M i (Suc n) (chargeIP now i l)"
  by (auto simp: chargeIP_def since_defs has_bucket_def Let_def config_eqD [OF config_put]
      split: option.splits)

lemma since_admitKeys:
  assumes "t0 \<le> now" and "now < t0 + W" and res: "admitKeys now l i a = (l', b)" and "i \<noteq> a"
  shows "failed_since t0 W M k n l \<Longrightarrow> failed_since t0 W M k n l'"
    and "b \<Longrightarrow> failed_since t0 W M a n l \<Longrightarrow> int n < M"
    and "b \<Longrightarrow> has_bucket a l'"
    and "k \<noteq> i \<Longrightarrow> attempted_since t0 W M k n l \<Longrightarrow> attempted_since t0 W M k n l'"
    and "\<not> b \<Longrightarrow> attempted_since t0 W M i n l \<Longrightarrow> attempted_since t0 W M i n l'"
    and "b \<Longrightarrow> attempted_since t0 W M i n l \<Longrightarrow> attempted_since t0 W M i (Suc n) l' \<and> int n < M"
    and "has_bucket k l \<Longrightarrow> has_bucket k l'"
proof -
  obtain l1 c where eq: "checkKeys now l [i, a] = (l1, c)" by force
  have b: "b = c" and l': "l' = (if c then chargeIP now i (touchKeys now l1 [i, a]) else l1)"
    using res eq by (auto simp: admitKeys_def split: bool.splits)
  note pass = checkKeys_admits [of now l "[i, a]" _ t0 W M n, unfolded eq, simplified]
  have hi: "c \<Longrightarrow> has_bucket i l1" and ha: "c \<Longrightarrow> has_bucket a l1"
    using pass assms(1,2) by auto
  have f: "failed_since t0 W M k n l \<Longrightarrow> failed_since t0 W M k n l1" for k
    using since_checkKeys(1) [OF assms(1,2), of M k n l "[i, a]"] eq by simp
  have t: "attempted_since t0 W M k n l \<Longrightarrow> attempted_since t0 W M k n l1" for k
    using since_checkKeys(2) [OF assms(1,2), of M k n l "[i, a]"] eq by simp
  show "failed_since t0 W M k n l \<Longrightarrow> failed_since t0 W M k n l'"
    using f [of k] assms(1) by (auto simp: l' intro: since_chargeIP since_touchKeys)
  show "b \<Longrightarrow> failed_since t0 W M a n l \<Longrightarrow> int n < M"
    using pass assms(1,2) b by auto
  show "b \<Longrightarrow> has_bucket a l'"
    using ha by (simp add: l' b)
  show "k \<noteq> i \<Longrightarrow> attempted_since t0 W M k n l \<Longrightarrow> attempted_since t0 W M k n l'"
    using t [of k] assms(1) by (auto simp: l' intro: since_chargeIP(2) since_touchKeys)
  show "\<not> b \<Longrightarrow> attempted_since t0 W M i n l \<Longrightarrow> attempted_since t0 W M i n l'"
    using t [of i] by (simp add: l' b)
  show "b \<Longrightarrow> attempted_since t0 W M i n l \<Longrightarrow> attempted_since t0 W M i (Suc n) l' \<and> int n < M"
    using t [of i] hi pass assms(1,2) by (auto simp: l' b intro: since_chargeIP(3) since_touchKeys)
  show "has_bucket k l \<Longrightarrow> has_bucket k l'"
    using has_bucket_checkKeys [of k l now "[i, a]"] eq by (simp add: l')
qed

lemma Allow_cases:
  "Allow nl now l ip acc = (sweepIfDue now True (sweepIfDue now False l), False)
   \<or> Allow nl now l ip acc =
      admitKeys now (sweepIfDue now True (sweepIfDue now False l)) (ipKey nl ip) (accountKey acc)
   \<or> Allow nl now l ip acc = admitKeys now (sweepIfDue now False l) (ipKey nl ip) (accountKey acc)"
  by (auto simp: Allow_def Let_def)

lemma Allow_admit_cases:
  assumes "Allow nl now l ip acc = (l', b)" and "t0 \<le> now" and "now < t0 + W"
  obtains l1 where
      "\<And>k n M. failed_since t0 W M k n l \<Longrightarrow> failed_since t0 W M k n l1"
      "\<And>k n M. attempted_since t0 W M k n l \<Longrightarrow> attempted_since t0 W M k n l1"
      "\<And>k n M. failed_since t0 W M k n l \<Longrightarrow> has_bucket k l \<Longrightarrow> has_bucket k l1"
      "admitKeys now l1 (ipKey nl ip) (accountKey acc) = (l', b) \<or> l1 = l' \<and> \<not> b"
proof -
  let ?l1 = "sweepIfDue now False l" and ?l2 = "sweepIfDue now True (sweepIfDue now False l)"
  consider "l' = ?l2 \<and> \<not> b" | "admitKeys now ?l2 (ipKey nl ip) (accountKey acc) = (l', b)"
    | "admitKeys now ?l1 (ipKey nl ip) (accountKey acc) = (l', b)"
    using Allow_cases [of nl now l ip acc] assms(1) by fastforce
  then show ?thesis
  proof cases
    case 1
    with assms(2,3) show ?thesis
      by (intro that [of ?l2]) (auto intro!: since_sweep intro: has_bucket_sweep since_sweep)
  next
    case 2
    with assms(2,3) show ?thesis
      by (intro that [of ?l2]) (auto intro!: since_sweep intro: has_bucket_sweep since_sweep)
  next
    case 3
    with assms(2,3) show ?thesis
      by (intro that [of ?l1]) (auto intro!: since_sweep intro: has_bucket_sweep)
  qed
qed

lemma failed_since_failKey:
  assumes "t0 \<le> now" and "now < t0 + W" and "failed_since t0 W M k n l"
  shows "has_bucket k l \<Longrightarrow> failed_since t0 W M k (Suc n) (failKey now l k)"
    and "k' \<noteq> k \<Longrightarrow> failed_since t0 W M k n (failKey now l k')"
  using assms
  by (auto simp: failed_since_def failKey_def has_bucket_def charge_failure_def Let_def
      config_eqD [OF config_put] split: option.splits)

lemma attempted_since_failKey:
  assumes "t0 \<le> now" and "attempted_since t0 W M k n l"
  shows "attempted_since t0 W M k n (failKey now l k')"
  using assms
  by (auto simp: attempted_since_def failKey_def charge_failure_def Let_def zero_bucket_def
      config_eqD [OF config_put] split: option.splits)

lemma has_bucket_failKey: "has_bucket k l \<Longrightarrow> has_bucket k (failKey now l k')"
  by (auto simp: failKey_def split: option.splits)

lemma since_Failure:
  assumes "t0 \<le> now" and "now < t0 + W"
  shows "failed_since t0 W M (accountKey a) n l \<Longrightarrow> has_bucket (accountKey a) l \<Longrightarrow>
      failed_since t0 W M (accountKey a) (Suc n) (Failure nl now l ip a)"
    and "failed_since t0 W M (accountKey b) n l \<Longrightarrow> accountKey a \<noteq> accountKey b \<Longrightarrow>
      failed_since t0 W M (accountKey b) n (Failure nl now l ip a)"
    and "attempted_since t0 W M k n l \<Longrightarrow> attempted_since t0 W M k n (Failure nl now l ip a)"
    and "has_bucket k l \<Longrightarrow> has_bucket k (Failure nl now l ip a)"
proof -
  let ?l = "failKey now l (ipKey nl ip)"
  have f: "failed_since t0 W M (accountKey b) n l \<Longrightarrow> failed_since t0 W M (accountKey b) n ?l" for b
    using assms by (intro failed_since_failKey(2)) auto
  show "failed_since t0 W M (accountKey a) n l \<Longrightarrow> has_bucket (accountKey a) l \<Longrightarrow>
      failed_since t0 W M (accountKey a) (Suc n) (Failure nl now l ip a)"
    unfolding Failure_def
    by (rule failed_since_failKey(1) [OF assms]) (auto intro: f has_bucket_failKey)
  show "failed_since t0 W M (accountKey b) n l \<Longrightarrow> accountKey a \<noteq> accountKey b \<Longrightarrow>
      failed_since t0 W M (accountKey b) n (Failure nl now l ip a)"
    unfolding Failure_def
    by (rule failed_since_failKey(2) [OF assms]) (auto intro: f)
qed (auto simp: Failure_def intro!: attempted_since_failKey has_bucket_failKey assms)

lemma since_Success:
  "k \<noteq> accountKey a \<Longrightarrow> failed_since t0 W M k n l \<Longrightarrow> failed_since t0 W M k n (Success l a)"
  "attempted_since t0 W M (ipKey nl ip) n l \<Longrightarrow> attempted_since t0 W M (ipKey nl ip) n (Success l a)"
  "k \<noteq> accountKey a \<Longrightarrow> has_bucket k l \<Longrightarrow> has_bucket k (Success l a)"
  by (auto simp: since_defs Success_def has_bucket_def)

lemma since_Allow:
  assumes "t0 \<le> now" and "now < t0 + W" and res: "Allow nl now l ip a = (l', b)"
  shows "failed_since t0 W M k n l \<Longrightarrow> failed_since t0 W M k n l'"
    and "failed_since t0 W M k n l \<Longrightarrow> has_bucket k l \<Longrightarrow> has_bucket k l'"
    and "b \<Longrightarrow> failed_since t0 W M (accountKey a) n l \<Longrightarrow> int n < M \<and> has_bucket (accountKey a) l'"
    and "k \<noteq> ipKey nl ip \<or> \<not> b \<Longrightarrow> attempted_since t0 W M k n l \<Longrightarrow> attempted_since t0 W M k n l'"
    and "b \<Longrightarrow> attempted_since t0 W M (ipKey nl ip) n l \<Longrightarrow>
      attempted_since t0 W M (ipKey nl ip) (Suc n) l' \<and> int n < M"
proof -
  obtain l1 where l1: "\<And>k n M. failed_since t0 W M k n l \<Longrightarrow> failed_since t0 W M k n l1"
      "\<And>k n M. attempted_since t0 W M k n l \<Longrightarrow> attempted_since t0 W M k n l1"
      "\<And>k n M. failed_since t0 W M k n l \<Longrightarrow> has_bucket k l \<Longrightarrow> has_bucket k l1"
    and adm: "admitKeys now l1 (ipKey nl ip) (accountKey a) = (l', b) \<or> l1 = l' \<and> \<not> b"
    using Allow_admit_cases [OF res assms(1,2)] by blast
  note laws = since_admitKeys [OF assms(1,2) _ ipKey_neq_accountKey(1)]
  show "failed_since t0 W M k n l \<Longrightarrow> failed_since t0 W M k n l'"
    using l1(1) adm laws(1) by blast
  show "failed_since t0 W M k n l \<Longrightarrow> has_bucket k l \<Longrightarrow> has_bucket k l'"
    using l1(3) adm laws(7) by blast
  show "b \<Longrightarrow> failed_since t0 W M (accountKey a) n l \<Longrightarrow> int n < M \<and> has_bucket (accountKey a) l'"
    using l1(1) adm laws(2,3) by blast
  show "k \<noteq> ipKey nl ip \<or> \<not> b \<Longrightarrow> attempted_since t0 W M k n l \<Longrightarrow> attempted_since t0 W M k n l'"
    using l1(2) [of M k n] adm laws(4,5)
    by (cases "k = ipKey nl ip") (simp, blast)+
  show "b \<Longrightarrow> attempted_since t0 W M (ipKey nl ip) n l \<Longrightarrow>
      attempted_since t0 W M (ipKey nl ip) (Suc n) l' \<and> int n < M"
    using l1(2) adm laws(6) by blast
qed

section \<open>The contract a protocol front end relies on\<close>

text \<open>
  SMTP submission and IMAP share one limiter through the same three calls. The locale states
  what they rely on: within \<open>span\<close> of \<open>t0\<close>, \<open>tracked\<close> counts the failures of an account
  exactly as they are reported, and \<open>allow\<close> refuses once \<open>limit\<close> of them are on record.
\<close>

datatype limiter_op =
    OpAllow time string string
  | OpFailure time string string
  | OpSuccess string

fun op_step :: "(time \<Rightarrow> 's \<Rightarrow> string \<Rightarrow> string \<Rightarrow> 's \<times> bool) \<Rightarrow>
    (time \<Rightarrow> 's \<Rightarrow> string \<Rightarrow> string \<Rightarrow> 's) \<Rightarrow> ('s \<Rightarrow> string \<Rightarrow> 's) \<Rightarrow> 's \<Rightarrow> limiter_op \<Rightarrow> 's" where
  "op_step al fl su s (OpAllow now ip a) = fst (al now s ip a)"
| "op_step al fl su s (OpFailure now ip a) = fl now s ip a"
| "op_step al fl su s (OpSuccess a) = su s a"

text \<open>The operations that lie within the window and do not clear account \<open>b\<close>.\<close>

fun op_in :: "time \<Rightarrow> duration \<Rightarrow> string \<Rightarrow> limiter_op \<Rightarrow> bool" where
  "op_in t0 d b (OpAllow now ip a) \<longleftrightarrow> t0 \<le> now \<and> now < t0 + d"
| "op_in t0 d b (OpFailure now ip a) \<longleftrightarrow> t0 \<le> now \<and> now < t0 + d"
| "op_in t0 d b (OpSuccess a) \<longleftrightarrow> accountKey a \<noteq> accountKey b"

fun fails :: "string \<Rightarrow> limiter_op \<Rightarrow> bool" where
  "fails b (OpFailure now ip a) \<longleftrightarrow> accountKey a = accountKey b"
| "fails b _ \<longleftrightarrow> False"

text \<open>
  One login as both front ends perform it (\<open>storeBackend.Login\<close> and the PLAIN callback of
  \<open>submissionSession.Auth\<close>): ask the limiter, verify, report. The second component says
  whether the credentials were verified at all, the third whether they were right.
\<close>

definition login_attempt :: "(time \<Rightarrow> 's \<Rightarrow> string \<Rightarrow> string \<Rightarrow> 's \<times> bool) \<Rightarrow>
    (time \<Rightarrow> 's \<Rightarrow> string \<Rightarrow> string \<Rightarrow> 's) \<Rightarrow> ('s \<Rightarrow> string \<Rightarrow> 's) \<Rightarrow>
    (string \<Rightarrow> string \<Rightarrow> bool) \<Rightarrow> 's \<Rightarrow> time \<times> string \<times> string \<times> string \<Rightarrow> 's \<times> bool \<times> bool" where
  "login_attempt al fl su verify s x =
     (case x of (now, ip, username, password) \<Rightarrow>
       (let account = NormalizeAccount username
        in case al now s ip account of
             (s1, False) \<Rightarrow> (s1, False, False)
           | (s1, True) \<Rightarrow>
               if verify account password then (su s1 account, True, True)
               else (fl now s1 ip account, True, False)))"

fun verifications :: "(time \<Rightarrow> 's \<Rightarrow> string \<Rightarrow> string \<Rightarrow> 's \<times> bool) \<Rightarrow>
    (time \<Rightarrow> 's \<Rightarrow> string \<Rightarrow> string \<Rightarrow> 's) \<Rightarrow> ('s \<Rightarrow> string \<Rightarrow> 's) \<Rightarrow>
    (string \<Rightarrow> string \<Rightarrow> bool) \<Rightarrow> string \<Rightarrow> 's \<Rightarrow> (time \<times> string \<times> string \<times> string) list \<Rightarrow> nat" where
  "verifications al fl su verify b s [] = 0"
| "verifications al fl su verify b s (x # xs) =
     (let r = login_attempt al fl su verify s x
      in (if fst (snd r) \<and> accountKey (fst (snd (snd x))) = accountKey b then 1 else 0)
         + verifications al fl su verify b (fst r) xs)"

locale attempt_limiter =
  fixes allow :: "time \<Rightarrow> 's \<Rightarrow> string \<Rightarrow> string \<Rightarrow> 's \<times> bool"
    and failure :: "time \<Rightarrow> 's \<Rightarrow> string \<Rightarrow> string \<Rightarrow> 's"
    and success :: "'s \<Rightarrow> string \<Rightarrow> 's"
    and tracked :: "time \<Rightarrow> string \<Rightarrow> nat \<Rightarrow> 's \<Rightarrow> bool"
    and present :: "string \<Rightarrow> 's \<Rightarrow> bool"
    and span :: duration
    and limit :: int
  assumes allow_tracked: "t0 \<le> now \<Longrightarrow> now < t0 + span \<Longrightarrow> tracked t0 b n s \<Longrightarrow>
      tracked t0 b n (fst (allow now s ip a)) \<and>
      (present b s \<longrightarrow> present b (fst (allow now s ip a)))"
    and allow_admits: "t0 \<le> now \<Longrightarrow> now < t0 + span \<Longrightarrow> tracked t0 b n s \<Longrightarrow>
      accountKey a = accountKey b \<Longrightarrow> snd (allow now s ip a) \<Longrightarrow>
      int n < limit \<and> present b (fst (allow now s ip a))"
    and failure_same: "t0 \<le> now \<Longrightarrow> now < t0 + span \<Longrightarrow> tracked t0 b n s \<Longrightarrow> present b s \<Longrightarrow>
      accountKey a = accountKey b \<Longrightarrow> tracked t0 b (Suc n) (failure now s ip a)"
    and failure_other: "t0 \<le> now \<Longrightarrow> now < t0 + span \<Longrightarrow> tracked t0 b n s \<Longrightarrow>
      accountKey a \<noteq> accountKey b \<Longrightarrow> tracked t0 b n (failure now s ip a)"
    and failure_present: "present b s \<Longrightarrow> present b (failure now s ip a)"
    and success_other: "tracked t0 b n s \<Longrightarrow> accountKey a \<noteq> accountKey b \<Longrightarrow>
      tracked t0 b n (success s a) \<and> (present b s \<longrightarrow> present b (success s a))"
begin

lemma op_tracked:
  assumes "op_in t0 span b x" and "tracked t0 b n s" and "present b s"
  shows "tracked t0 b (n + (if fails b x then 1 else 0)) (op_step allow failure success s x)
    \<and> present b (op_step allow failure success s x)"
  using assms
  by (cases x) (auto simp: allow_tracked failure_same failure_other failure_present success_other)

lemma run_tracked:
  assumes "\<forall>x \<in> set ops. op_in t0 span b x" and "tracked t0 b n s" and "present b s"
  shows "tracked t0 b (n + count_where (fails b) ops)
      (foldl (op_step allow failure success) s ops)"
  using assms
proof (induction ops arbitrary: s n)
  case (Cons x ops)
  let ?n = "n + (if fails b x then 1 else 0)" and ?s = "op_step allow failure success s x"
  have "tracked t0 b ?n ?s \<and> present b ?s"
    using Cons.prems by (intro op_tracked) auto
  then have "tracked t0 b (?n + count_where (fails b) ops) (foldl (op_step allow failure success) ?s ops)"
    using Cons.prems(1) by (intro Cons.IH) auto
  then show ?case by (cases "fails b x") simp_all
qed simp

lemma lockout:
  assumes "\<forall>x \<in> set ops. op_in t0 span b x" and "tracked t0 b n s" and "present b s"
    and "limit \<le> int (n + count_where (fails b) ops)" and "t0 \<le> now" and "now < t0 + span"
  shows "\<not> snd (allow now (foldl (op_step allow failure success) s ops) ip b)"
proof
  assume "snd (allow now (foldl (op_step allow failure success) s ops) ip b)"
  with allow_admits [OF assms(5,6) run_tracked [OF assms(1-3)] refl] assms(4)
  show False by force
qed

lemma attempt_tracked:
  assumes "t0 \<le> now" and "now < t0 + span" and "tracked t0 b n s"
    and wrong: "accountKey u = accountKey b \<Longrightarrow> \<not> verify (NormalizeAccount u) p"
    and res: "login_attempt allow failure success verify s (now, ip, u, p) = (s', tried, okay)"
  shows "tracked t0 b (n + (if tried \<and> accountKey u = accountKey b then 1 else 0)) s'"
    and "tried \<Longrightarrow> accountKey u = accountKey b \<Longrightarrow> int n < limit"
proof -
  have key: "accountKey (NormalizeAccount u) = accountKey u"
    by (simp add: accountKey_def NormalizeAccount_idem)
  obtain s1 c where al: "allow now s ip (NormalizeAccount u) = (s1, c)" by force
  have t1: "tracked t0 b n s1"
    using allow_tracked [OF assms(1-3), of ip "NormalizeAccount u"] al by simp
  have p1: "c \<Longrightarrow> accountKey u = accountKey b \<Longrightarrow> int n < limit \<and> present b s1"
    using allow_admits [OF assms(1-3), of "NormalizeAccount u" ip] al key by simp
  show "tried \<Longrightarrow> accountKey u = accountKey b \<Longrightarrow> int n < limit"
    using res al p1 by (auto simp: login_attempt_def Let_def split: bool.splits)
  show "tracked t0 b (n + (if tried \<and> accountKey u = accountKey b then 1 else 0)) s'"
    using res al t1 p1 wrong assms(1,2) key
    by (auto simp: login_attempt_def Let_def failure_same failure_other success_other
        split: bool.splits if_splits)
qed

lemma verifications_bounded:
  assumes "\<forall>(now, ip, u, p) \<in> set xs. t0 \<le> now \<and> now < t0 + span \<and>
      (accountKey u = accountKey b \<longrightarrow> \<not> verify (NormalizeAccount u) p)"
    and "tracked t0 b n s" and "int n \<le> limit"
  shows "int (n + verifications allow failure success verify b s xs) \<le> limit"
  using assms
proof (induction xs arbitrary: s n)
  case (Cons x xs)
  obtain now ip u p where x: "x = (now, ip, u, p)" by (cases x) auto
  obtain s' tried okay
    where r: "login_attempt allow failure success verify s x = (s', tried, okay)"
    by (cases "login_attempt allow failure success verify s x") auto
  let ?d = "(if tried \<and> accountKey u = accountKey b then 1 else 0) :: nat"
  have "tracked t0 b (n + ?d) s'" "int (n + ?d) \<le> limit"
    using attempt_tracked [of t0 now b n s u verify p ip s' tried okay] Cons.prems x r by auto
  then have "int ((n + ?d) + verifications allow failure success verify b s' xs) \<le> limit"
    using Cons.IH [of "n + ?d" s'] Cons.prems(1) by auto
  then show ?case using x r by (auto simp: add.assoc split: if_splits)
qed simp

end

interpretation auth_limit: attempt_limiter "Allow nl" "Failure nl" Success
  "\<lambda>t0 b n l. failed_since t0 W M (accountKey b) n l" "\<lambda>b. has_bucket (accountKey b)" W M
  for nl :: netlib and W :: duration and M :: int
proof (unfold_locales, goal_cases)
  case (1 t0 now b n s ip a)
  then show ?case
    using since_Allow(1,2) [of t0 now W nl s ip a "fst (Allow nl now s ip a)" "snd (Allow nl now s ip a)"]
    by (auto simp: prod_eq_iff)
next
  case (2 t0 now b n s a ip)
  then show ?case
    using since_Allow(3) [of t0 now W nl s ip a "fst (Allow nl now s ip a)" "snd (Allow nl now s ip a)"]
    by (auto simp: prod_eq_iff)
next
  case (3 t0 now b n s a ip)
  then show ?case
    using since_Failure(1) [of t0 now W M a n s nl ip] by simp
next
  case (4 t0 now b n s a ip)
  then show ?case using since_Failure(2) by blast
next
  case (5 b s now ip a)
  then show ?case using since_Failure(4) [of now now 1] by simp
next
  case (6 t0 b n s a)
  then show ?case using since_Success by metis
qed

section \<open>The attempt budget of an IP address\<close>

fun admitted :: "netlib \<Rightarrow> string \<Rightarrow> limiter \<Rightarrow> limiter_op list \<Rightarrow> nat" where
  "admitted nl k l [] = 0"
| "admitted nl k l (x # xs) =
     (case x of OpAllow now ip a \<Rightarrow> (if snd (Allow nl now l ip a) \<and> ipKey nl ip = k then 1 else 0)
              | _ \<Rightarrow> 0)
     + admitted nl k (op_step (Allow nl) (Failure nl) Success l x) xs"

fun op_time_in :: "time \<Rightarrow> duration \<Rightarrow> limiter_op \<Rightarrow> bool" where
  "op_time_in t0 d (OpAllow now ip a) \<longleftrightarrow> t0 \<le> now \<and> now < t0 + d"
| "op_time_in t0 d (OpFailure now ip a) \<longleftrightarrow> t0 \<le> now \<and> now < t0 + d"
| "op_time_in t0 d (OpSuccess a) \<longleftrightarrow> True"

lemma admitted_bounded:
  assumes "\<forall>x \<in> set ops. op_time_in t0 W x"
    and "attempted_since t0 W M (ipKey nl ip) n l" and "int n \<le> M"
  shows "int (n + admitted nl (ipKey nl ip) l ops) \<le> M"
  using assms
proof (induction ops arbitrary: l n)
  case (Cons x ops)
  show ?case
  proof (cases x)
    case (OpAllow now ip' a)
    let ?l = "fst (Allow nl now l ip' a)" and ?b = "snd (Allow nl now l ip' a)"
    let ?d = "(if ?b \<and> ipKey nl ip' = ipKey nl ip then 1 else 0) :: nat"
    have t: "t0 \<le> now" "now < t0 + W" using Cons.prems(1) OpAllow by auto
    have "attempted_since t0 W M (ipKey nl ip) (n + ?d) ?l \<and> int (n + ?d) \<le> M"
      using since_Allow(4,5) [OF t prod.collapse [symmetric], where nl = nl and l = l and ip = ip' and a = a] Cons.prems(2,3)
      by (cases "ipKey nl ip' = ipKey nl ip"; cases ?b) fastforce+
    then have "int ((n + ?d) + admitted nl (ipKey nl ip) ?l ops) \<le> M"
      using Cons.IH [of "n + ?d" ?l] Cons.prems(1) by auto
    then show ?thesis using OpAllow by (simp add: add.assoc)
  next
    case (OpFailure now ip' a)
    then show ?thesis using Cons.prems Cons.IH since_Failure(3) by auto
  next
    case (OpSuccess a)
    then show ?thesis using Cons.prems Cons.IH since_Success(2) by auto
  qed
qed simp

section \<open>Properties\<close>

abbreviation limiter_run :: "netlib \<Rightarrow> limiter \<Rightarrow> limiter_op list \<Rightarrow> limiter" where
  "limiter_run nl \<equiv> foldl (op_step (Allow nl) (Failure nl) Success)"

lemma New_wf:
  "bounded (New opts)" "1 \<le> maxFailures (New opts)" "1 \<le> maxIPAttempts (New opts)"
  "window (New opts) \<le> retention (New opts)"
  "ipAttemptWindow (New opts) \<le> retention (New opts)"
  "0 < window (New opts)" "0 < ipAttemptWindow (New opts)"
  by (auto simp: New_def Let_def bounded_def bucket_count_def)

lemma bounded_op: "bounded l \<Longrightarrow> bounded (op_step (Allow nl) (Failure nl) Success l x)"
  by (cases x) (simp_all add: step_inv)

lemma config_op [simp]: "config (op_step (Allow nl) (Failure nl) Success l x) = config l"
  by (cases x) simp_all

interpretation auth_machine: ordered_machine "op_step (Allow nl) (Failure nl) Success" bounded
  "\<lambda>l l'. config l' = config l" for nl :: netlib
  by unfold_locales (auto intro: bounded_op)

lemma config_run: "config (limiter_run nl (New opts) ops) = config (New opts)"
  by (rule auth_machine.le_run) (rule New_wf)

lemma failed_since_start:
  assumes "config l = config (New opts)" and "window (New opts) \<le> block (New opts)"
    and "fmlookup (buckets l) k = None"
  shows "failed_since t0 (window (New opts)) (maxFailures (New opts)) k 0 l"
  using assms New_wf [of opts] config_eqD [OF assms(1)] by (simp add: failed_since_def)

lemma attempted_since_start:
  assumes "config l = config (New opts)" and "ipAttemptWindow (New opts) \<le> ipAttemptBlock (New opts)"
    and "fmlookup (buckets l) k = None"
  shows "attempted_since t0 (ipAttemptWindow (New opts)) (maxIPAttempts (New opts)) k 0 l"
  using assms New_wf [of opts] config_eqD [OF assms(1)] by (simp add: attempted_since_def)

text \<open>A concrete address library for the witnesses: no port to split off, every text an address.\<close>

definition plain_net :: netlib where
  "plain_net = \<lparr>split_host_port = (\<lambda>_. None), parse_ip = (\<lambda>s. Some s)\<rparr>"

lemma fmlookup_NewDefault [simp]: "fmlookup (buckets NewDefault) k = None"
  by (simp add: NewDefault_def New_def Let_def)

lemma Allow_fresh_default:
  "snd (Allow nl 1 NewDefault ip a)"
  by (simp add: Allow_def Let_def sweepIfDue_def NewDefault_def New_def bucket_count_def
      missing_keys_def admitKeys_def checkKeys_Cons examined_def zero_bucket_def reset_windows_def)

text \<open>
  C1. Memory bound. However \<open>Allow\<close>, \<open>Failure\<close> and \<open>Success\<close> are called, with whatever
  addresses and account names an attacker chooses, the limiter never holds more buckets than
  its configured \<open>MaxEntries\<close>.
\<close>

theorem limiter_memory_bounded:
  "bucket_count (limiter_run nl (New opts) ops) \<le> maxEntries (New opts)"
  using auth_machine.inv_run [OF New_wf(1), of nl opts ops] config_eqD(5) [OF config_run]
  by (simp add: bounded_def)



text \<open>
  Online guessing bound. When every login goes through the protocol of the two front ends
  (ask, verify, report) and no guess for \<open>b\<close> is right, then however many logins arrive within
  one window, for \<open>b\<close> and for others and from any number of addresses, at most \<open>MaxFailures\<close>
  of them reach the password check of \<open>b\<close>.
\<close>

theorem guesses_bounded:
  assumes "window (New opts) \<le> block (New opts)"
    and "fmlookup (buckets (limiter_run nl (New opts) before)) (accountKey b) = None"
    and "\<forall>(now, ip, u, p) \<in> set logins. t0 \<le> now \<and> now < t0 + window (New opts) \<and>
      (accountKey u = accountKey b \<longrightarrow> \<not> verify (NormalizeAccount u) p)"
  shows "int (verifications (Allow nl) (Failure nl) Success verify b
    (limiter_run nl (New opts) before) logins) \<le> maxFailures (New opts)"
  using auth_limit.verifications_bounded [OF assms(3) failed_since_start [OF config_run assms(1,2)], of nl]
    New_wf(2) [of opts] by simp

theorem guesses_bounded_witness:
  "int (verifications (Allow plain_net) (Failure plain_net) Success (\<lambda>_ _. False) ''bob'' NewDefault
    (replicate 9 (1, ''10.0.0.1'', ''Bob '', ''guess''))) \<le> 5"
  using guesses_bounded [of "\<lparr>o_MaxFailures = 0, o_Window = 0, o_Block = 0, o_MaxEntries = 0,
      o_SweepEvery = 0, o_MaxIPAttempts = 0, o_IPAttemptWindow = 0, o_IPAttemptBlock = 0\<rparr>" plain_net "[]"
      "''bob''" "replicate 9 (1, ''10.0.0.1'', ''Bob '', ''guess'')" 1 "\<lambda>_ _. False"]
  by (simp add: NewDefault_def New_def Let_def)

text \<open>
  Attempt budget of an address. Every admitted attempt, successful or not, is charged to the
  remote IP before any password is hashed: from an address the limiter has no record of, at most
  \<open>MaxIPAttempts\<close> attempts are admitted within one attempt window, whatever accounts they name
  and whatever their outcomes, and no \<open>Success\<close> resets the count.
\<close>

theorem ip_attempts_bounded:
  assumes "ipAttemptWindow (New opts) \<le> ipAttemptBlock (New opts)"
    and "fmlookup (buckets (limiter_run nl (New opts) before)) (ipKey nl ip) = None"
    and "\<forall>x \<in> set ops. op_time_in t0 (ipAttemptWindow (New opts)) x"
  shows "int (admitted nl (ipKey nl ip) (limiter_run nl (New opts) before) ops)
    \<le> maxIPAttempts (New opts)"
  using admitted_bounded [OF assms(3) attempted_since_start [OF config_run assms(1,2)]]
    New_wf(3) [of opts] by simp

theorem ip_attempts_bounded_witness:
  "int (admitted plain_net (ipKey plain_net ''10.0.0.1'') NewDefault
     (concat (replicate 100 [OpAllow 1 ''10.0.0.1'' ''bob'', OpSuccess ''bob'']))) \<le> 60"
  using ip_attempts_bounded [of "\<lparr>o_MaxFailures = 0, o_Window = 0, o_Block = 0, o_MaxEntries = 0,
      o_SweepEvery = 0, o_MaxIPAttempts = 0, o_IPAttemptWindow = 0, o_IPAttemptBlock = 0\<rparr>" plain_net "[]"
      "''10.0.0.1''" "concat (replicate 100 [OpAllow 1 ''10.0.0.1'' ''bob'', OpSuccess ''bob''])" 1]
  by (simp add: NewDefault_def New_def Let_def)

end
