(* ===== verification/ConnLimit.thy ===== *)
theory ConnLimit
  imports Prelude "HOL-Library.Finite_Map" "HOL-Library.Multiset"
begin

text \<open>
  \<open>internal/connlimit/listener.go\<close>: a cap on concurrent connections, global and per IP, shared
  by several listeners. The limiter's two counters are a record; the listener is a machine whose
  state adds the connections handed out, each with the flag of its \<open>sync.Once\<close>. The locale
  \<open>slot_pool\<close> is the contract of such a counter pair; the pre-authentication guard of the
  IMAP server (theory \<open>ImapGuard\<close>) keeps the same counters and provides the same contract.
\<close>

section \<open>A Go map of counters\<close>

text \<open>A missing key of a \<open>map[string]int\<close> reads as 0.\<close>

definition count_of :: "(string, nat) fmap \<Rightarrow> string \<Rightarrow> nat" where
  "count_of m k = (case fmlookup m k of None \<Rightarrow> 0 | Some n \<Rightarrow> n)"

definition incr :: "string \<Rightarrow> (string, nat) fmap \<Rightarrow> (string, nat) fmap" where
  "incr k m = fmupd k (count_of m k + 1) m"

text \<open>\<open>if m[k] <= 1 { delete(m, k) } else { m[k]-- }\<close>\<close>

definition decr :: "string \<Rightarrow> (string, nat) fmap \<Rightarrow> (string, nat) fmap" where
  "decr k m = (if count_of m k \<le> 1 then fmdrop k m else fmupd k (count_of m k - 1) m)"

lemma count_of_empty [simp]: "count_of fmempty k = 0"
  by (simp add: count_of_def)

lemma count_of_incr [simp]: "count_of (incr k m) k' = (if k' = k then Suc (count_of m k) else count_of m k')"
  by (simp add: count_of_def incr_def)

lemma count_of_decr [simp]: "count_of (decr k m) k' = (if k' = k then count_of m k - 1 else count_of m k')"
  by (auto simp: count_of_def decr_def)

definition positive :: "(string, nat) fmap \<Rightarrow> bool" where
  "positive m \<longleftrightarrow> (\<forall>k n. fmlookup m k = Some n \<longrightarrow> 0 < n)"

lemma positive_ops [intro]: "positive fmempty" "positive m \<Longrightarrow> positive (incr k m)"
  "positive m \<Longrightarrow> positive (decr k m)"
  by (auto simp: positive_def incr_def decr_def split: if_splits)

section \<open>The limiter\<close>

record conn_limiter =
  globalMax :: int
  perIPMax :: int
  global :: nat
  byIP :: "(string, nat) fmap"

definition new_limiter :: "int \<Rightarrow> int \<Rightarrow> conn_limiter" where
  "new_limiter gm pm = \<lparr>globalMax = gm, perIPMax = pm, global = 0, byIP = fmempty\<rparr>"

definition remoteIP :: "(string \<Rightarrow> (string \<times> string) option) \<Rightarrow> string option \<Rightarrow> string" where
  "remoteIP split_host_port address =
     (case address of
        None \<Rightarrow> ''unknown''
      | Some a \<Rightarrow> (case split_host_port a of Some (host, _) \<Rightarrow> host | None \<Rightarrow> a))"

definition acquire :: "conn_limiter \<Rightarrow> string \<Rightarrow> conn_limiter \<times> bool" where
  "acquire l ip =
     (if (globalMax l > 0 \<and> int (global l) \<ge> globalMax l) \<or>
         (perIPMax l > 0 \<and> int (count_of (byIP l) ip) \<ge> perIPMax l)
      then (l, False)
      else (l\<lparr>global := global l + 1, byIP := incr ip (byIP l)\<rparr>, True))"

definition release :: "conn_limiter \<Rightarrow> string \<Rightarrow> conn_limiter" where
  "release l ip =
     (let l1 = (if global l > 0 then l\<lparr>global := global l - 1\<rparr> else l)
      in l1\<lparr>byIP := decr ip (byIP l1)\<rparr>)"

section \<open>The contract of a pool of slots\<close>

locale slot_pool =
  fixes take_slot :: "'p \<Rightarrow> 't \<Rightarrow> 'p \<times> bool"
    and drop_slot :: "'p \<Rightarrow> 't \<Rightarrow> 'p"
    and addr :: "'t \<Rightarrow> string"
    and holds :: "'p \<Rightarrow> 't \<Rightarrow> bool"
    and total :: "'p \<Rightarrow> nat"
    and held :: "'p \<Rightarrow> string \<Rightarrow> nat"
    and global_cap :: "'p \<Rightarrow> nat option"
    and ip_cap :: "'p \<Rightarrow> nat option"
  assumes take_refused: "take_slot p t = (p', False) \<Longrightarrow> p' = p"
    and take_granted: "take_slot p t = (p', True) \<Longrightarrow>
      total p' = Suc (total p) \<and> held p' = (held p)(addr t := Suc (held p (addr t)))
      \<and> global_cap p' = global_cap p \<and> ip_cap p' = ip_cap p"
    and take_room: "take_slot p t = (p', True) \<Longrightarrow>
      (\<forall>g. global_cap p = Some g \<longrightarrow> total p < g) \<and>
      (\<forall>c. ip_cap p = Some c \<longrightarrow> held p (addr t) < c)"
    and drop_held: "holds p t \<Longrightarrow>
      total (drop_slot p t) = total p - 1
      \<and> held (drop_slot p t) = (held p)(addr t := held p (addr t) - 1)
      \<and> global_cap (drop_slot p t) = global_cap p \<and> ip_cap (drop_slot p t) = ip_cap p"
begin

text \<open>
  \<open>accounts p open_ips\<close>: the pool counts exactly the connections in the list of their addresses,
  and they are within the caps.
\<close>

definition accounts :: "'p \<Rightarrow> string list \<Rightarrow> bool" where
  "accounts p open_ips \<longleftrightarrow> total p = length open_ips \<and> (\<forall>ip. held p ip = count_list open_ips ip)
     \<and> (\<forall>g. global_cap p = Some g \<longrightarrow> length open_ips \<le> g)
     \<and> (\<forall>c ip. ip_cap p = Some c \<longrightarrow> count_list open_ips ip \<le> c)"

lemma accounts_take:
  assumes "accounts p ips" and "take_slot p t = (p', b)"
  shows "accounts p' (if b then addr t # ips else ips)"
proof (cases b)
  case True
  note g = take_granted [of p t p'] and r = take_room [of p t p']
  show ?thesis
    using assms True g r unfolding accounts_def by (auto simp: Suc_le_eq)
next
  case False
  then show ?thesis using assms take_refused [of p t p'] by simp
qed

lemma count_list_remove1: "count_list (remove1 x xs) y = (if x = y then count_list xs y - 1 else count_list xs y)"
  by (induction xs) (auto simp: count_list_0_iff)

lemma accounts_drop:
  assumes "accounts p ips" and "addr t \<in> set ips" and "holds p t"
  shows "accounts (drop_slot p t) (remove1 (addr t) ips)"
  using assms drop_held [OF assms(3)]
  by (auto simp: accounts_def count_list_remove1 length_remove1 le_diff_conv intro: le_SucI)

lemma accounts_mset:
  assumes "accounts p ips" and "mset ips = mset ips'"
  shows "accounts p ips'"
proof -
  have "count_list ips = count_list ips'"
    using assms(2) by (auto simp: count_mset [symmetric])
  moreover have "length ips = length ips'"
    using assms(2) by (metis size_mset)
  ultimately show ?thesis using assms(1) by (simp add: accounts_def)
qed

lemma accounts_empty:
  assumes "accounts p []"
  shows "total p = 0 \<and> held p = (\<lambda>_. 0)"
  using assms by (auto simp: accounts_def)

end

definition cap_of :: "int \<Rightarrow> nat option" where
  "cap_of m = (if m > 0 then Some (nat m) else None)"

interpretation conn_pool: slot_pool acquire release "\<lambda>ip. ip"
  "\<lambda>l ip. 0 < count_of (byIP l) ip \<and> count_of (byIP l) ip \<le> global l"
  global "\<lambda>l. count_of (byIP l)" "\<lambda>l. cap_of (globalMax l)" "\<lambda>l. cap_of (perIPMax l)"
  by unfold_locales
    (auto simp: acquire_def release_def Let_def cap_of_def fun_eq_iff split: if_splits)

section \<open>Listeners and tracked connections\<close>

record tracked_conn =
  tc_ip :: string
  tc_released :: bool

record listener_state =
  limiter :: conn_limiter
  conns :: "tracked_conn list"

text \<open>
  \<open>listener.Accept\<close> loops over the connections the wrapped listener hands it: a connection over
  a cap is closed and the loop goes on, an admitted one is returned (its index in \<open>conns\<close>). The
  list ends where the wrapped listener fails, and so does \<open>Accept\<close> (\<open>None\<close>).
\<close>

fun Accept :: "(string \<Rightarrow> (string \<times> string) option) \<Rightarrow> listener_state \<Rightarrow> string option list
    \<Rightarrow> listener_state \<times> nat option" where
  "Accept shp s [] = (s, None)"
| "Accept shp s (addr # rest) =
     (case acquire (limiter s) (remoteIP shp addr) of
        (l1, False) \<Rightarrow> Accept shp (s\<lparr>limiter := l1\<rparr>) rest
      | (l1, True) \<Rightarrow>
          (s\<lparr>limiter := l1, conns := conns s @ [\<lparr>tc_ip = remoteIP shp addr, tc_released = False\<rparr>]\<rparr>,
           Some (length (conns s))))"

text \<open>\<open>trackedConn.Close\<close>: the \<open>sync.Once\<close> lets only the first call release the slot.\<close>

definition Close :: "listener_state \<Rightarrow> nat \<Rightarrow> listener_state" where
  "Close s i =
     (if i < length (conns s) \<and> \<not> tc_released (conns s ! i)
      then s\<lparr>limiter := release (limiter s) (tc_ip (conns s ! i)),
             conns := (conns s)[i := (conns s ! i)\<lparr>tc_released := True\<rparr>]\<rparr>
      else s)"

datatype conn_event = EvAccept "string option list" | EvClose nat

fun conn_step :: "(string \<Rightarrow> (string \<times> string) option) \<Rightarrow> listener_state \<Rightarrow> conn_event \<Rightarrow> listener_state" where
  "conn_step shp s (EvAccept addrs) = fst (Accept shp s addrs)"
| "conn_step shp s (EvClose i) = Close s i"

definition open_ips :: "listener_state \<Rightarrow> string list" where
  "open_ips s = map tc_ip (filter (\<lambda>c. \<not> tc_released c) (conns s))"

definition new_listener :: "int \<Rightarrow> int \<Rightarrow> listener_state" where
  "new_listener gm pm = \<lparr>limiter = new_limiter gm pm, conns = []\<rparr>"

definition conn_inv :: "int \<Rightarrow> int \<Rightarrow> listener_state \<Rightarrow> bool" where
  "conn_inv gm pm s \<longleftrightarrow> conn_pool.accounts (limiter s) (open_ips s)
     \<and> globalMax (limiter s) = gm \<and> perIPMax (limiter s) = pm \<and> positive (byIP (limiter s))"

lemma acquire_frame:
  assumes "acquire l ip = (l', b)" and "positive (byIP l)"
  shows "globalMax l' = globalMax l" "perIPMax l' = perIPMax l" "positive (byIP l')"
  using assms by (auto simp: acquire_def positive_def incr_def split: if_splits)

lemma conn_inv_Accept: "conn_inv gm pm s \<Longrightarrow> conn_inv gm pm (fst (Accept shp s addrs))"
proof (induction shp s addrs rule: Accept.induct)
  case (2 shp s addr rest)
  obtain l1 b where eq: "acquire (limiter s) (remoteIP shp addr) = (l1, b)" by force
  note acc = conn_pool.accounts_take [of "limiter s" "open_ips s", OF _ eq]
  show ?case
  proof (cases b)
    case True
    have "conn_pool.accounts l1 (remoteIP shp addr # open_ips s)"
      using acc "2.prems" True by (simp add: conn_inv_def)
    then have "conn_pool.accounts l1 (open_ips s @ [remoteIP shp addr])"
      by (rule conn_pool.accounts_mset) simp
    then show ?thesis using "2.prems" eq True acquire_frame [OF eq]
      by (simp add: conn_inv_def open_ips_def)
  next
    case False
    have "conn_inv gm pm (s\<lparr>limiter := l1\<rparr>)"
      using acc "2.prems" False acquire_frame [OF eq] by (simp add: conn_inv_def open_ips_def)
    then show ?thesis using "2.IH" eq False by simp
  qed
qed simp

lemma open_ips_release:
  assumes "i < length cs" and "\<not> tc_released (cs ! i)"
  shows "mset (map tc_ip (filter (\<lambda>c. \<not> tc_released c) (cs[i := (cs ! i)\<lparr>tc_released := True\<rparr>])))
    = mset (remove1 (tc_ip (cs ! i)) (map tc_ip (filter (\<lambda>c. \<not> tc_released c) cs)))"
proof -
  have up: "cs[i := x] = take i cs @ x # drop (Suc i) cs" for x
    using assms(1) by (rule upd_conv_take_nth_drop)
  have cs: "cs = take i cs @ cs ! i # drop (Suc i) cs"
    using assms(1) by (rule id_take_nth_drop)
  have "mset (map tc_ip (filter (\<lambda>c. \<not> tc_released c) cs)) =
      add_mset (tc_ip (cs ! i)) (mset (map tc_ip (filter (\<lambda>c. \<not> tc_released c)
        (cs[i := (cs ! i)\<lparr>tc_released := True\<rparr>]))))"
    by (subst (1) cs) (simp add: up assms(2))
  then show ?thesis by (simp add: mset_remove1)
qed

lemma conn_inv_Close: "conn_inv gm pm s \<Longrightarrow> conn_inv gm pm (Close s i)"
proof (cases "i < length (conns s) \<and> \<not> tc_released (conns s ! i)")
  case True
  assume inv: "conn_inv gm pm s"
  have mem: "tc_ip (conns s ! i) \<in> set (open_ips s)"
    using True by (auto simp: open_ips_def)
  have "conn_pool.accounts (release (limiter s) (tc_ip (conns s ! i))) (open_ips (Close s i))"
  proof (rule conn_pool.accounts_mset)
    show "conn_pool.accounts (release (limiter s) (tc_ip (conns s ! i)))
        (remove1 (tc_ip (conns s ! i)) (open_ips s))"
      using inv mem count_list_pos [OF mem] count_le_length [of "open_ips s"]
      by (intro conn_pool.accounts_drop) (simp_all add: conn_inv_def conn_pool.accounts_def)
    show "mset (remove1 (tc_ip (conns s ! i)) (open_ips s)) = mset (open_ips (Close s i))"
      using open_ips_release [of i "conns s"] True by (simp add: Close_def open_ips_def)
  qed
  then show ?thesis using inv True
    by (auto simp: conn_inv_def Close_def release_def Let_def)
qed (auto simp: Close_def)

interpretation conn_machine: machine "conn_step shp" "conn_inv gm pm"
  for shp :: "string \<Rightarrow> (string \<times> string) option" and gm pm :: int
proof (unfold_locales)
  fix s c assume "conn_inv gm pm s"
  then show "conn_inv gm pm (conn_step shp s c)"
    by (cases c) (auto intro: conn_inv_Accept conn_inv_Close)
qed

lemma conn_inv_new: "conn_inv gm pm (new_listener gm pm)"
  by (auto simp: conn_inv_def new_listener_def new_limiter_def open_ips_def conn_pool.accounts_def)

lemmas conn_inv_run = conn_machine.inv_run [OF conn_inv_new]

section \<open>Properties\<close>

text \<open>
  Connection caps. In every history of accepted and closed connections, over all listeners
  that share the limiter, the connections that are open never exceed the positive global cap, and
  those of one address never exceed the positive per-IP cap.
\<close>

theorem connection_caps_hold:
  assumes "s = foldl (conn_step shp) (new_listener gm pm) es"
  shows "(0 < gm \<longrightarrow> int (length (open_ips s)) \<le> gm) \<and>
    (0 < pm \<longrightarrow> int (count_list (open_ips s) ip) \<le> pm)"
proof -
  let ?s = "foldl (conn_step shp) (new_listener gm pm) es"
  have acc: "conn_pool.accounts (limiter ?s) (open_ips ?s)"
    and cfg: "globalMax (limiter ?s) = gm" "perIPMax (limiter ?s) = pm"
    using conn_inv_run [of gm pm shp es] by (simp_all add: conn_inv_def)
  have "gm > 0 \<Longrightarrow> length (open_ips ?s) \<le> nat gm"
    using acc cfg(1) unfolding conn_pool.accounts_def by (simp add: cap_of_def)
  moreover have "pm > 0 \<Longrightarrow> count_list (open_ips ?s) ip \<le> nat pm"
    using acc cfg(2) unfolding conn_pool.accounts_def by (simp add: cap_of_def)
  ultimately show ?thesis using assms by auto
qed

theorem connection_caps_hold_witness:
  "int (length (open_ips (foldl (conn_step (\<lambda>_. None)) (new_listener 2 1)
     [EvAccept [Some ''a''], EvAccept [Some ''a'', Some ''b''], EvAccept [Some ''c'']]))) \<le> 2"
  using connection_caps_hold [of _ "\<lambda>_. None" 2 1
      "[EvAccept [Some ''a''], EvAccept [Some ''a'', Some ''b''], EvAccept [Some ''c'']]" "''a''", OF refl]
  by simp

text \<open>
  C6. No slot leaks. The limiter's counters are exact in every history, a second \<open>Close\<close> of a
  connection included: \<open>global\<close> is the number of open connections, \<open>byIP\<close> counts those of each
  address, and once all are closed the limiter is as new.
\<close>

theorem connection_slots_exact:
  "global (limiter (foldl (conn_step shp) (new_listener gm pm) es))
     = length (open_ips (foldl (conn_step shp) (new_listener gm pm) es))
   \<and> count_of (byIP (limiter (foldl (conn_step shp) (new_listener gm pm) es))) ip
     = count_list (open_ips (foldl (conn_step shp) (new_listener gm pm) es)) ip
   \<and> (open_ips (foldl (conn_step shp) (new_listener gm pm) es) = []
      \<longrightarrow> limiter (foldl (conn_step shp) (new_listener gm pm) es) = new_limiter gm pm)"
proof -
  let ?s = "foldl (conn_step shp) (new_listener gm pm) es"
  have inv: "conn_inv gm pm ?s" by (rule conn_inv_run)
  have "limiter ?s = new_limiter gm pm" if none: "open_ips ?s = []"
  proof -
    have "global (limiter ?s) = 0" and zero: "\<And>k. count_of (byIP (limiter ?s)) k = 0"
      using inv none conn_pool.accounts_empty by (auto simp: conn_inv_def)
    moreover have "byIP (limiter ?s) = fmempty"
    proof (rule fmap_ext)
      fix k
      show "fmlookup (byIP (limiter ?s)) k = fmlookup fmempty k"
        using zero [of k] inv by (auto simp: count_of_def conn_inv_def positive_def split: option.splits)
    qed
    ultimately show ?thesis using inv by (simp add: new_limiter_def conn_inv_def)
  qed
  then show ?thesis using inv by (auto simp: conn_inv_def conn_pool.accounts_def)
qed

theorem connection_slots_exact_witness:
  "limiter (foldl (conn_step (\<lambda>_. None)) (new_listener 2 1)
     [EvAccept [Some ''a''], EvAccept [Some ''a'', Some ''b''], EvClose 0, EvClose 0, EvClose 1])
   = new_limiter 2 1"
  using connection_slots_exact [of "\<lambda>_. None" 2 1
      "[EvAccept [Some ''a''], EvAccept [Some ''a'', Some ''b''], EvClose 0, EvClose 0, EvClose 1]"]
  by (simp add: new_listener_def new_limiter_def acquire_def release_def remoteIP_def Close_def
      open_ips_def Let_def incr_def decr_def count_of_def)

end
