(* ===== verification/ImapGuard.thy ===== *)
theory ImapGuard
  imports AuthLimit ConnLimit "HOL-Library.Word"
begin

text \<open>
  \<open>internal/imapserver/guard.go\<close>: the guard in front of the IMAP parser. It admits connections
  within caps, and on each admitted connection it validates every command line and literal size
  before the parser sees a byte, more strictly while the client is not authenticated. Sizes are
  \<open>uint64\<close> in the source and 64-bit words here. The bytes still to arrive on the socket are the
  field \<open>input\<close>; its end is \<open>io.EOF\<close>.
\<close>

type_synonym u64 = "64 word"

section \<open>Literals at the end of a command line\<close>

datatype guard_error =
    IO_EOF
  | ErrIMAPCommandLineTooLong
  | ErrIMAPLiteralTooLarge
  | ErrIMAPPreAuthCommandTooLarge
  | ErrIMAPConnectionLimit

definition is_digit :: "char \<Rightarrow> bool" where
  "is_digit c \<longleftrightarrow> 48 \<le> code_of c \<and> code_of c \<le> 57"

definition decimal_value :: "string \<Rightarrow> nat" where
  "decimal_value ds = foldl (\<lambda>n c. 10 * n + (code_of c - 48)) 0 ds"

definition ParseUint64 :: "string \<Rightarrow> u64 option" where
  "ParseUint64 ds = (if decimal_value ds < 2 ^ 64 then Some (of_nat (decimal_value ds)) else None)"

fun LastIndexByte :: "string \<Rightarrow> char \<Rightarrow> nat option" where
  "LastIndexByte [] c = None"
| "LastIndexByte (x # xs) c =
     (case LastIndexByte xs c of
        Some i \<Rightarrow> Some (Suc i)
      | None \<Rightarrow> if x = c then Some 0 else None)"

text \<open>The size and whether there is a literal; the error when the size does not fit in 64 bits.\<close>

definition imapLiteralAtLineEnd :: "string \<Rightarrow> guard_error + (u64 \<times> bool)" where
  "imapLiteralAtLineEnd line0 =
     (let line = TrimSuffix (TrimSuffix line0 [LF]) [CR]
      in if length line < 3 \<or> last line \<noteq> CHR ''}'' then Inr (0, False)
         else (case LastIndexByte line (CHR ''{'') of
             None \<Rightarrow> Inr (0, False)
           | Some op \<Rightarrow>
               if op = 0 \<or> (line ! (op - 1) \<noteq> CHR '' '' \<and> line ! (op - 1) \<noteq> CHR ''('')
               then Inr (0, False)
               else
                 (let digits0 = drop (op + 1) (take (length line - 1) line);
                      digits = (if digits0 \<noteq> [] \<and> last digits0 = CHR ''+'' then butlast digits0
                                else digits0)
                  in if digits = [] then Inr (0, False)
                     else if \<not> list_all is_digit digits then Inr (0, False)
                     else (case ParseUint64 digits of
                         None \<Rightarrow> Inl ErrIMAPLiteralTooLarge
                       | Some sz \<Rightarrow> Inr (sz, True)))))"

section \<open>Reading one connection\<close>

record guard_conn =
  input :: string
  pending :: string
  literalRemaining :: u64
  preAuthDeadline :: time
  maxLineBytes :: nat
  maxPreAuthLiteral :: u64
  maxPreAuthCommand :: u64
  preAuthCommandBytes :: u64
  maxAuthenticatedLit :: u64
  authenticated :: bool
  closed :: bool

definition addPreAuthCommandBytes :: "guard_conn \<Rightarrow> u64 \<Rightarrow> guard_conn \<times> bool" where
  "addPreAuthCommandBytes c additional =
     (if additional > maxPreAuthCommand c - preAuthCommandBytes c then (c, False)
      else (c\<lparr>preAuthCommandBytes := preAuthCommandBytes c + additional\<rparr>, True))"

text \<open>
  The byte loop of \<open>readValidatedLine\<close>: it leaves at the end of input, at the limit, or with a
  line that ends in LF. The second component is what is left of the input.
\<close>

fun readLineBytes :: "nat \<Rightarrow> string \<Rightarrow> string \<Rightarrow> (guard_error + string) \<times> string" where
  "readLineBytes maximum line [] = (Inl IO_EOF, [])"
| "readLineBytes maximum line (character # rest) =
     (if maximum \<le> length line then (Inl ErrIMAPCommandLineTooLong, rest)
      else if character \<noteq> LF then readLineBytes maximum (line @ [character]) rest
      else (Inr (line @ [character]), rest))"

text \<open>What follows the loop: the literal announced by the line, against the current limits.\<close>

definition validateLine :: "guard_conn \<Rightarrow> string \<Rightarrow> (guard_error + (string \<times> u64)) \<times> guard_conn" where
  "validateLine c line =
     (case imapLiteralAtLineEnd line of
        Inl e \<Rightarrow> (Inl e, c\<lparr>closed := True\<rparr>)
      | Inr (literalSize, True) \<Rightarrow>
          (let maximum = (if authenticated c then maxAuthenticatedLit c else maxPreAuthLiteral c)
           in if literalSize > maximum then (Inl ErrIMAPLiteralTooLarge, c\<lparr>closed := True\<rparr>)
              else if authenticated c then (Inr (line, literalSize), c)
              else (case addPreAuthCommandBytes c (of_nat (length line) + literalSize) of
                  (c1, False) \<Rightarrow> (Inl ErrIMAPPreAuthCommandTooLarge, c1\<lparr>closed := True\<rparr>)
                | (c1, True) \<Rightarrow> (Inr (line, literalSize), c1)))
      | Inr (_, False) \<Rightarrow>
          if authenticated c then (Inr (line, 0), c)
          else (case addPreAuthCommandBytes c (of_nat (length line)) of
              (c1, False) \<Rightarrow> (Inl ErrIMAPPreAuthCommandTooLarge, c1\<lparr>closed := True\<rparr>)
            | (c1, True) \<Rightarrow> (Inr (line, 0), c1\<lparr>preAuthCommandBytes := 0\<rparr>)))"

definition readValidatedLine :: "guard_conn \<Rightarrow> (guard_error + (string \<times> u64)) \<times> guard_conn" where
  "readValidatedLine c =
     (case readLineBytes (maxLineBytes c) [] (input c) of
        (Inl ErrIMAPCommandLineTooLong, rest) \<Rightarrow>
          (Inl ErrIMAPCommandLineTooLong, c\<lparr>input := rest, closed := True\<rparr>)
      | (Inl e, rest) \<Rightarrow> (Inl e, c\<lparr>input := rest\<rparr>)
      | (Inr line, rest) \<Rightarrow> validateLine (c\<lparr>input := rest\<rparr>) line)"

text \<open>
  \<open>Read\<close> into a buffer of \<open>n\<close> bytes. \<open>chunk\<close> is how many bytes the socket has ready when literal
  data is read through \<open>bufio.Reader.Read\<close>, which may return fewer bytes than asked for.
\<close>

definition Read :: "guard_conn \<Rightarrow> nat \<Rightarrow> nat \<Rightarrow> (guard_error + string) \<times> guard_conn" where
  "Read c n chunk =
     (if n = 0 then (Inr [], c)
      else if pending c \<noteq> [] then (Inr (take n (pending c)), c\<lparr>pending := drop n (pending c)\<rparr>)
      else if literalRemaining c > 0 then
        (let maximum = min n (unat (literalRemaining c));
             got = take (min maximum chunk) (input c)
         in (if input c = [] then Inl IO_EOF else Inr got,
             c\<lparr>input := drop (length got) (input c),
               literalRemaining := literalRemaining c - of_nat (length got)\<rparr>))
      else (case readValidatedLine c of
          (Inl e, c1) \<Rightarrow> (Inl e, c1)
        | (Inr (line, literalSize), c1) \<Rightarrow>
            (Inr (take n line), c1\<lparr>literalRemaining := literalSize, pending := drop n line\<rparr>)))"

definition markAuthenticated :: "guard_conn \<Rightarrow> guard_conn" where
  "markAuthenticated c = c\<lparr>authenticated := True\<rparr>"

definition cappedReadDeadline :: "guard_conn \<Rightarrow> time \<Rightarrow> time" where
  "cappedReadDeadline c requested =
     (if authenticated c then requested
      else if requested = zero_time \<or> requested > preAuthDeadline c then preAuthDeadline c
      else requested)"

section \<open>Options\<close>

record guard_options =
  go_maxLineBytes :: int
  go_maxPreAuthLiteral :: u64
  go_maxPreAuthCommand :: u64
  go_maxAuthenticatedLit :: u64
  go_maxConnectionsPerIP :: int
  go_maxConnectionsGlobal :: int
  go_preAuthTimeout :: duration

definition defaultGuardOptions :: "int \<Rightarrow> guard_options" where
  "defaultGuardOptions maxMessageBytes =
     (let m0 = (25 * 1024 * 1024 :: u64);
          m1 = (if maxMessageBytes > 0 then of_int maxMessageBytes else m0);
          m2 = (if m1 > 0xFFFFFFFF then 0xFFFFFFFF else m1)
      in \<lparr>go_maxLineBytes = 64 * 1024, go_maxPreAuthLiteral = 8 * 1024,
          go_maxPreAuthCommand = 64 * 1024, go_maxAuthenticatedLit = m2,
          go_maxConnectionsPerIP = 32, go_maxConnectionsGlobal = 512,
          go_preAuthTimeout = 30 * second\<rparr>)"

definition normalizeGuardOptions :: "guard_options \<Rightarrow> guard_options" where
  "normalizeGuardOptions o0 =
     (let o1 = (if go_maxLineBytes o0 < 1 then o0\<lparr>go_maxLineBytes := 64 * 1024\<rparr> else o0);
          o2 = (if go_maxPreAuthLiteral o1 = 0 then o1\<lparr>go_maxPreAuthLiteral := 8 * 1024\<rparr> else o1);
          o3 = (if go_maxPreAuthCommand o2 = 0 then o2\<lparr>go_maxPreAuthCommand := 64 * 1024\<rparr> else o2);
          o4 = (if go_maxAuthenticatedLit o3 = 0
                then o3\<lparr>go_maxAuthenticatedLit := 25 * 1024 * 1024\<rparr> else o3);
          o5 = (if go_maxConnectionsPerIP o4 < 1 then o4\<lparr>go_maxConnectionsPerIP := 32\<rparr> else o4);
          o6 = (if go_maxConnectionsGlobal o5 < 1 then o5\<lparr>go_maxConnectionsGlobal := 512\<rparr> else o5)
      in if go_preAuthTimeout o6 \<le> 0 then o6\<lparr>go_preAuthTimeout := 30 * second\<rparr> else o6)"

definition new_guard_conn :: "guard_options \<Rightarrow> time \<Rightarrow> string \<Rightarrow> guard_conn" where
  "new_guard_conn opts now bytes =
     \<lparr>input = bytes, pending = [], literalRemaining = 0, preAuthDeadline = now + go_preAuthTimeout opts,
      maxLineBytes = nat (go_maxLineBytes opts), maxPreAuthLiteral = go_maxPreAuthLiteral opts,
      maxPreAuthCommand = go_maxPreAuthCommand opts, preAuthCommandBytes = 0,
      maxAuthenticatedLit = go_maxAuthenticatedLit opts, authenticated = False, closed = False\<rparr>"

section \<open>The guard passes the stream through unchanged\<close>

lemma readLineBytes_split:
  "readLineBytes m acc inp = (Inr line, rest) \<Longrightarrow>
     line @ rest = acc @ inp \<and> line \<noteq> [] \<and> last line = LF \<and> length line \<le> max m (length acc)"
  by (induction m acc inp rule: readLineBytes.induct) (auto split: if_splits)

lemma validateLine_frame:
  assumes "validateLine c line = (r, c')"
  shows "input c' = input c" "pending c' = pending c" "literalRemaining c' = literalRemaining c"
    "authenticated c' = authenticated c" "maxLineBytes c' = maxLineBytes c"
    "maxPreAuthLiteral c' = maxPreAuthLiteral c" "maxPreAuthCommand c' = maxPreAuthCommand c"
    "maxAuthenticatedLit c' = maxAuthenticatedLit c" "preAuthDeadline c' = preAuthDeadline c"
    "\<And>l n. r = Inr (l, n) \<Longrightarrow> l = line"
  using assms
  by (auto simp: validateLine_def addPreAuthCommandBytes_def Let_def
      split: sum.splits bool.splits prod.splits if_splits)

lemma readValidatedLine_Inr:
  assumes "readValidatedLine c = (Inr (line, n), c')"
  shows "line @ input c' = input c" "pending c' = pending c" "line \<noteq> []" "last line = LF"
    "length line \<le> maxLineBytes c" "validateLine (c\<lparr>input := input c'\<rparr>) line = (Inr (line, n), c')"
proof -
  obtain r rest where eq: "readLineBytes (maxLineBytes c) [] (input c) = (r, rest)" by force
  obtain l where r: "r = Inr l"
    using assms eq by (cases r) (auto simp: readValidatedLine_def split: guard_error.splits)
  have v: "validateLine (c\<lparr>input := rest\<rparr>) l = (Inr (line, n), c')"
    using assms eq r by (simp add: readValidatedLine_def)
  note fr = validateLine_frame [OF v] and sp = readLineBytes_split [OF eq [unfolded r]]
  have "l = line" "input c' = rest" using fr(1,10) by simp_all
  then show "line @ input c' = input c" "pending c' = pending c" "line \<noteq> []" "last line = LF"
    "length line \<le> maxLineBytes c" "validateLine (c\<lparr>input := input c'\<rparr>) line = (Inr (line, n), c')"
    using sp fr(2) v by simp_all
qed

lemma Read_stream:
  assumes "Read c n chunk = (Inr bs, c')"
  shows "bs @ pending c' @ input c' = pending c @ input c"
proof -
  consider "n = 0" | "n \<noteq> 0" "pending c \<noteq> []"
    | "n \<noteq> 0" "pending c = []" "literalRemaining c > 0"
    | "n \<noteq> 0" "pending c = []" "\<not> literalRemaining c > 0" by blast
  then show ?thesis
  proof cases
    case 4
    then obtain line k c1 where r: "readValidatedLine c = (Inr (line, k), c1)"
      and "bs = take n line" "c' = c1\<lparr>literalRemaining := k, pending := drop n line\<rparr>"
      using assms by (auto simp: Read_def split: prod.splits sum.splits)
    then show ?thesis using 4 readValidatedLine_Inr(1) [OF r]
      by (simp flip: append_assoc)
  qed (use assms in \<open>auto simp: Read_def Let_def split: if_splits\<close>)
qed

text \<open>A sequence of reads, up to the first error.\<close>

fun read_all :: "guard_conn \<Rightarrow> (nat \<times> nat) list \<Rightarrow> string \<times> guard_conn \<times> guard_error option" where
  "read_all c [] = ([], c, None)"
| "read_all c ((n, chunk) # rs) =
     (case Read c n chunk of
        (Inl e, c1) \<Rightarrow> ([], c1, Some e)
      | (Inr bs, c1) \<Rightarrow> (case read_all c1 rs of (bs', c2, e) \<Rightarrow> (bs @ bs', c2, e)))"

lemma read_all_stream:
  "read_all c rs = (bs, c', e) \<Longrightarrow>
     (\<exists>rest. pending c @ input c = bs @ rest \<and> (e = None \<longrightarrow> rest = pending c' @ input c'))"
proof (induction c rs arbitrary: bs rule: read_all.induct)
  case (2 c n chunk rs)
  show ?case
  proof (cases "Read c n chunk")
    case (Pair r c1)
    show ?thesis
    proof (cases r)
      case (Inl err)
      then show ?thesis using "2.prems" Pair by auto
    next
      case (Inr b)
      with "2.prems" Pair obtain bs' where r': "read_all c1 rs = (bs', c', e)" and bs: "bs = b @ bs'"
        by (auto split: prod.splits)
      from "2.IH" [OF Pair [symmetric] Inr r'] obtain rest
        where rest: "pending c1 @ input c1 = bs' @ rest" "e = None \<longrightarrow> rest = pending c' @ input c'"
        by auto
      have "pending c @ input c = b @ (pending c1 @ input c1)"
        using Read_stream [of c n chunk b c1] Pair Inr by simp
      also have "\<dots> = bs @ rest" using rest(1) bs by simp
      finally show ?thesis using rest(2) by blast
    qed
  qed
qed simp

section \<open>Limits before authentication\<close>

text \<open>
  The sizes of the commands in a sequence of lines: a line that announces a literal continues the
  command, with the announced bytes counted; any other line ends it. The last entry is the command
  that is still open.
\<close>

fun command_sizes :: "nat \<Rightarrow> string list \<Rightarrow> nat list" where
  "command_sizes acc [] = [acc]"
| "command_sizes acc (l # ls) =
     (case imapLiteralAtLineEnd l of
        Inr (n, True) \<Rightarrow> command_sizes (acc + length l + unat n) ls
      | _ \<Rightarrow> (acc + length l) # command_sizes 0 ls)"

fun validate_all :: "guard_conn \<Rightarrow> string list \<Rightarrow> guard_conn option" where
  "validate_all c [] = Some c"
| "validate_all c (l # ls) =
     (case validateLine c l of (Inl e, c1) \<Rightarrow> None | (Inr _, c1) \<Rightarrow> validate_all c1 ls)"

definition guard_limits_ok :: "guard_conn \<Rightarrow> bool" where
  "guard_limits_ok c \<longleftrightarrow> preAuthCommandBytes c \<le> maxPreAuthCommand c
     \<and> maxLineBytes c + unat (maxPreAuthLiteral c) < 2 ^ 64"

lemma add_bytes:
  assumes "preAuthCommandBytes c \<le> maxPreAuthCommand c" and "addPreAuthCommandBytes c a = (c', b)"
  shows "b \<longleftrightarrow> unat (preAuthCommandBytes c) + unat a \<le> unat (maxPreAuthCommand c)"
    and "b \<Longrightarrow> c' = c\<lparr>preAuthCommandBytes := preAuthCommandBytes c + a\<rparr>
      \<and> unat (preAuthCommandBytes c + a) = unat (preAuthCommandBytes c) + unat a"
proof -
  have diff: "unat (maxPreAuthCommand c - preAuthCommandBytes c) =
      unat (maxPreAuthCommand c) - unat (preAuthCommandBytes c)"
    using assms(1) by (rule unat_sub)
  have le: "unat (preAuthCommandBytes c) \<le> unat (maxPreAuthCommand c)"
    using assms(1) by (simp add: word_le_nat_alt)
  show iff: "b \<longleftrightarrow> unat (preAuthCommandBytes c) + unat a \<le> unat (maxPreAuthCommand c)"
    using assms(2) diff le
    by (auto simp: addPreAuthCommandBytes_def word_less_nat_alt split: if_splits)
  assume b
  have top: "unat (maxPreAuthCommand c) < 2 ^ LENGTH(64)" by (rule unsigned_less)
  have "unat (preAuthCommandBytes c) + unat a < 2 ^ LENGTH(64)"
    using iff \<open>b\<close> top by linarith
  then show "c' = c\<lparr>preAuthCommandBytes := preAuthCommandBytes c + a\<rparr>
      \<and> unat (preAuthCommandBytes c + a) = unat (preAuthCommandBytes c) + unat a"
    using assms(2) \<open>b\<close> unat_add_lem [of "preAuthCommandBytes c" a, THEN iffD1]
    by (simp add: addPreAuthCommandBytes_def split: if_splits)
qed

lemma validateLine_sizes:
  assumes "\<not> authenticated c" and "guard_limits_ok c" and "length l \<le> maxLineBytes c"
    and "validateLine c l = (Inr r, c')"
  shows "\<not> authenticated c' \<and> guard_limits_ok c' \<and> maxLineBytes c' = maxLineBytes c
      \<and> maxPreAuthCommand c' = maxPreAuthCommand c \<and>
    (case imapLiteralAtLineEnd l of
        Inr (n, True) \<Rightarrow> unat (preAuthCommandBytes c') = unat (preAuthCommandBytes c) + length l + unat n
      | _ \<Rightarrow> preAuthCommandBytes c' = 0 \<and>
          unat (preAuthCommandBytes c) + length l \<le> unat (maxPreAuthCommand c))"
proof -
  have fits: "length l < 2 ^ 64"
    using assms(2,3) by (simp add: guard_limits_ok_def)
  then have len: "unat (of_nat (length l) :: u64) = length l"
    by (simp add: unat_of_nat)
  have ok: "preAuthCommandBytes c \<le> maxPreAuthCommand c"
    using assms(2) by (simp add: guard_limits_ok_def)
  show ?thesis
  proof (cases "imapLiteralAtLineEnd l")
    case (Inl e)
    then show ?thesis using assms(4) by (simp add: validateLine_def)
  next
    case (Inr p)
    obtain n lit where p: "p = (n, lit)" by force
    show ?thesis
    proof (cases lit)
      case True
      have small: "n \<le> maxPreAuthLiteral c"
        and add: "addPreAuthCommandBytes c (of_nat (length l) + n) = (c', True)"
        using assms(1,4) Inr p True
        by (auto simp: validateLine_def Let_def split: if_splits prod.splits bool.splits)
      have "length l + unat n < 2 ^ 64"
        using assms(2,3) small by (simp add: guard_limits_ok_def word_le_nat_alt)
      then have "unat (of_nat (length l) + n :: u64) = length l + unat n"
        using len by (simp add: unat_add_lem [THEN iffD1])
      with add_bytes [OF ok add] show ?thesis
        using assms(1,2) Inr p True
        by (auto simp: guard_limits_ok_def word_le_nat_alt)
    next
      case False
      obtain c1 where add: "addPreAuthCommandBytes c (of_nat (length l)) = (c1, True)"
        and "c' = c1\<lparr>preAuthCommandBytes := 0\<rparr>"
        using assms(1,4) Inr p False
        by (auto simp: validateLine_def Let_def split: if_splits prod.splits bool.splits)
      with add_bytes [OF ok add] show ?thesis
        using assms(1,2) Inr p False len by (auto simp: guard_limits_ok_def)
    qed
  qed
qed

lemma validate_all_sizes:
  assumes "\<not> authenticated c" and "guard_limits_ok c" and "\<forall>l \<in> set ls. length l \<le> maxLineBytes c"
    and "validate_all c ls = Some c'"
  shows "\<forall>s \<in> set (command_sizes (unat (preAuthCommandBytes c)) ls). s \<le> unat (maxPreAuthCommand c)"
  using assms
proof (induction ls arbitrary: c)
  case Nil
  then show ?case by (simp add: guard_limits_ok_def word_le_nat_alt)
next
  case (Cons l ls)
  from Cons.prems(4) obtain r c1 where v: "validateLine c l = (Inr r, c1)"
    and rest: "validate_all c1 ls = Some c'"
    by (auto split: prod.splits sum.splits)
  note one = validateLine_sizes [OF Cons.prems(1,2) _ v]
  have "\<forall>s \<in> set (command_sizes (unat (preAuthCommandBytes c1)) ls). s \<le> unat (maxPreAuthCommand c)"
    using Cons.IH [of c1] one Cons.prems(3) rest by auto
  then show ?case using one Cons.prems(3)
    by (auto simp: add.assoc split: sum.splits prod.splits bool.splits)
qed

section \<open>Literal syntax\<close>

definition digit_char :: "nat \<Rightarrow> char" where
  "digit_char d = char_of (48 + d)"

fun show_dec :: "nat \<Rightarrow> string" where
  "show_dec n = (if n < 10 then [digit_char n] else show_dec (n div 10) @ [digit_char (n mod 10)])"

declare show_dec.simps [simp del]

lemma code_of_digit: "d < 10 \<Longrightarrow> code_of (digit_char d) = 48 + d"
  by (simp add: digit_char_def of_char_of)

lemma is_digit_digit: "d < 10 \<Longrightarrow> is_digit (digit_char d)"
  by (simp add: is_digit_def code_of_digit)

lemma show_dec_digits: "list_all is_digit (show_dec n) \<and> show_dec n \<noteq> []"
proof (induction n rule: show_dec.induct)
  case (1 n)
  then show ?case
    by (subst (1 2) show_dec.simps) (auto simp: is_digit_digit)
qed

lemma decimal_value_snoc: "decimal_value (ds @ [c]) = 10 * decimal_value ds + (code_of c - 48)"
  by (simp add: decimal_value_def)

lemma decimal_value_show [simp]: "decimal_value (show_dec n) = n"
proof (induction n rule: show_dec.induct)
  case (1 n)
  show ?case
  proof (cases "n < 10")
    case True
    then show ?thesis by (subst show_dec.simps) (simp add: decimal_value_def code_of_digit)
  next
    case False
    then show ?thesis using "1"
      by (subst show_dec.simps) (simp add: decimal_value_snoc code_of_digit)
  qed
qed

lemma LastIndexByte_notin: "c \<notin> set xs \<Longrightarrow> LastIndexByte xs c = None"
  by (induction xs) auto

lemma LastIndexByte_append:
  "c \<notin> set ys \<Longrightarrow> LastIndexByte (xs @ c # ys) c = Some (length xs)"
  by (induction xs) (auto simp: LastIndexByte_notin)

lemma TrimSuffix_snoc [simp]:
  "TrimSuffix (xs @ [c]) [d] = (if c = d then xs else xs @ [c])"
  by (simp add: TrimSuffix_def HasSuffix_def HasPrefix_def)

lemma trim_line_end:
  assumes "eol \<in> {[], [LF], [CR, LF]}"
  shows "TrimSuffix (TrimSuffix ((xs @ ''}'') @ eol) [LF]) [CR] = xs @ ''}''"
proof -
  have "TrimSuffix (TrimSuffix (ys @ ''}'' @ [CR, LF]) [LF]) [CR] = ys @ ''}''" for ys
  proof -
    have "ys @ ''}'' @ [CR, LF] = ((ys @ ''}'') @ [CR]) @ [LF]" by simp
    then show ?thesis by (simp only: TrimSuffix_snoc simp_thms if_True)
  qed
  moreover have "TrimSuffix (TrimSuffix (ys @ ''}'' @ [LF]) [LF]) [CR] = ys @ ''}''" for ys
    using TrimSuffix_snoc [of "ys @ ''}''" LF LF] by simp
  ultimately show ?thesis using assms by auto
qed

lemma literal_parsed:
  assumes "p \<noteq> []" and "last p \<in> {CHR '' '', CHR ''(''}" and "sync \<in> {[], ''+''}"
    and "eol \<in> {[], [LF], [CR, LF]}"
  shows "imapLiteralAtLineEnd (p @ ''{'' @ show_dec n @ sync @ ''}'' @ eol) =
    (if n < 2 ^ 64 then Inr (of_nat n, True) else Inl ErrIMAPLiteralTooLarge)"
proof -
  let ?xs = "p @ ''{'' @ show_dec n @ sync"
  let ?line = "?xs @ ''}''"
  have line: "TrimSuffix (TrimSuffix (p @ ''{'' @ show_dec n @ sync @ ''}'' @ eol) [LF]) [CR] = ?line"
    using trim_line_end [OF assms(4), of ?xs] by simp
  have digits: "list_all is_digit (show_dec n)" "show_dec n \<noteq> []"
    using show_dec_digits by auto
  have no_brace: "CHR ''{'' \<notin> set (show_dec n @ sync @ ''}'')"
    using digits(1) assms(3) by (auto simp: list_all_iff is_digit_def)
  have idx: "LastIndexByte ?line (CHR ''{'') = Some (length p)"
    using LastIndexByte_append [OF no_brace, of p] by simp
  have before: "?line ! (length p - 1) = last p" "length p \<noteq> 0"
    using assms(1) by (simp_all add: nth_append last_conv_nth)
  have inner: "drop (length p + 1) (take (length ?line - 1) ?line) = show_dec n @ sync"
    by simp
  have cut: "(if show_dec n @ sync \<noteq> [] \<and> last (show_dec n @ sync) = CHR ''+''
      then butlast (show_dec n @ sync) else show_dec n @ sync) = show_dec n"
  proof (cases "sync = []")
    case True
    have "is_digit (last (show_dec n))"
      using digits by (simp add: list_all_iff)
    then have "last (show_dec n) \<noteq> CHR ''+''" by (auto simp: is_digit_def)
    with True show ?thesis by simp
  next
    case False
    with assms(3) show ?thesis by (simp add: butlast_append)
  qed
  have len: "\<not> (length ?line < 3 \<or> last ?line \<noteq> CHR ''}'')"
    using assms(1) digits(2) by (cases p; cases "show_dec n"; simp)
  have preceded: "\<not> (length p = 0 \<or> (?line ! (length p - 1) \<noteq> CHR '' '' \<and> ?line ! (length p - 1) \<noteq> CHR ''(''))"
    using before assms(2) by simp
  show ?thesis
    unfolding imapLiteralAtLineEnd_def line Let_def idx inner cut option.case
    using len preceded digits by (simp only: if_False) (simp add: ParseUint64_def)
qed

section \<open>Admission\<close>

text \<open>
  A \<open>net.Addr\<close> is its network and its text, or \<open>nil\<close>. The guard keeps a table of the admitted
  connections by address pair, here the positions in the list \<open>gs_conns\<close> of all the connections
  it ever admitted, and a counter per IP.
\<close>

type_synonym net_addr = "(string \<times> string) option"

record pre_auth_guard =
  options :: guard_options
  connections :: "(string, nat) fmap"
  guardByIP :: "(string, nat) fmap"

definition newPreAuthGuard :: "guard_options \<Rightarrow> pre_auth_guard" where
  "newPreAuthGuard opts =
     \<lparr>options = normalizeGuardOptions opts, connections = fmempty, guardByIP = fmempty\<rparr>"

definition imapAddressKey :: "net_addr \<Rightarrow> string" where
  "imapAddressKey address =
     (case address of None \<Rightarrow> [] | Some (network, txt) \<Rightarrow> network @ [CHR 0x00] @ txt)"

definition imapConnectionKey :: "net_addr \<Rightarrow> net_addr \<Rightarrow> string" where
  "imapConnectionKey remote loc = imapAddressKey remote @ [CHR 0x00] @ imapAddressKey loc"

text \<open>A slot: the key, the position of the connection that holds it, and its IP.\<close>

type_synonym guard_slot = "string \<times> nat \<times> string"

definition reserve :: "pre_auth_guard \<Rightarrow> guard_slot \<Rightarrow> pre_auth_guard \<times> bool" where
  "reserve g t = (case t of (key, i, ip) \<Rightarrow>
     if int (fcard (fmdom (connections g))) \<ge> go_maxConnectionsGlobal (options g)
        \<or> int (count_of (guardByIP g) ip) \<ge> go_maxConnectionsPerIP (options g)
     then (g, False)
     else if fmlookup (connections g) key \<noteq> None then (g, False)
     else (g\<lparr>connections := fmupd key i (connections g), guardByIP := incr ip (guardByIP g)\<rparr>, True))"

definition guard_release :: "pre_auth_guard \<Rightarrow> guard_slot \<Rightarrow> pre_auth_guard" where
  "guard_release g t = (case t of (key, i, ip) \<Rightarrow>
     if fmlookup (connections g) key \<noteq> Some i then g
     else g\<lparr>connections := fmdrop key (connections g), guardByIP := decr ip (guardByIP g)\<rparr>)"

lemma fcard_fmdom_drop:
  "fmlookup m k = Some v \<Longrightarrow> fcard (fmdom (fmdrop k m)) = fcard (fmdom m) - 1"
  by (simp add: fcard_fminus_fsingleton fmdomI del: fcard_fminus_finsert)

lemma fcard_fmdom_upd: "fmlookup m k = None \<Longrightarrow> fcard (fmdom (fmupd k v m)) = Suc (fcard (fmdom m))"
  by (simp add: fmdom_notI fcard_finsert_disjoint)

interpretation guard_pool: slot_pool reserve guard_release "\<lambda>t. snd (snd t)"
  "\<lambda>g t. fmlookup (connections g) (fst t) = Some (fst (snd t))"
  "\<lambda>g. fcard (fmdom (connections g))" "\<lambda>g. count_of (guardByIP g)"
  "\<lambda>g. Some (nat (go_maxConnectionsGlobal (options g)))"
  "\<lambda>g. Some (nat (go_maxConnectionsPerIP (options g)))"
  by unfold_locales
    (auto simp: reserve_def guard_release_def fun_eq_iff fcard_fmdom_upd fcard_fmdom_drop zless_nat_eq_int_zless
      simp del: fmdom_fmupd fmdom_drop split: if_splits prod.splits)

record guarded =
  g_key :: string
  g_ip :: string
  g_conn :: guard_conn

record guard_sys =
  gs_guard :: pre_auth_guard
  gs_conns :: "guarded list"

definition slot_of :: "guard_sys \<Rightarrow> nat \<Rightarrow> guard_slot" where
  "slot_of s i = (g_key (gs_conns s ! i), i, g_ip (gs_conns s ! i))"

definition set_conn :: "guard_sys \<Rightarrow> nat \<Rightarrow> guard_conn \<Rightarrow> guard_sys" where
  "set_conn s i c = s\<lparr>gs_conns := (gs_conns s)[i := (gs_conns s ! i)\<lparr>g_conn := c\<rparr>]\<rparr>"

text \<open>\<open>guardedIMAPConn.Close\<close>: the compare-and-swap on \<open>closed\<close> releases the slot once.\<close>

definition guard_close :: "guard_sys \<Rightarrow> nat \<Rightarrow> guard_sys" where
  "guard_close s i =
     (if i < length (gs_conns s) \<and> \<not> closed (g_conn (gs_conns s ! i))
      then (set_conn s i ((g_conn (gs_conns s ! i))\<lparr>closed := True\<rparr>))
             \<lparr>gs_guard := guard_release (gs_guard s) (slot_of s i)\<rparr>
      else s)"

text \<open>\<open>admit\<close>; \<open>deadline_ok\<close> tells whether \<open>SetReadDeadline\<close> succeeds on the new connection.\<close>

definition admit :: "netlib \<Rightarrow> guard_sys \<Rightarrow> net_addr \<Rightarrow> net_addr \<Rightarrow> time \<Rightarrow> string \<Rightarrow> bool
    \<Rightarrow> guard_sys \<times> nat option" where
  "admit nl s remote loc now bytes deadline_ok =
     (let ip = RemoteIP nl (map_option snd remote);
          key = imapConnectionKey remote loc;
          i = length (gs_conns s)
      in case reserve (gs_guard s) (key, i, ip) of
           (g, False) \<Rightarrow> (s\<lparr>gs_guard := g\<rparr>, None)
         | (g, True) \<Rightarrow>
             (let conn = new_guard_conn (options g) now bytes;
                  s1 = \<lparr>gs_guard = g, gs_conns = gs_conns s @ [\<lparr>g_key = key, g_ip = ip, g_conn = conn\<rparr>]\<rparr>
              in if deadline_ok then (s1, Some i) else (guard_close s1 i, None)))"

definition guard_authenticate :: "guard_sys \<Rightarrow> net_addr \<Rightarrow> net_addr \<Rightarrow> guard_sys" where
  "guard_authenticate s remote loc =
     (case fmlookup (connections (gs_guard s)) (imapConnectionKey remote loc) of
        None \<Rightarrow> s
      | Some i \<Rightarrow> set_conn s i (markAuthenticated (g_conn (gs_conns s ! i))))"

text \<open>A read on connection \<open>i\<close>: a violation closes it, which releases the slot.\<close>

definition guard_read :: "guard_sys \<Rightarrow> nat \<Rightarrow> nat \<Rightarrow> nat \<Rightarrow> guard_sys \<times> (guard_error + string)" where
  "guard_read s i n chunk =
     (let c = g_conn (gs_conns s ! i); (r, c1) = Read c n chunk
      in if \<not> closed c \<and> closed c1
         then (guard_close (set_conn s i (c1\<lparr>closed := False\<rparr>)) i, r)
         else (set_conn s i c1, r))"

datatype guard_event =
    GAdmit net_addr net_addr time string bool
  | GRead nat nat nat
  | GAuthenticate net_addr net_addr
  | GClose nat

fun guard_step :: "netlib \<Rightarrow> guard_sys \<Rightarrow> guard_event \<Rightarrow> guard_sys" where
  "guard_step nl s (GAdmit remote loc now bytes ok) = fst (admit nl s remote loc now bytes ok)"
| "guard_step nl s (GRead i n chunk) =
     (if i < length (gs_conns s) then fst (guard_read s i n chunk) else s)"
| "guard_step nl s (GAuthenticate remote loc) = guard_authenticate s remote loc"
| "guard_step nl s (GClose i) = guard_close s i"

definition guard_start :: "guard_options \<Rightarrow> guard_sys" where
  "guard_start opts = \<lparr>gs_guard = newPreAuthGuard opts, gs_conns = []\<rparr>"

definition open_guarded :: "guard_sys \<Rightarrow> guarded list" where
  "open_guarded s = filter (\<lambda>x. \<not> closed (g_conn x)) (gs_conns s)"

definition guard_inv :: "guard_options \<Rightarrow> guard_sys \<Rightarrow> bool" where
  "guard_inv opts s \<longleftrightarrow> guard_pool.accounts (gs_guard s) (map g_ip (open_guarded s))
     \<and> options (gs_guard s) = normalizeGuardOptions opts
     \<and> (\<forall>k i. fmlookup (connections (gs_guard s)) k = Some i \<longleftrightarrow>
          i < length (gs_conns s) \<and> g_key (gs_conns s ! i) = k \<and> \<not> closed (g_conn (gs_conns s ! i)))"

lemma open_guarded_close:
  assumes "i < length cs" and "\<not> closed (g_conn (cs ! i))" and "closed c"
  shows "mset (map g_ip (filter (\<lambda>x. \<not> closed (g_conn x)) (cs[i := (cs ! i)\<lparr>g_conn := c\<rparr>])))
    = mset (remove1 (g_ip (cs ! i)) (map g_ip (filter (\<lambda>x. \<not> closed (g_conn x)) cs)))"
proof -
  have up: "cs[i := x] = take i cs @ x # drop (Suc i) cs" for x
    using assms(1) by (rule upd_conv_take_nth_drop)
  have cs: "cs = take i cs @ cs ! i # drop (Suc i) cs"
    using assms(1) by (rule id_take_nth_drop)
  have "mset (map g_ip (filter (\<lambda>x. \<not> closed (g_conn x)) cs)) =
      add_mset (g_ip (cs ! i)) (mset (map g_ip (filter (\<lambda>x. \<not> closed (g_conn x))
        (cs[i := (cs ! i)\<lparr>g_conn := c\<rparr>]))))"
    by (subst (1) cs) (simp add: up assms(2,3))
  then show ?thesis by (simp add: mset_remove1)
qed

lemma open_guarded_same:
  assumes "i < length cs" and "closed c \<longleftrightarrow> closed (g_conn (cs ! i))"
  shows "map g_ip (filter (\<lambda>x. \<not> closed (g_conn x)) (cs[i := (cs ! i)\<lparr>g_conn := c\<rparr>]))
    = map g_ip (filter (\<lambda>x. \<not> closed (g_conn x)) cs)"
proof -
  have up: "cs[i := x] = take i cs @ x # drop (Suc i) cs" for x
    using assms(1) by (rule upd_conv_take_nth_drop)
  have cs: "cs = take i cs @ cs ! i # drop (Suc i) cs"
    using assms(1) by (rule id_take_nth_drop)
  show ?thesis by (subst (3) cs) (simp add: up assms(2))
qed

lemma guard_inv_set_conn [step_inv]:
  assumes "guard_inv opts s" and "i < length (gs_conns s)"
    and "closed c \<longleftrightarrow> closed (g_conn (gs_conns s ! i))"
  shows "guard_inv opts (set_conn s i c)"
  using assms open_guarded_same [OF assms(2,3)]
  by (auto simp: guard_inv_def set_conn_def open_guarded_def nth_list_update split: if_splits)

lemma guard_inv_close [step_inv]:
  assumes "guard_inv opts s"
  shows "guard_inv opts (guard_close s i)"
proof (cases "i < length (gs_conns s) \<and> \<not> closed (g_conn (gs_conns s ! i))")
  case True
  let ?x = "gs_conns s ! i"
  let ?s = "guard_close s i"
  have looked: "fmlookup (connections (gs_guard s)) (g_key ?x) = Some i"
    using assms True by (simp add: guard_inv_def)
  have uniq: "\<And>j. j < length (gs_conns s) \<Longrightarrow> g_key (gs_conns s ! j) = g_key ?x \<Longrightarrow>
      \<not> closed (g_conn (gs_conns s ! j)) \<Longrightarrow> i = j"
    using assms looked unfolding guard_inv_def by (metis option.inject)
  have mem: "g_ip ?x \<in> set (map g_ip (open_guarded s))"
    using True by (auto simp: open_guarded_def)
  have "guard_pool.accounts (guard_release (gs_guard s) (slot_of s i))
      (remove1 (g_ip ?x) (map g_ip (open_guarded s)))"
    using guard_pool.accounts_drop [of "gs_guard s" "map g_ip (open_guarded s)" "slot_of s i"]
      assms mem looked by (simp add: guard_inv_def slot_of_def)
  then have "guard_pool.accounts (guard_release (gs_guard s) (slot_of s i)) (map g_ip (open_guarded ?s))"
    by (rule guard_pool.accounts_mset)
      (use open_guarded_close [of i "gs_conns s" "(g_conn ?x)\<lparr>closed := True\<rparr>"] True
       in \<open>simp add: guard_close_def set_conn_def open_guarded_def\<close>)
  then show ?thesis using assms True looked
    by (auto simp: guard_inv_def guard_close_def set_conn_def slot_of_def guard_release_def
        nth_list_update split: if_splits dest: uniq)
next
  case False
  then show ?thesis using assms by (simp only: guard_close_def if_False)
qed

lemma guard_inv_admit [step_inv]:
  assumes inv: "guard_inv opts s"
  shows "guard_inv opts (fst (admit nl s remote loc now bytes ok))"
proof -
  let ?ip = "RemoteIP nl (map_option snd remote)"
  let ?key = "imapConnectionKey remote loc"
  let ?n = "length (gs_conns s)"
  obtain g b where r: "reserve (gs_guard s) (?key, ?n, ?ip) = (g, b)" by force
  note acc = guard_pool.accounts_take [of "gs_guard s" "map g_ip (open_guarded s)", OF _ r]
  show ?thesis
  proof (cases b)
    case False
    have "gs_guard s = g"
      using guard_pool.take_refused [of "gs_guard s" "(?key, ?n, ?ip)" g] r False by simp
    then have "s\<lparr>gs_guard := g\<rparr> = s" by (cases s) simp
    then show ?thesis using r False inv by (simp add: admit_def Let_def)
  next
    case True
    let ?c = "new_guard_conn (options g) now bytes"
    let ?s1 = "\<lparr>gs_guard = g, gs_conns = gs_conns s @ [\<lparr>g_key = ?key, g_ip = ?ip, g_conn = ?c\<rparr>]\<rparr>"
    have fresh: "fmlookup (connections (gs_guard s)) ?key = None"
      and g: "g = (gs_guard s)\<lparr>connections := fmupd ?key ?n (connections (gs_guard s)),
        guardByIP := incr ?ip (guardByIP (gs_guard s))\<rparr>"
      using r True by (auto simp: reserve_def split: if_splits)
    have none_open: "\<And>i. i < length (gs_conns s) \<Longrightarrow> g_key (gs_conns s ! i) = ?key \<Longrightarrow>
        closed (g_conn (gs_conns s ! i))"
      using inv fresh unfolding guard_inv_def by (metis option.distinct(1))
    have "guard_pool.accounts g (?ip # map g_ip (open_guarded s))"
      using acc inv True by (simp add: guard_inv_def)
    then have "guard_pool.accounts g (map g_ip (open_guarded s) @ [?ip])"
      by (rule guard_pool.accounts_mset) simp
    moreover have "\<not> closed ?c" by (simp add: new_guard_conn_def)
    ultimately have "guard_inv opts ?s1"
      using inv none_open unfolding g
      by (auto simp: guard_inv_def open_guarded_def nth_append less_Suc_eq split: if_splits)
    then show ?thesis using r True guard_inv_close by (simp add: admit_def Let_def)
  qed
qed

lemma Read_keeps_open: "closed c \<Longrightarrow> closed (snd (Read c n chunk))"
  by (auto simp: Read_def Let_def readValidatedLine_def validateLine_def addPreAuthCommandBytes_def
      split: sum.splits prod.splits guard_error.splits bool.splits)

lemma guard_inv_read [step_inv]:
  assumes inv: "guard_inv opts s" and i: "i < length (gs_conns s)"
  shows "guard_inv opts (fst (guard_read s i n chunk))"
proof -
  let ?c = "g_conn (gs_conns s ! i)"
  obtain r c1 where read: "Read ?c n chunk = (r, c1)" by force
  have "closed ?c \<Longrightarrow> closed c1" using Read_keeps_open [of ?c n chunk] read by simp
  then have "guard_inv opts (set_conn s i c1)" if "\<not> (\<not> closed ?c \<and> closed c1)"
    using that by (intro guard_inv_set_conn inv i) auto
  moreover have "guard_inv opts (guard_close (set_conn s i (c1\<lparr>closed := False\<rparr>)) i)" if "\<not> closed ?c"
    using that by (intro guard_inv_close guard_inv_set_conn inv i) simp
  ultimately show ?thesis using read by (simp add: guard_read_def Let_def)
qed

lemma guard_inv_authenticate [step_inv]:
  assumes inv: "guard_inv opts s"
  shows "guard_inv opts (guard_authenticate s remote loc)"
proof (cases "fmlookup (connections (gs_guard s)) (imapConnectionKey remote loc)")
  case (Some i)
  then have "i < length (gs_conns s)" using inv by (simp add: guard_inv_def)
  then show ?thesis using Some inv
    by (auto simp: guard_authenticate_def markAuthenticated_def intro!: guard_inv_set_conn)
qed (use inv in \<open>simp add: guard_authenticate_def\<close>)

interpretation guard_machine: machine "guard_step nl" "guard_inv opts"
  for nl :: netlib and opts :: guard_options
proof (unfold_locales)
  fix s c assume "guard_inv opts s"
  then show "guard_inv opts (guard_step nl s c)"
    by (cases c) (auto intro: step_inv)
qed

lemma guard_inv_start: "guard_inv opts (guard_start opts)"
  by (auto simp: guard_inv_def guard_start_def newPreAuthGuard_def open_guarded_def guard_pool.accounts_def)

lemmas guard_inv_run = guard_machine.inv_run [OF guard_inv_start]

lemma normalized_caps: "0 < go_maxConnectionsPerIP (normalizeGuardOptions opts)"
  "0 < go_maxConnectionsGlobal (normalizeGuardOptions opts)"
  "0 < go_preAuthTimeout (normalizeGuardOptions opts)"
  by (simp_all add: normalizeGuardOptions_def Let_def)

section \<open>Properties\<close>

text \<open>
  C7. The guard is transparent. Whatever buffer sizes and chunks the reads use, the bytes the IMAP
  parser receives are a prefix of the bytes the client sent, and as long as no read failed,
  what is missing is exactly what the guard still buffers or has not read: nothing is lost,
  repeated, reordered or inserted by the validation of lines and literals.
\<close>

theorem guard_stream_transparent:
  assumes "read_all (new_guard_conn opts now bytes) rs = (got, c', e)"
  shows "(\<exists>rest. bytes = got @ rest) \<and> (e = None \<longrightarrow> bytes = got @ pending c' @ input c')"
  using read_all_stream [OF assms] by (auto simp: new_guard_conn_def)

theorem guard_stream_transparent_witness:
  "\<exists>got c'. read_all (new_guard_conn (defaultGuardOptions 0) 5 ''a {2+}
xyz'') [(3, 1), (10, 1), (9, 1)] = (got, c', None) \<and> ''a {2+}
xyz'' = got @ pending c' @ input c'"
proof -
  obtain got c' where r: "read_all (new_guard_conn (defaultGuardOptions 0) 5 ''a {2+}
xyz'') [(3, 1), (10, 1), (9, 1)] = (got, c', None)"
    by (simp add: new_guard_conn_def defaultGuardOptions_def Read_def readValidatedLine_def
        validateLine_def imapLiteralAtLineEnd_def addPreAuthCommandBytes_def ParseUint64_def
        decimal_value_def is_digit_def go_simps Let_def)
  show ?thesis using guard_stream_transparent [OF r] r by blast
qed



text \<open>
  Literal announcements. The guard reads back the size of every literal that is announced in the
  form \<open>{n}\<close> or \<open>{n+}\<close>, after a space or an opening parenthesis and before any of the line endings; a
  size that does not fit in 64 bits is refused, it never wraps to a small one.
\<close>

theorem literal_size_roundtrip:
  assumes "p \<noteq> []" and "last p \<in> {CHR '' '', CHR ''(''}" and "sync \<in> {[], ''+''}"
    and "eol \<in> {[], [LF], [CR, LF]}"
  shows "imapLiteralAtLineEnd (p @ ''{'' @ show_dec n @ sync @ ''}'' @ eol) =
    (if n < 2 ^ 64 then Inr (of_nat n, True) else Inl ErrIMAPLiteralTooLarge)"
  using assms by (rule literal_parsed)

theorem literal_size_roundtrip_witness:
  "imapLiteralAtLineEnd (''a APPEND x '' @ ''{'' @ show_dec 310 @ ''+'' @ ''}'' @ [CR, LF]) = Inr (310, True)"
  using literal_size_roundtrip [of "''a APPEND x ''" "''+''" "[CR, LF]" 310] by simp

text \<open>
  C10. Admission. In every history of admissions, reads (a violation closes its connection),
  logins and closes, the connections that are open are within the global cap and the per-IP
  cap, no two of them share a key, and the two counters of the guard agree with them: no
  slot leaks and none is freed twice.
\<close>

theorem guard_admission_exact:
  assumes "s = foldl (guard_step nl) (guard_start opts) es"
  shows "int (length (open_guarded s)) \<le> go_maxConnectionsGlobal (normalizeGuardOptions opts)
    \<and> int (count_list (map g_ip (open_guarded s)) ip) \<le> go_maxConnectionsPerIP (normalizeGuardOptions opts)
    \<and> fcard (fmdom (connections (gs_guard s))) = length (open_guarded s)
    \<and> count_of (guardByIP (gs_guard s)) ip = count_list (map g_ip (open_guarded s)) ip
    \<and> (fmlookup (connections (gs_guard s)) k = Some i \<longleftrightarrow>
      i < length (gs_conns s) \<and> g_key (gs_conns s ! i) = k \<and> \<not> closed (g_conn (gs_conns s ! i)))"
proof (intro conjI)
  have inv: "guard_inv opts s" unfolding assms by (rule guard_inv_run)
  then have acc: "guard_pool.accounts (gs_guard s) (map g_ip (open_guarded s))"
    and o: "options (gs_guard s) = normalizeGuardOptions opts" by (simp_all add: guard_inv_def)
  show "int (length (open_guarded s)) \<le> go_maxConnectionsGlobal (normalizeGuardOptions opts)"
    "int (count_list (map g_ip (open_guarded s)) ip) \<le> go_maxConnectionsPerIP (normalizeGuardOptions opts)"
    using acc o normalized_caps [of opts] unfolding guard_pool.accounts_def
    by (simp_all add: le_nat_iff)
  show "fcard (fmdom (connections (gs_guard s))) = length (open_guarded s)"
    "count_of (guardByIP (gs_guard s)) ip = count_list (map g_ip (open_guarded s)) ip"
    using acc by (simp_all add: guard_pool.accounts_def)
  show "fmlookup (connections (gs_guard s)) k = Some i \<longleftrightarrow>
      i < length (gs_conns s) \<and> g_key (gs_conns s ! i) = k \<and> \<not> closed (g_conn (gs_conns s ! i))"
    using inv by (simp add: guard_inv_def)
qed

theorem guard_admission_exact_witness:
  "int (length (open_guarded (foldl (guard_step plain_net) (guard_start (defaultGuardOptions 0))
     [GAdmit (Some (''tcp'', ''a'')) None 5 [] True, GClose 0])))
   \<le> go_maxConnectionsGlobal (normalizeGuardOptions (defaultGuardOptions 0))"
  by (rule guard_admission_exact [OF refl, THEN conjunct1])

text \<open>
  The login deadline cannot be escaped. Until the client is authenticated, whatever deadline the
  server asks for, none included, the read deadline set on the socket is not after the
  pre-authentication deadline and is not the zero time that would mean no deadline, and a
  deadline that is earlier is kept; after authentication requests pass unchanged.
\<close>

theorem preauth_deadline_capped:
  assumes "c = new_guard_conn (normalizeGuardOptions opts) now bytes" and "0 \<le> now"
  shows "(zero_time < cappedReadDeadline c requested \<or> requested < zero_time)
    \<and> cappedReadDeadline c requested \<le> now + go_preAuthTimeout (normalizeGuardOptions opts)
    \<and> (requested \<noteq> zero_time \<longrightarrow> cappedReadDeadline c requested \<le> requested)
    \<and> cappedReadDeadline (markAuthenticated c) requested = requested"
  using assms normalized_caps(3) [of opts]
  by (auto simp: cappedReadDeadline_def new_guard_conn_def markAuthenticated_def)

theorem preauth_deadline_capped_witness:
  "cappedReadDeadline (new_guard_conn (normalizeGuardOptions (defaultGuardOptions 0)) 7 []) 0
     \<le> 7 + go_preAuthTimeout (normalizeGuardOptions (defaultGuardOptions 0))"
  using preauth_deadline_capped [OF refl, of 7 "defaultGuardOptions 0" "[]" 0] by simp

end
