(* ===== verification/Schema.thy ===== *)
theory Schema
  imports Prelude
begin

text \<open>
  \<open>internal/store/models.go\<close>, the tables of \<open>internal/store/migrations.go\<close> and the helpers of
  \<open>internal/store/store.go\<close>. A table is the list of its rows in insertion order, a row a record;
  JSON columns hold the list they encode. An \<open>INSERT\<close> is a function that refuses a row which
  violates the table's keys, checks or references; refusals are the error \<open>ErrSQL\<close>. A store
  operation maps a database to an error, where the transaction is rolled back and the database
  stays as it was, or to the new database and a result.
\<close>

section \<open>Errors\<close>

datatype store_error =
    ErrNotFound
  | ErrConflict
  | ErrInvalidCredentials
  | ErrQuotaExceeded
  | ErrArchiveFull
  | ErrDomainUnverified
  | ErrAuditFailed
  | ErrResourceLimit
  | ErrForbidden
  | ErrSQL
  | ErrText string

text \<open>A refused constraint is a conflict for \<open>mapSQLError\<close>; no row is \<open>ErrNotFound\<close> (\<open>of_option\<close>).\<close>

definition mapSQLError :: "store_error + 'a \<Rightarrow> store_error + 'a" where
  "mapSQLError r = (case r of Inl ErrSQL \<Rightarrow> Inl ErrConflict | _ \<Rightarrow> r)"

lemma mapSQLError_Inr [simp]: "mapSQLError r = Inr x \<longleftrightarrow> r = Inr x"
  by (auto simp: mapSQLError_def split: sum.splits store_error.splits)

text \<open>Go's \<open>int64\<close> arithmetic wraps.\<close>

definition wrap64 :: "int \<Rightarrow> int" where
  "wrap64 x = (x + 2 ^ 63) mod 2 ^ 64 - 2 ^ 63"

definition maxInt64 :: int where
  "maxInt64 = 2 ^ 63 - 1"

lemma wrap64_id: "- (2 ^ 63) \<le> x \<Longrightarrow> x < 2 ^ 63 \<Longrightarrow> wrap64 x = x"
  by (simp add: wrap64_def)

lemma wrap64_range: "- (2 ^ 63) \<le> wrap64 x" "wrap64 x \<le> maxInt64"
proof -
  have "0 \<le> (x + 2 ^ 63) mod 2 ^ 64" "(x + 2 ^ 63) mod 2 ^ 64 < (2 ^ 64 :: int)" by simp_all
  then show "- (2 ^ 63) \<le> wrap64 x" "wrap64 x \<le> maxInt64"
    unfolding wrap64_def maxInt64_def by simp_all
qed

section \<open>Rows\<close>

abbreviation RoleAdmin :: string where "RoleAdmin \<equiv> ''admin''"
abbreviation RoleUser :: string where "RoleUser \<equiv> ''user''"
abbreviation StatusActive :: string where "StatusActive \<equiv> ''active''"
abbreviation StatusSuspended :: string where "StatusSuspended \<equiv> ''suspended''"

definition SystemMailboxes :: "string list" where
  "SystemMailboxes = [''INBOX'', ''Drafts'', ''Sent'', ''Archive'', ''Junk'', ''Trash'']"

record domain =
  d_id :: string
  d_name :: string
  d_status :: string
  d_verification :: string
  d_selector :: string
  d_public_key :: string
  d_private_key :: string
  d_created :: time
  d_verified :: "time option"

record user =
  u_id :: string
  u_domain_id :: string
  u_local_part :: string
  u_email :: string
  u_display_name :: string
  u_password_hash :: string
  u_role :: string
  u_status :: string
  u_auth_version :: int
  u_protocol_auth_version :: int
  u_quota_bytes :: int
  u_created :: time
  u_updated :: time
  u_last_login :: "time option"

record alias_row =
  a_id :: string
  a_address :: string
  a_target_user_id :: string
  a_enabled :: bool
  a_created :: time

record session =
  s_id :: string
  s_user_id :: string
  s_token_hash :: string
  s_auth_version :: int
  s_created :: time
  s_expires :: time
  s_last_seen :: time
  s_ip :: string
  s_user_agent :: string

record app_password =
  p_id :: string
  p_user_id :: string
  p_name :: string
  p_secret_hash :: string
  p_created :: time
  p_last_used :: "time option"
  p_revoked :: "time option"

record message =
  m_id :: string
  m_rfc_id :: string
  m_thread_key :: string
  m_envelope_from :: string
  m_envelope_to :: "string list"
  m_from :: string
  m_to :: "string list"
  m_cc :: "string list"
  m_bcc :: "string list"
  m_reply_to :: string
  m_subject :: string
  m_text :: string
  m_html :: string
  m_snippet :: string
  m_raw :: string
  m_size :: int
  m_attachment_count :: int
  m_direction :: string
  m_status :: string
  m_sent :: "time option"
  m_received :: time
  m_created :: time

text \<open>A message as one user's mailbox shows it: the \<open>User...\<close> fields of \<open>Message\<close>.\<close>

record user_message = message +
  v_mailbox :: string
  v_flags :: "string list"
  v_deleted :: "time option"
  v_expunged :: "time option"
  v_entry_id :: string
  v_uid :: int

record attachment =
  at_id :: string
  at_message_id :: string
  at_filename :: string
  at_content_type :: string
  at_content_id :: string
  at_disposition :: string
  at_size :: int
  at_sha256 :: string
  at_content :: string

record mailbox =
  mb_id :: string
  mb_user_id :: string
  mb_name :: string
  mb_uid_validity :: int
  mb_uid_next :: int
  mb_subscribed :: bool
  mb_created :: time

record mailbox_entry =
  e_id :: string
  e_mailbox_id :: string
  e_user_id :: string
  e_message_id :: string
  e_uid :: int
  e_flags :: "string list"
  e_internal_date :: time
  e_created :: time
  e_deleted :: "time option"
  e_expunged :: "time option"

datatype queue_status = Queued | Delivering | Delivered | Failed

record queue_item =
  q_id :: string
  q_message_id :: string
  q_recipient :: string
  q_status :: queue_status
  q_attempts :: int
  q_next_attempt :: time
  q_last_error :: string
  q_delivered :: "time option"
  q_created :: time
  q_updated :: time

record audit_event =
  ev_id :: string
  ev_actor_id :: string
  ev_action :: string
  ev_target_type :: string
  ev_target_id :: string
  ev_reason :: string
  ev_metadata :: string
  ev_ip :: string
  ev_created :: time

record db =
  domains :: "domain list"
  users :: "user list"
  aliases :: "alias_row list"
  sessions :: "session list"
  app_passwords :: "app_password list"
  messages :: "message list"
  attachments :: "attachment list"
  mailboxes :: "mailbox list"
  entries :: "mailbox_entry list"
  queue :: "queue_item list"
  audit_log :: "audit_event list"

definition empty_db :: db where
  "empty_db = \<lparr>domains = [], users = [], aliases = [], sessions = [], app_passwords = [],
     messages = [], attachments = [], mailboxes = [], entries = [], queue = [], audit_log = []\<rparr>"

text \<open>
  What the surroundings give to one call: the instants that successive readings of the clock
  return, and the IDs that successive calls of \<open>security.NewID\<close> return for each prefix.
\<close>

record env =
  clock :: "nat \<Rightarrow> time"
  new_id :: "string \<Rightarrow> nat \<Rightarrow> string"

section \<open>Inserting rows\<close>

definition insert_domain :: "db \<Rightarrow> domain \<Rightarrow> store_error + db" where
  "insert_domain db r =
     guard_err (list_ex (\<lambda>x. d_id x = d_id r \<or> EqualFold (d_name x) (d_name r)) (domains db)) ErrSQL
       (Inr (db\<lparr>domains := domains db @ [r]\<rparr>))"

definition insert_user :: "db \<Rightarrow> user \<Rightarrow> store_error + db" where
  "insert_user db r =
     guard_err (list_ex (\<lambda>x. u_id x = u_id r \<or> EqualFold (u_email x) (u_email r)
         \<or> (u_domain_id x = u_domain_id r \<and> EqualFold (u_local_part x) (u_local_part r))) (users db)
       \<or> \<not> list_ex (\<lambda>d. d_id d = u_domain_id r) (domains db)
       \<or> u_role r \<notin> {RoleAdmin, RoleUser} \<or> u_status r \<notin> {StatusActive, StatusSuspended}
       \<or> u_quota_bytes r < 0 \<or> u_auth_version r < 1 \<or> u_protocol_auth_version r < 1) ErrSQL
       (Inr (db\<lparr>users := users db @ [r]\<rparr>))"

definition user_exists :: "db \<Rightarrow> string \<Rightarrow> bool" where
  "user_exists db i = list_ex (\<lambda>u. u_id u = i) (users db)"

definition message_exists :: "db \<Rightarrow> string \<Rightarrow> bool" where
  "message_exists db i = list_ex (\<lambda>m. m_id m = i) (messages db)"

definition insert_alias :: "db \<Rightarrow> alias_row \<Rightarrow> store_error + db" where
  "insert_alias db r =
     guard_err (list_ex (\<lambda>x. a_id x = a_id r \<or> EqualFold (a_address x) (a_address r)) (aliases db)
       \<or> \<not> user_exists db (a_target_user_id r)) ErrSQL
       (Inr (db\<lparr>aliases := aliases db @ [r]\<rparr>))"

definition insert_session :: "db \<Rightarrow> session \<Rightarrow> store_error + db" where
  "insert_session db r =
     guard_err (list_ex (\<lambda>x. s_id x = s_id r \<or> s_token_hash x = s_token_hash r) (sessions db)
       \<or> \<not> user_exists db (s_user_id r) \<or> s_auth_version r < 1) ErrSQL
       (Inr (db\<lparr>sessions := sessions db @ [r]\<rparr>))"

definition insert_app_password :: "db \<Rightarrow> app_password \<Rightarrow> store_error + db" where
  "insert_app_password db r =
     guard_err (list_ex (\<lambda>x. p_id x = p_id r) (app_passwords db) \<or> \<not> user_exists db (p_user_id r)) ErrSQL
       (Inr (db\<lparr>app_passwords := app_passwords db @ [r]\<rparr>))"

definition insert_message :: "db \<Rightarrow> message \<Rightarrow> store_error + db" where
  "insert_message db r =
     guard_err (message_exists db (m_id r) \<or> m_size r < 0
       \<or> m_direction r \<notin> {''inbound'', ''outbound'', ''draft'', ''append''}) ErrSQL
       (Inr (db\<lparr>messages := messages db @ [r]\<rparr>))"

definition insert_attachment :: "db \<Rightarrow> attachment \<Rightarrow> store_error + db" where
  "insert_attachment db r =
     guard_err (list_ex (\<lambda>x. at_id x = at_id r) (attachments db)
       \<or> \<not> message_exists db (at_message_id r)) ErrSQL
       (Inr (db\<lparr>attachments := attachments db @ [r]\<rparr>))"

definition insert_mailbox :: "db \<Rightarrow> mailbox \<Rightarrow> store_error + db" where
  "insert_mailbox db r =
     guard_err (list_ex (\<lambda>x. mb_id x = mb_id r
         \<or> (mb_user_id x = mb_user_id r \<and> EqualFold (mb_name x) (mb_name r))) (mailboxes db)
       \<or> \<not> user_exists db (mb_user_id r)) ErrSQL
       (Inr (db\<lparr>mailboxes := mailboxes db @ [r]\<rparr>))"

definition insert_entry :: "db \<Rightarrow> mailbox_entry \<Rightarrow> store_error + db" where
  "insert_entry db r =
     guard_err (list_ex (\<lambda>x. e_id x = e_id r
         \<or> (e_mailbox_id x = e_mailbox_id r \<and> e_uid x = e_uid r)) (entries db)
       \<or> \<not> list_ex (\<lambda>b. mb_id b = e_mailbox_id r) (mailboxes db)
       \<or> \<not> user_exists db (e_user_id r) \<or> \<not> message_exists db (e_message_id r)) ErrSQL
       (Inr (db\<lparr>entries := entries db @ [r]\<rparr>))"

definition insert_queue :: "db \<Rightarrow> queue_item \<Rightarrow> store_error + db" where
  "insert_queue db r =
     guard_err (list_ex (\<lambda>x. q_id x = q_id r
         \<or> (q_message_id x = q_message_id r \<and> q_recipient x = q_recipient r)) (queue db)
       \<or> \<not> message_exists db (q_message_id r)) ErrSQL
       (Inr (db\<lparr>queue := queue db @ [r]\<rparr>))"

definition insert_audit_row :: "db \<Rightarrow> audit_event \<Rightarrow> store_error + db" where
  "insert_audit_row db r =
     guard_err (list_ex (\<lambda>x. ev_id x = ev_id r) (audit_log db)
       \<or> (ev_actor_id r \<noteq> [] \<and> \<not> user_exists db (ev_actor_id r))) ErrSQL
       (Inr (db\<lparr>audit_log := audit_log db @ [r]\<rparr>))"

text \<open>
  \<open>DELETE FROM messages\<close>: the trigger \<open>messages_retained\<close> aborts when a row is not a draft, the
  references from entries and the queue are checked at the end of the statement, and attachments
  go with their message.
\<close>

definition delete_messages :: "db \<Rightarrow> (message \<Rightarrow> bool) \<Rightarrow> store_error + db" where
  "delete_messages db P =
     (let gone = filter P (messages db)
      in guard_err (list_ex (\<lambda>m. m_direction m \<noteq> ''draft'') gone) ErrSQL
        (guard_err (list_ex (\<lambda>m. list_ex (\<lambda>e. e_message_id e = m_id m) (entries db)
             \<or> list_ex (\<lambda>q. q_message_id q = m_id m) (queue db)) gone) ErrSQL
          (Inr (db\<lparr>messages := filter (\<lambda>m. \<not> P m) (messages db),
                   attachments := filter (\<lambda>a. \<not> list_ex (\<lambda>m. m_id m = at_message_id a) gone)
                     (attachments db)\<rparr>))))"

text \<open>\<open>DELETE FROM mailboxes\<close> takes the entries of the mailbox with it.\<close>

definition delete_mailbox :: "db \<Rightarrow> string \<Rightarrow> string \<Rightarrow> db" where
  "delete_mailbox db mailbox_id user_id =
     (let gone = filter (\<lambda>b. mb_id b = mailbox_id \<and> mb_user_id b = user_id) (mailboxes db)
      in db\<lparr>mailboxes := filter (\<lambda>b. \<not> (mb_id b = mailbox_id \<and> mb_user_id b = user_id)) (mailboxes db),
            entries := filter (\<lambda>e. \<not> list_ex (\<lambda>b. mb_id b = e_mailbox_id e) gone) (entries db)\<rparr>)"

section \<open>Reading rows\<close>

definition message_by_id :: "db \<Rightarrow> string \<Rightarrow> message option" where
  "message_by_id db i = find (\<lambda>m. m_id m = i) (messages db)"

definition user_by_id :: "db \<Rightarrow> string \<Rightarrow> user option" where
  "user_by_id db i = find (\<lambda>u. u_id u = i) (users db)"

text \<open>\<open>ORDER BY key DESC LIMIT 1\<close>; of rows with equal keys the first.\<close>

fun latest :: "('a \<Rightarrow> time) \<Rightarrow> 'a list \<Rightarrow> 'a option" where
  "latest key [] = None"
| "latest key (x # xs) =
     (case latest key xs of
        None \<Rightarrow> Some x
      | Some y \<Rightarrow> if key x < key y then Some y else Some x)"

text \<open>The sizes of the messages a user can see, one per visible mailbox entry.\<close>

definition entry_size :: "db \<Rightarrow> mailbox_entry \<Rightarrow> int" where
  "entry_size db e = (case message_by_id db (e_message_id e) of None \<Rightarrow> 0 | Some m \<Rightarrow> m_size m)"

definition used_bytes :: "db \<Rightarrow> string \<Rightarrow> int" where
  "used_bytes db user_id =
     sum_list (map (entry_size db)
       (filter (\<lambda>e. e_user_id e = user_id \<and> e_expunged e = None) (entries db)))"

definition normalizeEmail :: "string \<Rightarrow> string" where
  "normalizeEmail value = ToLower (TrimSpace value)"

lemma normalizeEmail_idem [simp]: "normalizeEmail (normalizeEmail s) = normalizeEmail s"
  by (simp add: normalizeEmail_def TrimSpace_ToLower)

lemma latest_mem: "latest key xs = Some x \<Longrightarrow> x \<in> set xs"
  by (induction xs arbitrary: x) (auto split: option.splits if_splits)

lemma latest_None [simp]: "latest key xs = None \<longleftrightarrow> xs = []"
  by (cases xs) (auto split: option.splits)

lemma latest_max: "latest key xs = Some x \<Longrightarrow> y \<in> set xs \<Longrightarrow> key y \<le> key x"
  by (induction xs arbitrary: x y) (fastforce split: option.splits if_splits)+

section \<open>The version check\<close>

text \<open>The version is its three numbers when \<open>Sscanf\<close> reads them.\<close>

datatype sqlite_version = Version int int int

fun version_le :: "sqlite_version \<Rightarrow> sqlite_version \<Rightarrow> bool" where
  "version_le (Version a b c) (Version a' b' c') \<longleftrightarrow>
     a < a' \<or> (a = a' \<and> (b < b' \<or> (b = b' \<and> c \<le> c')))"

instantiation sqlite_version :: linorder
begin

definition "v \<le> w \<longleftrightarrow> version_le v w"

definition "v < w \<longleftrightarrow> version_le v w \<and> v \<noteq> (w :: sqlite_version)"

instance
proof
  fix u v w :: sqlite_version
  show "v < w \<longleftrightarrow> v \<le> w \<and> \<not> w \<le> v"
    by (cases v; cases w) (auto simp: less_eq_sqlite_version_def less_sqlite_version_def)
  show "v \<le> v" by (cases v) (simp add: less_eq_sqlite_version_def)
  show "u \<le> v \<Longrightarrow> v \<le> w \<Longrightarrow> u \<le> w"
    by (cases u; cases v; cases w) (auto simp: less_eq_sqlite_version_def)
  show "v \<le> w \<Longrightarrow> w \<le> v \<Longrightarrow> v = w"
    by (cases v; cases w) (auto simp: less_eq_sqlite_version_def)
  show "v \<le> w \<or> w \<le> v"
    by (cases v; cases w) (auto simp: less_eq_sqlite_version_def)
qed

end

definition sqliteVersionAtLeast :: "sqlite_version option \<Rightarrow> int \<Rightarrow> int \<Rightarrow> int \<Rightarrow> bool" where
  "sqliteVersionAtLeast value wantMajor wantMinor wantPatch =
     (case value of
        None \<Rightarrow> False
      | Some (Version major minor patch) \<Rightarrow>
          if major \<noteq> wantMajor then major > wantMajor
          else if minor \<noteq> wantMinor then minor > wantMinor
          else patch \<ge> wantPatch)"

lemma sqliteVersionAtLeast_order:
  "sqliteVersionAtLeast (Some v) a b c \<longleftrightarrow> Version a b c \<le> v"
  by (cases v) (auto simp: sqliteVersionAtLeast_def less_eq_sqlite_version_def)

end
