(* ===== verification/AuditLog.thy ===== *)
theory AuditLog
  imports Schema "HOL-Library.Char_ord" "HOL-Library.List_Lexorder" "HOL-Library.Product_Lexorder" "HOL-Library.Multiset"
begin

text \<open>
  \<open>internal/store/audit.go\<close>: writing the audit trail inside a transaction, paging through it,
  and the counters of the administrator's dashboard. An insert that the database refuses is
  \<open>ErrAuditFailed\<close> and fails the transaction of the operation that is audited.
\<close>

section \<open>Writing\<close>

text \<open>\<open>k\<close> is the number of clock readings the operation made before this one.\<close>

definition audit_row :: "env \<Rightarrow> nat \<Rightarrow> audit_event \<Rightarrow> audit_event" where
  "audit_row env k event =
     (let e1 = (if ev_id event = [] then event\<lparr>ev_id := new_id env ''aud'' 0\<rparr> else event);
          e2 = (if ev_created e1 = zero_time then e1\<lparr>ev_created := clock env k\<rparr> else e1)
      in (if ev_metadata e2 = [] then e2\<lparr>ev_metadata := ''{}''\<rparr> else e2))"

definition insertAudit :: "env \<Rightarrow> nat \<Rightarrow> db \<Rightarrow> audit_event \<Rightarrow> store_error + db" where
  "insertAudit env k db event =
     (case insert_audit_row db (audit_row env k event) of
        Inl _ \<Rightarrow> Inl ErrAuditFailed
      | Inr db' \<Rightarrow> Inr db')"

text \<open>
  The block that ends the audited operations: without an event nothing is written, otherwise the
  target defaults to the object of the operation.
\<close>

definition audit_if :: "env \<Rightarrow> nat \<Rightarrow> db \<Rightarrow> string \<Rightarrow> string \<Rightarrow> audit_event option \<Rightarrow> store_error + db" where
  "audit_if env k db target_type target_id event =
     (case event of
        None \<Rightarrow> Inr db
      | Some ev \<Rightarrow>
          (let e1 = (if ev_target_type ev = [] then ev\<lparr>ev_target_type := target_type\<rparr> else ev);
               e2 = (if ev_target_id e1 = [] then e1\<lparr>ev_target_id := target_id\<rparr> else e1)
           in insertAudit env k db e2))"

lemma audit_row_fields [simp]:
  "ev_action (audit_row env k event) = ev_action event"
  "ev_actor_id (audit_row env k event) = ev_actor_id event"
  "ev_target_type (audit_row env k event) = ev_target_type event"
  "ev_target_id (audit_row env k event) = ev_target_id event"
  "ev_reason (audit_row env k event) = ev_reason event"
  by (simp_all add: audit_row_def Let_def)

text \<open>What every store operation leaves alone, and what the audit row adds.\<close>

lemma insertAudit_Inr:
  assumes "insertAudit env k db event = Inr db'"
  shows "db' = db\<lparr>audit_log := audit_log db @ [audit_row env k event]\<rparr>"
    and "ev_actor_id event \<noteq> [] \<Longrightarrow> user_exists db (ev_actor_id event)"
  using assms
  by (simp_all add: insertAudit_def insert_audit_row_def guard_err_def split: if_splits)

lemma audit_if_Inr:
  assumes "audit_if env k db tt ti event = Inr db'"
  shows "\<exists>rows. db' = db\<lparr>audit_log := audit_log db @ rows\<rparr> \<and> length rows = (if event = None then 0 else 1)
    \<and> (\<forall>ev. event = Some ev \<longrightarrow> map ev_action rows = [ev_action ev]
        \<and> map ev_actor_id rows = [ev_actor_id ev])"
proof (cases event)
  case None
  then show ?thesis using assms by (intro exI [of _ "[]"]) (simp add: audit_if_def)
next
  case (Some ev)
  define e1 where "e1 = (if ev_target_type ev = [] then ev\<lparr>ev_target_type := tt\<rparr> else ev)"
  define e2 where "e2 = (if ev_target_id e1 = [] then e1\<lparr>ev_target_id := ti\<rparr> else e1)"
  have "insertAudit env k db e2 = Inr db'"
    using assms Some unfolding e2_def e1_def audit_if_def Let_def by simp
  moreover have "ev_action e2 = ev_action ev" "ev_actor_id e2 = ev_actor_id ev"
    by (simp_all add: e1_def e2_def)
  ultimately show ?thesis using Some insertAudit_Inr(1) [of env k db e2 db']
    by (intro exI [of _ "[audit_row env k e2]"]) simp
qed

text \<open>\<open>Audit\<close>: an event on its own.\<close>

definition Audit_event :: "env \<Rightarrow> db \<Rightarrow> audit_event \<Rightarrow> store_error + db" where
  "Audit_event env db event = insertAudit env 0 db event"

section \<open>Reading\<close>

definition actor_email :: "db \<Rightarrow> audit_event \<Rightarrow> string" where
  "actor_email db ev = (case user_by_id db (ev_actor_id ev) of None \<Rightarrow> [] | Some u \<Rightarrow> u_email u)"

text \<open>Newest first; each event with the address of its actor.\<close>

definition ListAuditPage :: "db \<Rightarrow> int \<Rightarrow> int \<Rightarrow> string \<Rightarrow> (audit_event \<times> string) list" where
  "ListAuditPage db limit offset action =
     (let limit = (if limit < 1 \<or> limit > 500 then 100 else limit);
          offset = (if offset < 0 then 0 else offset);
          rows = filter (\<lambda>a. action = [] \<or> ev_action a = action) (audit_log db);
          ordered = rev (sort_key (\<lambda>a. (ev_created a, ev_id a)) rows)
      in map (\<lambda>a. (a, actor_email db a)) (take (nat limit) (drop (nat offset) ordered)))"

definition ListAudit :: "db \<Rightarrow> int \<Rightarrow> (audit_event \<times> string) list" where
  "ListAudit db limit = ListAuditPage db limit 0 []"

lemma ListAuditPage_limit: "length (ListAuditPage db limit offset action) \<le> 500"
  by (auto simp: ListAuditPage_def Let_def min_le_iff_disj)

lemma ListAuditPage_sound:
  assumes "(a, who) \<in> set (ListAuditPage db limit offset action)"
  shows "a \<in> set (audit_log db) \<and> (action \<noteq> [] \<longrightarrow> ev_action a = action)"
  using assms by (auto simp: ListAuditPage_def Let_def dest!: in_set_takeD in_set_dropD)

section \<open>Properties\<close>

lemma take_drop_pages:
  "0 < n \<Longrightarrow> concat (map (\<lambda>i. take n (drop (i * n) xs)) [0..<k]) = take (k * n) xs"
  by (induction k) (simp_all add: take_add add.commute [of n])

text \<open>
  Paging through the audit trail loses nothing: with any admissible page size, the pages at the
  offsets 0, n, 2n, ... up to the length of the trail, put one after the other, are all the
  events of the chosen action, each once.
\<close>

theorem audit_pages_complete:
  assumes "1 \<le> n" and "n \<le> 500" and "length (audit_log db) \<le> k * nat n"
  shows "mset (map fst (concat (map (\<lambda>i. ListAuditPage db n (int i * n) action) [0..<k])))
    = mset (filter (\<lambda>a. action = [] \<or> ev_action a = action) (audit_log db))"
proof -
  let ?rows = "filter (\<lambda>a. action = [] \<or> ev_action a = action) (audit_log db)"
  let ?all = "rev (sort_key (\<lambda>a. (ev_created a, ev_id a)) ?rows)"
  have page: "map fst (ListAuditPage db n (int i * n) action) = take (nat n) (drop (i * nat n) ?all)" for i
  proof -
    have "\<not> int i * n < 0" using assms(1) by (simp add: not_less)
    then show ?thesis using assms(1,2)
      by (simp only: ListAuditPage_def Let_def) (simp add: o_def nat_mult_distrib)
  qed
  have "map fst (concat (map (\<lambda>i. ListAuditPage db n (int i * n) action) [0..<k]))
      = concat (map (\<lambda>i. take (nat n) (drop (i * nat n) ?all)) [0..<k])"
    by (simp add: map_concat o_def page)
  also have "\<dots> = take (k * nat n) ?all"
    using assms(1) by (intro take_drop_pages) simp
  also have "\<dots> = ?all"
    using assms(3) le_trans [OF length_filter_le] by (intro take_all) simp
  finally show ?thesis by simp
qed

theorem audit_pages_complete_witness:
  "mset (map fst (concat (map (\<lambda>i. ListAuditPage empty_db 20 (int i * 20) []) [0..<1])))
    = mset (filter (\<lambda>a. [] = ([] :: string) \<or> ev_action a = []) (audit_log empty_db))"
  by (rule audit_pages_complete) (simp_all add: empty_db_def)

end
