(* ===== verification/Accounts.thy ===== *)
theory Accounts
  imports AuditLog
begin

text \<open>
  \<open>internal/store/accounts.go\<close>, \<open>domains.go\<close> and \<open>setup.go\<close>: domains, users, their sessions and
  application passwords, and aliases. Passwords are checked by the function \<open>verify\<close> and tokens
  are hashed by \<open>token_hash\<close>, both of \<open>internal/security\<close>.
\<close>

section \<open>Domains\<close>

definition normalizeDomain :: "string \<Rightarrow> string" where
  "normalizeDomain name = TrimSuffix (ToLower (TrimSpace name)) ''.''"

abbreviation backslash :: char where "backslash \<equiv> CHR 0x5C"
abbreviation dquote :: char where "dquote \<equiv> CHR 0x22"

definition valid_domain_name :: "string \<Rightarrow> bool" where
  "valid_domain_name name \<longleftrightarrow>
     name \<noteq> [] \<and> ContainsChar name (CHR ''.'') \<and> \<not> ContainsAny name ('' @/'' @ [backslash])"

definition createDomain :: "env \<Rightarrow> string \<Rightarrow> string \<Rightarrow> string \<Rightarrow> string \<Rightarrow> string \<Rightarrow> audit_event option \<Rightarrow> db
    \<Rightarrow> store_error + (db \<times> domain)" where
  "createDomain env token name0 selector publicKey privateKey event db =
     (let name = normalizeDomain name0
      in guard_err (\<not> valid_domain_name name) (ErrText ''invalid domain name'')
        (let dom = \<lparr>d_id = new_id env ''dom'' 0, d_name = name, d_status = ''pending'', d_verification = token,
               d_selector = (if selector = [] then ''brclio'' else selector), d_public_key = publicKey,
               d_private_key = privateKey, d_created = clock env 0, d_verified = None\<rparr>
         in bind_res (mapSQLError (insert_domain db dom)) (\<lambda>db1.
            bind_res (audit_if env 1 db1 ''domain'' (d_id dom) event) (\<lambda>db2.
            Inr (db2, dom)))))"

definition GetDomainByName :: "db \<Rightarrow> string \<Rightarrow> store_error + domain" where
  "GetDomainByName db name =
     of_option ErrNotFound (find (\<lambda>d. EqualFold (d_name d) (normalizeDomain name)) (domains db))"

definition GetDomainByID :: "db \<Rightarrow> string \<Rightarrow> store_error + domain" where
  "GetDomainByID db i = of_option ErrNotFound (find (\<lambda>d. d_id d = i) (domains db))"

definition ListDomains :: "db \<Rightarrow> domain list" where
  "ListDomains db = sort_key d_created (domains db)"

definition DomainExists :: "db \<Rightarrow> string \<Rightarrow> bool" where
  "DomainExists db name = list_ex (\<lambda>d. EqualFold (d_name d) (normalizeEmail name)) (domains db)"

definition setDomainVerification :: "env \<Rightarrow> string \<Rightarrow> bool \<Rightarrow> audit_event option \<Rightarrow> db \<Rightarrow> store_error + db" where
  "setDomainVerification env i verified event db =
     (let status = (if verified then ''verified'' else ''pending'');
          at = (if verified then Some (clock env 0) else None);
          k = (if verified then 1 else 0);
          db1 = db\<lparr>domains := update_where (\<lambda>d. d_id d = i) (\<lambda>d. d\<lparr>d_status := status, d_verified := at\<rparr>)
                  (domains db)\<rparr>
      in guard_err (count_where (\<lambda>d. d_id d = i) (domains db) = 0) ErrNotFound
           (audit_if env k db1 ''domain'' i event))"

section \<open>Users\<close>

definition local_part_ok :: "string \<Rightarrow> bool" where
  "local_part_ok s \<longleftrightarrow> s \<noteq> [] \<and> \<not> ContainsAny s ('' <>(),:;'' @ [backslash, dquote])"

text \<open>The two parts of \<open>local@domain\<close>.\<close>

definition split_email :: "string \<Rightarrow> (string \<times> string) option" where
  "split_email email = (case Split email (CHR ''@'') of [a, b] \<Rightarrow> Some (a, b) | _ \<Rightarrow> None)"

definition saveSystemMailbox :: "env \<Rightarrow> string \<Rightarrow> nat \<times> string \<Rightarrow> db \<Rightarrow> store_error + db" where
  "saveSystemMailbox env user_id iname db =
     insert_mailbox db
       \<lparr>mb_id = new_id env ''mbx'' (fst iname), mb_user_id = user_id, mb_name = snd iname,
        mb_uid_validity = clock env 0 div second - 62135596800 + int (fst iname), mb_uid_next = 1,
        mb_subscribed = True, mb_created = clock env 0\<rparr>"

definition createUser :: "env \<Rightarrow> string \<Rightarrow> string \<Rightarrow> string \<Rightarrow> string \<Rightarrow> int \<Rightarrow> audit_event option \<Rightarrow> db
    \<Rightarrow> store_error + (db \<times> user)" where
  "createUser env email0 displayName passwordHash role quotaBytes event db =
     (let email = normalizeEmail email0
      in case split_email email of
           None \<Rightarrow> Inl (ErrText ''invalid email address'')
         | Some (local_part, domain_part) \<Rightarrow>
             guard_err (domain_part = [] \<or> \<not> local_part_ok local_part) (ErrText ''invalid email address'')
             (guard_err (role \<noteq> RoleAdmin \<and> role \<noteq> RoleUser) (ErrText ''invalid role'')
             (guard_err (quotaBytes < 0) (ErrText ''quota must be non-negative'')
             (bind_res (GetDomainByName db domain_part) (\<lambda>dom.
               (let u = \<lparr>u_id = new_id env ''usr'' 0, u_domain_id = d_id dom, u_local_part = local_part,
                      u_email = email, u_display_name = TrimSpace displayName, u_password_hash = passwordHash,
                      u_role = role, u_status = StatusActive, u_auth_version = 1, u_protocol_auth_version = 1,
                      u_quota_bytes = quotaBytes, u_created = clock env 0, u_updated = clock env 0,
                      u_last_login = None\<rparr>
                in bind_res (mapSQLError (insert_user db u)) (\<lambda>db1.
                   bind_res (fold_res (saveSystemMailbox env (u_id u)) (enumerate 0 SystemMailboxes) db1) (\<lambda>db2.
                   bind_res (audit_if env 1 db2 ''user'' (u_id u) event) (\<lambda>db3.
                   Inr (db3, u))))))))))"

definition GetUserByEmail :: "db \<Rightarrow> string \<Rightarrow> store_error + user" where
  "GetUserByEmail db email =
     of_option ErrNotFound (find (\<lambda>u. EqualFold (u_email u) (normalizeEmail email)) (users db))"

definition GetUserByID :: "db \<Rightarrow> string \<Rightarrow> store_error + user" where
  "GetUserByID db i = of_option ErrNotFound (user_by_id db i)"

definition CountUsers :: "db \<Rightarrow> nat" where
  "CountUsers db = length (users db)"

definition ListUsers :: "db \<Rightarrow> user list" where
  "ListUsers db = sort_key (\<lambda>u. - u_created u) (users db)"

record user_update =
  up_display_name :: "string option"
  up_status :: "string option"
  up_role :: "string option"
  up_quota_bytes :: "int option"
  up_password_hash :: "string option"

definition update_columns :: "env \<Rightarrow> user_update \<Rightarrow> user \<Rightarrow> user" where
  "update_columns env up u =
     (let u1 = u\<lparr>u_updated := clock env 0\<rparr>;
          u2 = (case up_display_name up of None \<Rightarrow> u1 | Some n \<Rightarrow> u1\<lparr>u_display_name := TrimSpace n\<rparr>);
          u3 = (case up_status up of None \<Rightarrow> u2 | Some s \<Rightarrow> u2\<lparr>u_status := s\<rparr>);
          u4 = (case up_role up of None \<Rightarrow> u3 | Some r \<Rightarrow> u3\<lparr>u_role := r\<rparr>);
          u5 = (case up_quota_bytes up of None \<Rightarrow> u4 | Some q \<Rightarrow> u4\<lparr>u_quota_bytes := q\<rparr>);
          u6 = (case up_password_hash up of None \<Rightarrow> u5 | Some h \<Rightarrow> u5\<lparr>u_password_hash := h\<rparr>)
      in if up_password_hash up \<noteq> None \<or> up_status up \<noteq> None
         then u6\<lparr>u_auth_version := u_auth_version u6 + 1,
                 u_protocol_auth_version := u_protocol_auth_version u6 + 1\<rparr>
         else u6)"

definition active_admin :: "user \<Rightarrow> bool" where
  "active_admin u \<longleftrightarrow> u_role u = RoleAdmin \<and> u_status u = StatusActive"

text \<open>The last active administrator can be neither demoted nor suspended.\<close>

definition checkLastAdmin :: "db \<Rightarrow> string \<Rightarrow> user_update \<Rightarrow> store_error + unit" where
  "checkLastAdmin db i up =
     (if up_role up \<noteq> None \<or> up_status up \<noteq> None
      then (case user_by_id db i of
          None \<Rightarrow> Inl ErrNotFound
        | Some u \<Rightarrow>
            (let nextRole = (case up_role up of None \<Rightarrow> u_role u | Some r \<Rightarrow> r);
                 nextStatus = (case up_status up of None \<Rightarrow> u_status u | Some s \<Rightarrow> s)
             in guard_err (u_role u = RoleAdmin \<and> u_status u = StatusActive
                    \<and> (nextRole \<noteq> RoleAdmin \<or> nextStatus \<noteq> StatusActive)
                    \<and> count_where active_admin (users db) \<le> 1) ErrForbidden (Inr ())))
      else Inr ())"

definition revokeAccess :: "env \<Rightarrow> string \<Rightarrow> user_update \<Rightarrow> db \<Rightarrow> db" where
  "revokeAccess env i up db =
     (if up_password_hash up \<noteq> None \<or> up_status up = Some StatusSuspended
      then db\<lparr>sessions := filter (\<lambda>s. s_user_id s \<noteq> i) (sessions db),
              app_passwords := update_where (\<lambda>p. p_user_id p = i)
                (\<lambda>p. p\<lparr>p_revoked := (case p_revoked p of None \<Rightarrow> Some (clock env 1) | Some t \<Rightarrow> Some t)\<rparr>)
                (app_passwords db)\<rparr>
      else db)"

definition updateUser :: "env \<Rightarrow> string \<Rightarrow> user_update \<Rightarrow> audit_event option \<Rightarrow> db \<Rightarrow> store_error + db" where
  "updateUser env i up event db =
     guard_err (\<exists>s \<in> set_option (up_status up). s \<noteq> StatusActive \<and> s \<noteq> StatusSuspended) (ErrText ''invalid status'')
     (guard_err (\<exists>r \<in> set_option (up_role up). r \<noteq> RoleAdmin \<and> r \<noteq> RoleUser) (ErrText ''invalid role'')
     (guard_err (\<exists>q \<in> set_option (up_quota_bytes up). q < 0) (ErrText ''invalid quota'')
     (bind_res (checkLastAdmin db i up) (\<lambda>_.
        (let db1 = db\<lparr>users := update_where (\<lambda>u. u_id u = i) (update_columns env up) (users db)\<rparr>
         in guard_err (count_where (\<lambda>u. u_id u = i) (users db) = 0) ErrNotFound
              (audit_if env 2 (revokeAccess env i up db1) ''user'' i event))))))"

section \<open>Signing in\<close>

text \<open>
  \<open>Authenticate\<close>: the two last-used stamps are written outside a transaction and their errors are
  ignored, so the database can change even though the result is the user as read before.
\<close>

definition Authenticate :: "(string \<Rightarrow> string \<Rightarrow> bool) \<Rightarrow> (string \<Rightarrow> string) \<Rightarrow> env \<Rightarrow> string \<Rightarrow> string \<Rightarrow> bool \<Rightarrow> db
    \<Rightarrow> db \<times> (store_error + user)" where
  "Authenticate verify token_hash env email password allowAppPassword db =
     (case GetUserByEmail db email of
        Inl _ \<Rightarrow> (db, Inl ErrInvalidCredentials)
      | Inr u \<Rightarrow>
          if u_status u \<noteq> StatusActive then (db, Inl ErrInvalidCredentials)
          else
            (let stamp_login = (\<lambda>k d. d\<lparr>users := update_where (\<lambda>x. u_id x = u_id u)
                     (\<lambda>x. x\<lparr>u_last_login := Some (clock env k)\<rparr>) (users d)\<rparr>)
             in if verify (u_password_hash u) password then (stamp_login 0 db, Inr u)
                else if \<not> allowAppPassword then (db, Inl ErrInvalidCredentials)
                else (case find (\<lambda>p. p_user_id p = u_id u \<and> p_secret_hash p = token_hash password
                         \<and> p_revoked p = None) (app_passwords db) of
                    None \<Rightarrow> (db, Inl ErrInvalidCredentials)
                  | Some p \<Rightarrow>
                      (stamp_login 1 (db\<lparr>app_passwords := update_where (\<lambda>x. p_id x = p_id p)
                         (\<lambda>x. x\<lparr>p_last_used := Some (clock env 0)\<rparr>) (app_passwords db)\<rparr>), Inr u))))"

definition maxActiveWebSessions :: nat where "maxActiveWebSessions = 20"

text \<open>
  Cutting at a byte count and then back to the last valid UTF-8 text; \<open>valid_utf8\<close> is
  \<open>utf8.ValidString\<close>.
\<close>

fun dropInvalid :: "(string \<Rightarrow> bool) \<Rightarrow> nat \<Rightarrow> string \<Rightarrow> string" where
  "dropInvalid valid_utf8 0 s = s"
| "dropInvalid valid_utf8 (Suc k) s =
     (if s \<noteq> [] \<and> \<not> valid_utf8 s then dropInvalid valid_utf8 k (butlast s) else s)"

definition truncateUTF8 :: "(string \<Rightarrow> bool) \<Rightarrow> string \<Rightarrow> int \<Rightarrow> string" where
  "truncateUTF8 valid_utf8 s maxBytes =
     (if maxBytes < 0 \<or> int (length s) \<le> maxBytes then s
      else (let cut = take (nat maxBytes) s in dropInvalid valid_utf8 (length cut) cut))"

definition evict_sessions :: "string \<Rightarrow> session list \<Rightarrow> session list" where
  "evict_sessions user_id rows =
     (let newest = rev (sort_key (\<lambda>s. (s_last_seen s, s_created s, s_id s))
            (filter (\<lambda>s. s_user_id s = user_id) rows));
          gone = map s_id (drop (maxActiveWebSessions - 1) newest)
      in filter (\<lambda>s. s_id s \<notin> set gone) rows)"

definition CreateSession :: "(string \<Rightarrow> bool) \<Rightarrow> env \<Rightarrow> string \<Rightarrow> int \<Rightarrow> string \<Rightarrow> string \<Rightarrow> string \<Rightarrow> time \<Rightarrow> db
    \<Rightarrow> store_error + (db \<times> session)" where
  "CreateSession valid_utf8 env user_id expectedVersion tokenHash ip userAgent expiresAt db =
     (let now = clock env 0;
          db1 = db\<lparr>sessions := filter (\<lambda>s. \<not> s_expires s \<le> now) (sessions db)\<rparr>;
          db2 = db1\<lparr>sessions := evict_sessions user_id (sessions db1)\<rparr>
      in case find (\<lambda>u. u_id u = user_id \<and> u_status u = StatusActive \<and> u_auth_version u = expectedVersion)
             (users db2) of
           None \<Rightarrow> Inl ErrInvalidCredentials
         | Some u \<Rightarrow>
             (let row = \<lparr>s_id = new_id env ''ses'' 0, s_user_id = user_id, s_token_hash = tokenHash,
                    s_auth_version = u_auth_version u, s_created = now, s_expires = expiresAt,
                    s_last_seen = now, s_ip = truncateUTF8 valid_utf8 (TrimSpace ip) 64,
                    s_user_agent = truncateUTF8 valid_utf8 (TrimSpace userAgent) 512\<rparr>
              in bind_res (mapSQLError (insert_session db2 row)) (\<lambda>db3. Inr (db3, row))))"

definition UserForSession :: "env \<Rightarrow> string \<Rightarrow> db \<Rightarrow> db \<times> (store_error + user)" where
  "UserForSession env tokenHash db =
     (case find (\<lambda>(s, u). s_user_id s = u_id u \<and> s_token_hash s = tokenHash \<and> s_expires s > clock env 0
            \<and> u_status u = StatusActive \<and> s_auth_version s = u_auth_version u)
          (List.product (sessions db) (users db)) of
        None \<Rightarrow> (db, Inl ErrInvalidCredentials)
      | Some (s, u) \<Rightarrow>
          (db\<lparr>sessions := update_where (\<lambda>x. s_token_hash x = tokenHash)
                (\<lambda>x. x\<lparr>s_last_seen := clock env 1\<rparr>) (sessions db)\<rparr>, Inr u))"

definition DeleteSession :: "string \<Rightarrow> db \<Rightarrow> db" where
  "DeleteSession tokenHash db = db\<lparr>sessions := filter (\<lambda>s. s_token_hash s \<noteq> tokenHash) (sessions db)\<rparr>"

definition DeleteExpiredSessions :: "env \<Rightarrow> db \<Rightarrow> db" where
  "DeleteExpiredSessions env db =
     db\<lparr>sessions := filter (\<lambda>s. \<not> s_expires s \<le> clock env 0) (sessions db)\<rparr>"

section \<open>Application passwords\<close>

definition touch_user :: "string \<Rightarrow> (user \<Rightarrow> user) \<Rightarrow> db \<Rightarrow> db" where
  "touch_user i f db = db\<lparr>users := update_where (\<lambda>u. u_id u = i) f (users db)\<rparr>"

definition CreateAppPassword :: "env \<Rightarrow> string \<Rightarrow> string \<Rightarrow> string \<Rightarrow> db \<Rightarrow> store_error + (db \<times> app_password)" where
  "CreateAppPassword env user_id name hash db =
     (let item = \<lparr>p_id = new_id env ''app'' 0, p_user_id = user_id, p_name = TrimSpace name,
            p_secret_hash = hash, p_created = clock env 0, p_last_used = None, p_revoked = None\<rparr>
      in guard_err (p_name item = []) (ErrText ''name is required'')
         (bind_res (mapSQLError (insert_app_password db item)) (\<lambda>db1.
           guard_err (count_where (\<lambda>u. u_id u = user_id) (users db1) = 0) ErrNotFound
             (Inr (touch_user user_id (\<lambda>u. u\<lparr>u_updated := clock env 0\<rparr>) db1, item)))))"

definition ListAppPasswords :: "db \<Rightarrow> string \<Rightarrow> app_password list" where
  "ListAppPasswords db user_id =
     sort_key (\<lambda>p. - p_created p) (filter (\<lambda>p. p_user_id p = user_id) (app_passwords db))"

definition RevokeAppPassword :: "env \<Rightarrow> string \<Rightarrow> string \<Rightarrow> db \<Rightarrow> store_error + db" where
  "RevokeAppPassword env user_id i db =
     (let hit = (\<lambda>p. p_id p = i \<and> p_user_id p = user_id \<and> p_revoked p = None)
      in guard_err (count_where hit (app_passwords db) = 0) ErrNotFound
         (Inr (touch_user user_id
            (\<lambda>u. u\<lparr>u_protocol_auth_version := u_protocol_auth_version u + 1, u_updated := clock env 0\<rparr>)
            (db\<lparr>app_passwords := update_where hit (\<lambda>p. p\<lparr>p_revoked := Some (clock env 0)\<rparr>)
                 (app_passwords db)\<rparr>))))"

section \<open>Aliases\<close>

definition createAlias :: "env \<Rightarrow> string \<Rightarrow> string \<Rightarrow> audit_event option \<Rightarrow> db \<Rightarrow> store_error + (db \<times> alias_row)" where
  "createAlias env address0 targetEmail event db =
     (let address = normalizeEmail address0
      in bind_res (GetUserByEmail db targetEmail) (\<lambda>target.
        case split_email address of
          None \<Rightarrow> Inl (ErrText ''invalid alias'')
        | Some (local_part, domain_part) \<Rightarrow>
            guard_err (local_part = []) (ErrText ''invalid alias'')
            (bind_res (GetDomainByName db domain_part) (\<lambda>_.
              (let item = \<lparr>a_id = new_id env ''als'' 0, a_address = address, a_target_user_id = u_id target,
                     a_enabled = True, a_created = clock env 0\<rparr>
               in bind_res (mapSQLError (insert_alias db item)) (\<lambda>db1.
                  bind_res (audit_if env 1 db1 ''alias'' (a_id item) event) (\<lambda>db2.
                  Inr (db2, item))))))))"

definition ListAliases :: "db \<Rightarrow> (alias_row \<times> string) list" where
  "ListAliases db =
     List.map_filter (\<lambda>a. map_option (\<lambda>u. (a, u_email u)) (user_by_id db (a_target_user_id a)))
       (sort_key (\<lambda>a. - a_created a) (aliases db))"

definition ResolveRecipient :: "db \<Rightarrow> string \<Rightarrow> store_error + user" where
  "ResolveRecipient db address0 =
     (let address = normalizeEmail address0;
          by_alias = of_option ErrNotFound (map_option snd
            (find (\<lambda>(a, u). a_target_user_id a = u_id u \<and> EqualFold (a_address a) address \<and> a_enabled a
               \<and> u_status u = StatusActive) (List.product (aliases db) (users db))))
      in case GetUserByEmail db address of
           Inr u \<Rightarrow> if u_status u = StatusActive then Inr u else by_alias
         | Inl _ \<Rightarrow> by_alias)"

definition EnsurePostmaster :: "env \<Rightarrow> string \<Rightarrow> string \<Rightarrow> int \<Rightarrow> db \<Rightarrow> store_error + (db \<times> user)" where
  "EnsurePostmaster env domainName passwordHash quotaBytes db =
     (let email = ''postmaster@'' @ normalizeEmail domainName
      in case GetUserByEmail db email of
           Inr u \<Rightarrow> Inr (db, u)
         | Inl e \<Rightarrow> if e \<noteq> ErrNotFound then Inl e
                    else createUser env email ''Postmaster'' passwordHash RoleAdmin quotaBytes None db)"

section \<open>First-run setup\<close>

record initial_setup =
  is_domain_name :: string
  is_selector :: string
  is_public_key :: string
  is_private_key :: string
  is_email :: string
  is_display_name :: string
  is_password_hash :: string
  is_quota_bytes :: int
  is_ip :: string

definition role_aliases :: "string list" where
  "role_aliases = [''postmaster'', ''abuse'', ''security'', ''hostmaster'', ''dmarc'', ''tlsrpt'']"

text \<open>The counter is that of the alias IDs drawn: an address of the administrator draws none.\<close>

definition saveRoleAlias :: "env \<Rightarrow> user \<Rightarrow> string \<Rightarrow> string \<Rightarrow> db \<times> nat \<Rightarrow> store_error + (db \<times> nat)" where
  "saveRoleAlias env u domain_name role s =
     (let (db, i) = s; address = role @ ''@'' @ domain_name
      in if EqualFold address (u_email u) then Inr s
         else bind_res (mapSQLError (insert_alias db
                \<lparr>a_id = new_id env ''als'' i, a_address = address, a_target_user_id = u_id u,
                 a_enabled = True, a_created = clock env 0\<rparr>)) (\<lambda>db1. Inr (db1, i + 1)))"

text \<open>\<open>parse_address\<close> is \<open>mail.ParseAddress\<close>; \<open>token\<close> the token drawn for the domain.\<close>

definition Initialize :: "(string \<Rightarrow> string option) \<Rightarrow> env \<Rightarrow> string \<Rightarrow> initial_setup \<Rightarrow> db
    \<Rightarrow> store_error + (db \<times> user \<times> domain)" where
  "Initialize parse_address env token inp db =
     (let domainName = normalizeDomain (is_domain_name inp); email = normalizeEmail (is_email inp)
      in guard_err (\<not> valid_domain_name domainName) (ErrText ''invalid domain name'')
        (case parse_address email of
           None \<Rightarrow> Inl (ErrText ''invalid administrator email'')
         | Some parsed \<Rightarrow>
             guard_err (\<not> EqualFold parsed email) (ErrText ''invalid administrator email'')
             (case split_email email of
                None \<Rightarrow> Inl (ErrText ''administrator email must belong to the configured domain'')
              | Some (local_part, domain_part) \<Rightarrow>
                  guard_err (local_part = [] \<or> \<not> EqualFold domain_part domainName)
                    (ErrText ''administrator email must belong to the configured domain'')
                  (guard_err (is_quota_bytes inp < 0) (ErrText ''quota must be non-negative'')
                  (let selector = (if TrimSpace (is_selector inp) = [] then ''brclio'' else TrimSpace (is_selector inp));
                       now = clock env 0;
                       dom = \<lparr>d_id = new_id env ''dom'' 0, d_name = domainName, d_status = ''pending'',
                              d_verification = token, d_selector = selector, d_public_key = is_public_key inp,
                              d_private_key = is_private_key inp, d_created = now, d_verified = None\<rparr>;
                       u = \<lparr>u_id = new_id env ''usr'' 0, u_domain_id = d_id dom, u_local_part = local_part,
                            u_email = email, u_display_name = TrimSpace (is_display_name inp),
                            u_password_hash = is_password_hash inp, u_role = RoleAdmin, u_status = StatusActive,
                            u_auth_version = 1, u_protocol_auth_version = 1, u_quota_bytes = is_quota_bytes inp,
                            u_created = now, u_updated = now, u_last_login = None\<rparr>
                   in guard_err (length (users db) \<noteq> 0) ErrConflict
                      (bind_res (mapSQLError (insert_domain db dom)) (\<lambda>db1.
                       bind_res (mapSQLError (insert_user db1 u)) (\<lambda>db2.
                       bind_res (fold_res (saveSystemMailbox env (u_id u)) (enumerate 0 SystemMailboxes) db2) (\<lambda>db3.
                       bind_res (fold_res (saveRoleAlias env u domainName) role_aliases (db3, 0)) (\<lambda>(db4, _).
                       bind_res (insert_audit_row db4
                         \<lparr>ev_id = new_id env ''aud'' 0, ev_actor_id = u_id u, ev_action = ''system.setup'',
                          ev_target_type = ''domain'', ev_target_id = d_id dom, ev_reason = [],
                          ev_metadata = ''{}'', ev_ip = is_ip inp, ev_created = now\<rparr>) (\<lambda>db5.
                       Inr (db5, u, dom))))))))))))"

end
