(* ===== verification/Addressing.thy ===== *)
theory Addressing
  imports Accounts
begin

text \<open>
  \<open>internal/store/smtp.go\<close>: which local user an SMTP recipient is, and which sender addresses a user
  may submit from. \<open>parse_address\<close> stands for \<open>mail.ParseAddress\<close>: the address of the parsed
  mailbox, or nothing.
\<close>

definition roleLocalParts :: "string list" where
  "roleLocalParts = [''postmaster'', ''abuse'', ''security'', ''hostmaster'']"

definition smtpAddress :: "(string \<Rightarrow> string option) \<Rightarrow> string \<Rightarrow> store_error + string" where
  "smtpAddress parse_address value0 =
     (let v1 = TrimSpace value0
      in if v1 = [] then Inr []
         else
           (let v2 = (if HasPrefix v1 ''<'' \<and> HasSuffix v1 ''>''
                      then TrimSpace (drop 1 (take (length v1 - 1) v1)) else v1)
            in if EqualFold v2 ''postmaster'' then Inr ''postmaster''
               else (case parse_address v2 of
                   None \<Rightarrow> Inl (ErrText ''invalid SMTP address'')
                 | Some a \<Rightarrow> Inr (ToLower (TrimSpace a)))))"

text \<open>The first verified domain by creation, \<open>ORDER BY created_at,id LIMIT 1\<close>.\<close>

definition first_verified_domain :: "db \<Rightarrow> domain option" where
  "first_verified_domain db =
     (case sort_key (\<lambda>d. (d_created d, d_id d)) (filter (\<lambda>d. d_status d = ''verified'') (domains db)) of
        [] \<Rightarrow> None | d # ds \<Rightarrow> Some d)"

definition verified_domain :: "db \<Rightarrow> string \<Rightarrow> bool" where
  "verified_domain db name =
     list_ex (\<lambda>d. EqualFold (d_name d) name \<and> d_status d = ''verified'') (domains db)"

text \<open>The canonical address comes with the error too, except where it is not known yet.\<close>

definition resolve_canonical :: "db \<Rightarrow> string \<Rightarrow> string \<times> (store_error + user)" where
  "resolve_canonical db address =
     (case Cut address (CHR ''@'') of
        (local0, domain0, ok) \<Rightarrow>
          if \<not> ok \<or> local0 = [] \<or> domain0 = [] \<or> ContainsChar domain0 (CHR ''@'')
          then ([], Inl (ErrText ''invalid SMTP recipient''))
          else
            (let loc = ToLower local0;
                 dom = TrimSuffix (ToLower domain0) ''.'';
                 address1 = (if loc \<in> set roleLocalParts then loc @ ''@'' @ dom
                             else ToLower (loc @ ''@'' @ dom))
             in if \<not> verified_domain db dom then (address1, Inl ErrNotFound)
                else (address1, ResolveRecipient db address1)))"

definition ResolveSMTPRecipient :: "(string \<Rightarrow> string option) \<Rightarrow> db \<Rightarrow> string \<Rightarrow> string \<times> (store_error + user)" where
  "ResolveSMTPRecipient parse_address db value =
     (case smtpAddress parse_address value of
        Inl e \<Rightarrow> ([], Inl e)
      | Inr address \<Rightarrow>
          if \<not> ContainsChar address (CHR ''@'')
          then (if \<not> EqualFold address ''postmaster'' then ([], Inl ErrNotFound)
                else (case first_verified_domain db of
                    None \<Rightarrow> ([], Inl ErrNotFound)
                  | Some d \<Rightarrow> resolve_canonical db (''postmaster@'' @ ToLower (d_name d))))
          else resolve_canonical db address)"

definition SMTPFromAllowed :: "(string \<Rightarrow> string option) \<Rightarrow> db \<Rightarrow> string \<Rightarrow> string \<Rightarrow> bool" where
  "SMTPFromAllowed parse_address db user_id value =
     (case smtpAddress parse_address value of
        Inl _ \<Rightarrow> False
      | Inr address0 \<Rightarrow>
          if address0 = [] \<or> \<not> ContainsChar address0 (CHR ''@'') then False
          else
            (let address = ToLower (TrimSuffix address0 ''.'')
             in case Cut address (CHR ''@'') of
                  (_, domainName, ok) \<Rightarrow>
                    ok \<and> verified_domain db domainName \<and>
                    (list_ex (\<lambda>u. u_id u = user_id \<and> EqualFold (u_email u) address \<and> u_status u = StatusActive)
                       (users db)
                     \<or> list_ex (\<lambda>a. list_ex (\<lambda>u. a_target_user_id a = u_id u \<and> u_id u = user_id
                            \<and> u_status u = StatusActive) (users db)
                          \<and> EqualFold (a_address a) address \<and> a_enabled a) (aliases db))))"

text \<open>The address, and whether its domain is configured here.\<close>

definition SMTPLocalDomain :: "(string \<Rightarrow> string option) \<Rightarrow> db \<Rightarrow> string \<Rightarrow> store_error + (string \<times> bool)" where
  "SMTPLocalDomain parse_address db value =
     bind_res (smtpAddress parse_address value) (\<lambda>address.
       case Cut address (CHR ''@'') of
         (_, domain0, ok) \<Rightarrow>
           if \<not> ok \<or> domain0 = [] \<or> ContainsChar domain0 (CHR ''@'') then Inr (address, False)
           else Inr (ToLower address,
             list_ex (\<lambda>d. EqualFold (d_name d) (TrimSuffix (ToLower domain0) ''.'')) (domains db)))"

section \<open>Recipients\<close>

lemma ResolveRecipient_sound:
  assumes "ResolveRecipient db address = Inr u"
  shows "u \<in> set (users db)" "u_status u = StatusActive"
    "EqualFold (u_email u) (normalizeEmail address) \<or>
     (\<exists>a \<in> set (aliases db). a_enabled a \<and> a_target_user_id a = u_id u
        \<and> EqualFold (a_address a) (normalizeEmail address))"
  using assms
  by (auto simp: ResolveRecipient_def GetUserByEmail_def Let_def of_option_def
      split: option.splits sum.splits if_splits dest!: find_SomeD)

lemma resolve_canonical_sound:
  assumes "resolve_canonical db address = (canonical, Inr u)"
  shows "\<exists>loc dom. canonical = loc @ ''@'' @ dom \<and> loc \<noteq> [] \<and> verified_domain db dom
      \<and> ResolveRecipient db canonical = Inr u \<and> ToLower canonical = canonical"
proof -
  obtain l d ok where cut: "Cut address (CHR ''@'') = (l, d, ok)" by (cases "Cut address (CHR ''@'')")
  let ?d = "TrimSuffix (ToLower d) ''.''"
  have low: "ToLower ?d = ?d"
    by (simp add: TrimSuffix_def ToLower_def take_map o_def)
  have "ToLower ''@'' = ''@''" by (simp add: ToLower_def lower_char_def)
  then have "ToLower (ToLower l @ ''@'' @ ?d) = ToLower l @ ''@'' @ ?d"
    using low by (simp only: ToLower_append ToLower_idem)
  then show ?thesis using assms cut
    by (intro exI [of _ "ToLower l"] exI [of _ ?d])
      (auto simp: resolve_canonical_def Let_def split: if_splits)
qed

section \<open>Properties\<close>

text \<open>
  C13. Recipient resolution. Whatever text a client gives as a recipient, if the server accepts it, the
  canonical address is in lower case, in a verified local domain, and it is the address of the
  active user it is delivered to or of an enabled alias of that user.
\<close>

theorem smtp_recipient_is_local:
  assumes "ResolveSMTPRecipient parse_address db value = (canonical, Inr u)"
  shows "u \<in> set (users db) \<and> u_status u = StatusActive
    \<and> (\<exists>loc dom. canonical = loc @ ''@'' @ dom \<and> loc \<noteq> [] \<and> verified_domain db dom)
    \<and> (EqualFold (u_email u) (TrimSpace canonical) \<or>
      (\<exists>a \<in> set (aliases db). a_enabled a \<and> a_target_user_id a = u_id u
         \<and> EqualFold (a_address a) (TrimSpace canonical)))"
proof (intro conjI)
  have "\<exists>addr. resolve_canonical db addr = (canonical, Inr u)"
    using assms by (auto simp: ResolveSMTPRecipient_def split: sum.splits if_splits option.splits)
  then obtain addr where r: "resolve_canonical db addr = (canonical, Inr u)" by blast
  note c = resolve_canonical_sound [OF r]
  then have res: "ResolveRecipient db canonical = Inr u" by blast
  show "u \<in> set (users db)" "u_status u = StatusActive" using ResolveRecipient_sound [OF res] by simp_all
  show "\<exists>loc dom. canonical = loc @ ''@'' @ dom \<and> loc \<noteq> [] \<and> verified_domain db dom"
    using c by blast
  show "EqualFold (u_email u) (TrimSpace canonical) \<or>
      (\<exists>a \<in> set (aliases db). a_enabled a \<and> a_target_user_id a = u_id u
         \<and> EqualFold (a_address a) (TrimSpace canonical))"
    using ResolveRecipient_sound(3) [OF res] by (simp add: normalizeEmail_def EqualFold_def)
qed

definition example_domain :: domain where
  "example_domain = \<lparr>d_id = ''d1'', d_name = ''b.io'', d_status = ''verified'', d_verification = [],
     d_selector = [], d_public_key = [], d_private_key = [], d_created = 1, d_verified = Some 1\<rparr>"

definition example_user :: user where
  "example_user = \<lparr>u_id = ''u1'', u_domain_id = ''d1'', u_local_part = ''al'', u_email = ''al@b.io'',
     u_display_name = [], u_password_hash = ''h'', u_role = RoleAdmin, u_status = StatusActive,
     u_auth_version = 1, u_protocol_auth_version = 1, u_quota_bytes = 1000, u_created = 1, u_updated = 1,
     u_last_login = None\<rparr>"

definition example_db :: db where
  "example_db = empty_db\<lparr>domains := [example_domain], users := [example_user],
     aliases := [\<lparr>a_id = ''a1'', a_address = ''postmaster@b.io'', a_target_user_id = ''u1'',
       a_enabled = True, a_created = 1\<rparr>]\<rparr>"

theorem smtp_recipient_is_local_witness:
  "u_status example_user = StatusActive \<and>
   ResolveSMTPRecipient (\<lambda>s. Some s) example_db '' PostMaster '' = (''postmaster@b.io'', Inr example_user)"
proof -
  have r: "ResolveSMTPRecipient (\<lambda>s. Some s) example_db '' PostMaster '' = (''postmaster@b.io'', Inr example_user)"
    by code_simp
  show ?thesis using smtp_recipient_is_local [OF r] r by blast
qed

text \<open>
  Sender authorization. A user may submit mail from an address exactly if it parses to an
  address in a verified domain that is the user's own or that of an enabled alias of the user, and
  the user is active; the null sender is never allowed.
\<close>

theorem smtp_from_owned:
  "SMTPFromAllowed parse_address db user_id value \<longleftrightarrow>
    (\<exists>address u. smtpAddress parse_address value = Inr address \<and> ContainsChar address (CHR ''@'')
    \<and> u \<in> set (users db) \<and> u_id u = user_id \<and> u_status u = StatusActive
    \<and> verified_domain db (fst (snd (Cut (ToLower (TrimSuffix address ''.'')) (CHR ''@''))))
    \<and> snd (snd (Cut (ToLower (TrimSuffix address ''.'')) (CHR ''@'')))
    \<and> (EqualFold (u_email u) (TrimSuffix address ''.'') \<or>
       (\<exists>a \<in> set (aliases db). a_enabled a \<and> a_target_user_id a = user_id
          \<and> EqualFold (a_address a) (TrimSuffix address ''.''))))" (is "?l = ?r")
proof
  assume ?l
  then show ?r
    by (auto simp: SMTPFromAllowed_def Let_def list_ex_iff EqualFold_def
        split: sum.splits if_splits prod.splits)
next
  assume ?r
  then obtain address u where *: "smtpAddress parse_address value = Inr address"
    "ContainsChar address (CHR ''@'')" "u \<in> set (users db)" "u_id u = user_id" "u_status u = StatusActive"
    "verified_domain db (fst (snd (Cut (ToLower (TrimSuffix address ''.'')) (CHR ''@''))))"
    "snd (snd (Cut (ToLower (TrimSuffix address ''.'')) (CHR ''@'')))"
    "EqualFold (u_email u) (TrimSuffix address ''.'') \<or>
       (\<exists>a \<in> set (aliases db). a_enabled a \<and> a_target_user_id a = user_id
          \<and> EqualFold (a_address a) (TrimSuffix address ''.''))"
    by blast
  moreover have "address \<noteq> []" using *(2) by (auto simp: ContainsChar_def)
  ultimately show ?l
    by (cases "Cut (ToLower (TrimSuffix address ''.'')) (CHR ''@'')")
      (auto simp: SMTPFromAllowed_def Let_def list_ex_iff EqualFold_def)
qed

end
