(* ===== verification/MailStore.thy ===== *)
theory MailStore
  imports AuditLog
begin

text \<open>
  \<open>internal/store/mail.go\<close> and \<open>disk_unix.go\<close>: storing a message with its deliveries and queue
  items in one transaction, and the operations of one user on mailboxes and messages that the
  web interface uses. The message table is the archive: rows other than drafts are never deleted.
\<close>

section \<open>Limits\<close>

record store_config =
  archiveLimit :: int
  minFreeDisk :: int
  databasePath :: string

text \<open>
  Library functions of the environment: the length in characters that SQLite reports for a text, and
  the JSON text of a list of strings.
\<close>

record sql_lib =
  sql_length :: "string \<Rightarrow> int"
  json_list :: "string list \<Rightarrow> string"

abbreviation blen :: "string \<Rightarrow> int" where "blen s \<equiv> int (length s)"

definition saturatingMultiply :: "int \<Rightarrow> int \<Rightarrow> int" where
  "saturatingMultiply value multiplier =
     (if value \<le> 0 \<or> multiplier \<le> 0 then 0
      else if value > maxInt64 div multiplier then maxInt64
      else value * multiplier)"

fun addAttachmentStorage :: "int \<Rightarrow> attachment list \<Rightarrow> int" where
  "addAttachmentStorage subtotal [] = subtotal"
| "addAttachmentStorage subtotal (attachment # rest) =
     (let contentBytes = (if at_size attachment > blen (at_content attachment) then at_size attachment
                          else blen (at_content attachment))
      in if contentBytes > maxInt64 - 1024 \<or> subtotal > maxInt64 - contentBytes - 1024 then maxInt64
         else addAttachmentStorage (subtotal + (contentBytes + 1024)) rest)"

definition estimatedMessageStorage :: "message \<Rightarrow> attachment list \<Rightarrow> int" where
  "estimatedMessageStorage message atts =
     (let rawBytes = (if m_size message > blen (m_raw message) then m_size message
                      else blen (m_raw message));
          storedBodyBytes = blen (m_text message) + blen (m_html message) + blen (m_snippet message);
          searchableBytes = blen (m_text message) + blen (m_subject message) + blen (m_from message)
            + sum_list (map (\<lambda>value. blen value + 3) (m_to message @ m_cc message));
          subtotal = wrap64 (rawBytes + storedBodyBytes + saturatingMultiply (wrap64 searchableBytes) 4 + 16384)
      in addAttachmentStorage subtotal atts)"

text \<open>\<open>statfs\<close> gives the block size and the number of available blocks, or fails.\<close>

definition ensureDiskReserve :: "store_config \<Rightarrow> (int \<times> int) option \<Rightarrow> int \<Rightarrow> store_error option" where
  "ensureDiskReserve cfg statfs incomingBytes =
     (if minFreeDisk cfg \<le> 0 \<or> databasePath cfg = [] \<or> databasePath cfg = '':memory:'' then None
      else (case statfs of
          None \<Rightarrow> Some (ErrText ''inspect SQLite filesystem capacity'')
        | Some (blockSize, availableBlocks) \<Rightarrow>
            (let available = (if blockSize > 0 \<and> availableBlocks \<ge> 0 \<and> availableBlocks \<le> maxInt64 div blockSize
                              then availableBlocks * blockSize else maxInt64);
                 writeHeadroom = saturatingMultiply incomingBytes 2
             in if available < minFreeDisk cfg \<or> available - minFreeDisk cfg < writeHeadroom
                then Some ErrArchiveFull else None)))"

text \<open>\<open>archiveStorageSQL\<close>\<close>

definition message_storage :: "sql_lib \<Rightarrow> message \<Rightarrow> int" where
  "message_storage lib m =
     blen (m_raw m) + sql_length lib (m_text m) + sql_length lib (m_html m) + sql_length lib (m_snippet m)
     + 4 * (sql_length lib (m_text m) + sql_length lib (m_subject m) + sql_length lib (m_from m)
          + sql_length lib (json_list lib (m_to m)) + sql_length lib (json_list lib (m_cc m)))
     + 16384"

definition archiveStorage :: "sql_lib \<Rightarrow> db \<Rightarrow> int" where
  "archiveStorage lib db =
     sum_list (map (message_storage lib) (messages db))
     + sum_list (map (\<lambda>a. blen (at_content a) + 1024) (attachments db))"

section \<open>Flags\<close>

abbreviation Seen :: string where "Seen \<equiv> CHR 0x5C # ''Seen''"
abbreviation Answered :: string where "Answered \<equiv> CHR 0x5C # ''Answered''"
abbreviation Flagged :: string where "Flagged \<equiv> CHR 0x5C # ''Flagged''"
abbreviation Deleted :: string where "Deleted \<equiv> CHR 0x5C # ''Deleted''"
abbreviation Draft :: string where "Draft \<equiv> CHR 0x5C # ''Draft''"
abbreviation Recent :: string where "Recent \<equiv> CHR 0x5C # ''Recent''"

definition system_flags :: "string list" where
  "system_flags = [Seen, Answered, Flagged, Deleted, Draft, Recent]"

definition canonical_flag :: "string \<Rightarrow> string option" where
  "canonical_flag flag = find (\<lambda>c. ToLower c = ToLower flag) system_flags"

fun normalizeFlagsFrom :: "string list \<Rightarrow> string list \<Rightarrow> string list" where
  "normalizeFlagsFrom result [] = result"
| "normalizeFlagsFrom result (flag # rest) =
     (case canonical_flag flag of
        Some canonical \<Rightarrow>
          normalizeFlagsFrom (if canonical \<in> set result then result else result @ [canonical]) rest
      | None \<Rightarrow> normalizeFlagsFrom result rest)"

definition normalizeFlags :: "string list \<Rightarrow> string list" where
  "normalizeFlags flags = normalizeFlagsFrom [] flags"

definition containsFlag :: "string list \<Rightarrow> string \<Rightarrow> bool" where
  "containsFlag flags want = list_ex (\<lambda>flag. EqualFold flag want) flags"

section \<open>Saving a message\<close>

record delivery =
  dl_user_id :: string
  dl_mailbox :: string
  dl_flags :: "string list"

text \<open>The mailbox of a user by name; the schema makes it unique.\<close>

definition mailbox_named :: "db \<Rightarrow> string \<Rightarrow> string \<Rightarrow> mailbox option" where
  "mailbox_named db user_id name =
     find (\<lambda>b. mb_user_id b = user_id \<and> EqualFold (mb_name b) name) (mailboxes db)"

definition bump_uid :: "string \<Rightarrow> db \<Rightarrow> db" where
  "bump_uid mailbox_id db =
     db\<lparr>mailboxes := update_where (\<lambda>b. mb_id b = mailbox_id) (\<lambda>b. b\<lparr>mb_uid_next := mb_uid_next b + 1\<rparr>)
          (mailboxes db)\<rparr>"

text \<open>\<open>saveMailboxEntry\<close> for the \<open>i\<close>-th delivery.\<close>

definition saveMailboxEntry :: "env \<Rightarrow> nat \<Rightarrow> delivery \<Rightarrow> string \<Rightarrow> time \<Rightarrow> db \<Rightarrow> store_error + db" where
  "saveMailboxEntry env i dl message_id internal_date db =
     (case mailbox_named db (dl_user_id dl) (dl_mailbox dl) of
        None \<Rightarrow> Inl ErrNotFound
      | Some b \<Rightarrow>
          bind_res (insert_entry db
             \<lparr>e_id = new_id env ''ent'' i, e_mailbox_id = mb_id b, e_user_id = dl_user_id dl,
              e_message_id = message_id, e_uid = mb_uid_next b, e_flags = normalizeFlags (dl_flags dl),
              e_internal_date = internal_date, e_created = clock env (1 + i), e_deleted = None,
              e_expunged = None\<rparr>)
            (\<lambda>db1. Inr (bump_uid (mb_id b) db1)))"

text \<open>The draft that a new version of it, or the message sent from it, replaces.\<close>

definition find_draft :: "db \<Rightarrow> string \<Rightarrow> string \<Rightarrow> mailbox_entry option" where
  "find_draft db user_id draft_id =
     latest e_created (filter (\<lambda>e. e_user_id e = user_id \<and> e_expunged e = None
       \<and> (case message_by_id db (e_message_id e) of None \<Rightarrow> False | Some m \<Rightarrow> m_direction m = ''draft'')
       \<and> (e_message_id e = draft_id \<or> e_id e = draft_id)
       \<and> \<not> list_ex (\<lambda>other. e_message_id other = e_message_id e \<and> e_user_id other \<noteq> user_id) (entries db))
     (entries db))"

definition delete_entries :: "(mailbox_entry \<Rightarrow> bool) \<Rightarrow> db \<Rightarrow> db" where
  "delete_entries P db = db\<lparr>entries := filter (\<lambda>e. \<not> P e) (entries db)\<rparr>"

definition removeReplacedDraft :: "(string \<times> string) option \<Rightarrow> db \<Rightarrow> store_error + db" where
  "removeReplacedDraft replacement db =
     (case replacement of
        None \<Rightarrow> Inr db
      | Some (user_id, draft_id) \<Rightarrow>
          if draft_id = [] then Inr db
          else (case find_draft db user_id draft_id of
              None \<Rightarrow> Inl ErrNotFound
            | Some e \<Rightarrow>
                delete_messages
                  (delete_entries (\<lambda>x. e_message_id x = e_message_id e \<and> e_user_id x = user_id) db)
                  (\<lambda>m. m_id m = e_message_id e \<and> m_direction m = ''draft'')))"

definition checkArchive :: "store_config \<Rightarrow> sql_lib \<Rightarrow> int \<Rightarrow> db \<Rightarrow> store_error + unit" where
  "checkArchive cfg lib storageBytes db =
     (if archiveLimit cfg > 0
      then (let archived = archiveStorage lib db
            in guard_err (archived > archiveLimit cfg \<or> storageBytes > archiveLimit cfg - archived)
                 ErrArchiveFull (Inr ()))
      else Inr ())"

text \<open>
  The loop over \<open>deliveryCounts\<close>. Go visits a map in an unspecified order, here the order in which
  the users first occur.
\<close>

definition checkQuota :: "db \<Rightarrow> int \<Rightarrow> delivery list \<Rightarrow> string \<Rightarrow> unit \<Rightarrow> store_error + unit" where
  "checkQuota db sizeBytes deliveries user_id u =
     (case find (\<lambda>x. u_id x = user_id \<and> u_status x = StatusActive) (users db) of
        None \<Rightarrow> Inl ErrNotFound
      | Some x \<Rightarrow>
          (let copies = int (count_where (\<lambda>dl. dl_user_id dl = user_id) deliveries)
           in guard_err (u_quota_bytes x > 0 \<and>
                wrap64 (used_bytes db user_id + wrap64 (sizeBytes * copies)) > u_quota_bytes x)
                ErrQuotaExceeded (Inr ())))"

definition checkQuotas :: "db \<Rightarrow> int \<Rightarrow> delivery list \<Rightarrow> store_error + unit" where
  "checkQuotas db sizeBytes deliveries =
     fold_res (checkQuota db sizeBytes deliveries) (remdups (map dl_user_id deliveries)) ()"

definition enqueue :: "env \<Rightarrow> nat \<Rightarrow> string \<Rightarrow> nat \<times> string \<Rightarrow> db \<Rightarrow> store_error + db" where
  "enqueue env k message_id ir db =
     (let now = clock env (k + fst ir)
      in mapSQLError (insert_queue db
          \<lparr>q_id = new_id env ''que'' (fst ir), q_message_id = message_id, q_recipient = normalizeEmail (snd ir),
           q_status = Queued, q_attempts = 0, q_next_attempt = now, q_last_error = [], q_delivered = None,
           q_created = now, q_updated = now\<rparr>))"

definition defaultMessage :: "env \<Rightarrow> message \<Rightarrow> message" where
  "defaultMessage env m0 =
     (let m1 = (if m_id m0 = [] then m0\<lparr>m_id := new_id env ''msg'' 0\<rparr> else m0);
          m2 = (if m_created m1 = zero_time then m1\<lparr>m_created := clock env 0\<rparr> else m1);
          m3 = (if m_received m2 = zero_time then m2\<lparr>m_received := m_created m2\<rparr> else m2);
          m4 = (if m_size m3 = 0 then m3\<lparr>m_size := blen (m_raw m3)\<rparr> else m3)
      in (if m_status m4 = [] then m4\<lparr>m_status := ''received''\<rparr> else m4))"

definition saveAttachment :: "env \<Rightarrow> string \<Rightarrow> nat \<times> attachment \<Rightarrow> db \<Rightarrow> store_error + db" where
  "saveAttachment env message_id ia db =
     (let a = (if at_id (snd ia) = [] then (snd ia)\<lparr>at_id := new_id env ''att'' (fst ia)\<rparr> else snd ia)
      in insert_attachment db (a\<lparr>at_message_id := message_id\<rparr>))"

definition saveDelivery :: "env \<Rightarrow> message \<Rightarrow> nat \<times> delivery \<Rightarrow> db \<Rightarrow> store_error + db" where
  "saveDelivery env message idl db =
     (let dl = (if dl_mailbox (snd idl) = [] then (snd idl)\<lparr>dl_mailbox := ''INBOX''\<rparr> else snd idl)
      in saveMailboxEntry env (fst idl) dl (m_id message) (m_received message) db)"

definition saveMessage :: "store_config \<Rightarrow> sql_lib \<Rightarrow> (int \<times> int) option \<Rightarrow> env \<Rightarrow> message \<Rightarrow> attachment list
    \<Rightarrow> delivery list \<Rightarrow> string list \<Rightarrow> (string \<times> string) option \<Rightarrow> audit_event option \<Rightarrow> db
    \<Rightarrow> store_error + (db \<times> message)" where
  "saveMessage cfg lib statfs env message0 atts deliveries queueRecipients replacement event db =
     (let message = defaultMessage env message0;
          storageBytes = estimatedMessageStorage message atts;
          k = 1 + length deliveries
      in case ensureDiskReserve cfg statfs storageBytes of
           Some e \<Rightarrow> Inl e
         | None \<Rightarrow>
             bind_res (removeReplacedDraft replacement db) (\<lambda>db1.
             bind_res (checkArchive cfg lib storageBytes db1) (\<lambda>_.
             bind_res (checkQuotas db1 (m_size message) deliveries) (\<lambda>_.
             bind_res (insert_message db1 message) (\<lambda>db2.
             bind_res (fold_res (saveAttachment env (m_id message)) (enumerate 0 atts) db2) (\<lambda>db3.
             bind_res (fold_res (saveDelivery env message) (enumerate 0 deliveries) db3) (\<lambda>db4.
             bind_res (fold_res (enqueue env k (m_id message)) (enumerate 0 queueRecipients) db4) (\<lambda>db5.
             bind_res (audit_if env (k + length queueRecipients) db5 ''message'' (m_id message) event) (\<lambda>db6.
             Inr (db6, message))))))))))"

definition SaveMessageReplacingDraftAudited where
  "SaveMessageReplacingDraftAudited cfg lib statfs env actorUserID replaceDraftID message atts deliveries
     queueRecipients event =
     saveMessage cfg lib statfs env message atts deliveries queueRecipients
       (Some (actorUserID, replaceDraftID)) (Some event)"

definition SaveMessageAudited where
  "SaveMessageAudited cfg lib statfs env message atts deliveries queueRecipients event =
     saveMessage cfg lib statfs env message atts deliveries queueRecipients None (Some event)"

definition SaveMessage where
  "SaveMessage cfg lib statfs env message atts deliveries queueRecipients =
     saveMessage cfg lib statfs env message atts deliveries queueRecipients None None"

end
