(* ===== verification/MailboxOps.thy ===== *)
theory MailboxOps
  imports MailStore
begin

text \<open>
  The rest of \<open>internal/store/mail.go\<close>: one user's operations on flags, messages and mailboxes, and
  the queries behind the message lists. A message is addressed by the ID of the user's entry or of
  the message itself; of several entries the newest is meant.
\<close>

section \<open>Choosing an entry\<close>

definition pick_entry :: "db \<Rightarrow> string \<Rightarrow> string \<Rightarrow> mailbox_entry option" where
  "pick_entry db user_id i =
     latest e_created (filter (\<lambda>e. e_user_id e = user_id \<and> e_expunged e = None
       \<and> (e_id e = i \<or> e_message_id e = i)) (entries db))"

lemma pick_entry_Some:
  assumes "pick_entry db user_id i = Some e"
  shows "e \<in> set (entries db)" "e_user_id e = user_id" "e_expunged e = None"
    "e_id e = i \<or> e_message_id e = i"
  using latest_mem [OF assms [unfolded pick_entry_def]] by auto

definition update_entries :: "(mailbox_entry \<Rightarrow> bool) \<Rightarrow> (mailbox_entry \<Rightarrow> mailbox_entry) \<Rightarrow> db \<Rightarrow> db" where
  "update_entries P f db = db\<lparr>entries := update_where P f (entries db)\<rparr>"

text \<open>\<open>RowsAffected() == 0\<close> is \<open>ErrNotFound\<close>.\<close>

definition update_entries_found :: "(mailbox_entry \<Rightarrow> bool) \<Rightarrow> (mailbox_entry \<Rightarrow> mailbox_entry) \<Rightarrow> db
    \<Rightarrow> store_error + db" where
  "update_entries_found P f db =
     guard_err (count_where P (entries db) = 0) ErrNotFound (Inr (update_entries P f db))"

section \<open>Messages of one user\<close>

definition UpdateFlags :: "string \<Rightarrow> string \<Rightarrow> string list \<Rightarrow> db \<Rightarrow> store_error + db" where
  "UpdateFlags user_id i flags db =
     (case pick_entry db user_id i of
        None \<Rightarrow> Inl ErrNotFound
      | Some e \<Rightarrow> update_entries_found (\<lambda>x. e_id x = e_id e) (\<lambda>x. x\<lparr>e_flags := normalizeFlags flags\<rparr>) db)"

definition MoveMessage :: "env \<Rightarrow> string \<Rightarrow> string \<Rightarrow> string \<Rightarrow> db \<Rightarrow> store_error + db" where
  "MoveMessage env user_id i mailbox0 db =
     (let mailbox = TrimSpace mailbox0
      in case pick_entry db user_id i of
           None \<Rightarrow> Inl ErrNotFound
         | Some e \<Rightarrow>
             (case mailbox_named db user_id mailbox of
                None \<Rightarrow> Inl ErrNotFound
              | Some target \<Rightarrow>
                  (let now = clock env 0;
                       del = (if mailbox = ''Trash'' then Some now else None)
                   in if e_mailbox_id e = mb_id target
                      then Inr (update_entries (\<lambda>x. e_id x = e_id e) (\<lambda>x. x\<lparr>e_deleted := del\<rparr>) db)
                      else if list_ex (\<lambda>x. e_id x \<noteq> e_id e \<and> e_mailbox_id x = mb_id target
                             \<and> e_uid x = mb_uid_next target) (entries db)
                      then Inl ErrConflict
                      else Inr (bump_uid (mb_id target)
                        (update_entries (\<lambda>x. e_id x = e_id e)
                          (\<lambda>x. x\<lparr>e_mailbox_id := mb_id target, e_uid := mb_uid_next target,
                                 e_deleted := del\<rparr>) db)))))"

text \<open>\<open>expunged_at=?, deleted_at=COALESCE(deleted_at,?)\<close>\<close>

definition expunge_at :: "time \<Rightarrow> mailbox_entry \<Rightarrow> mailbox_entry" where
  "expunge_at now e =
     e\<lparr>e_expunged := Some now, e_deleted := (case e_deleted e of None \<Rightarrow> Some now | Some t \<Rightarrow> Some t)\<rparr>"

definition orphaned_draft :: "db \<Rightarrow> string \<Rightarrow> message \<Rightarrow> bool" where
  "orphaned_draft db i m \<longleftrightarrow> m_id m = i \<and> m_direction m = ''draft''
     \<and> \<not> list_ex (\<lambda>e. e_message_id e = m_id m) (entries db)"

definition ExpungeMessage :: "env \<Rightarrow> string \<Rightarrow> string \<Rightarrow> db \<Rightarrow> store_error + db" where
  "ExpungeMessage env user_id i db =
     (case latest e_created (filter (\<lambda>e. e_user_id e = user_id \<and> e_expunged e = None
         \<and> (e_id e = i \<or> e_message_id e = i) \<and> message_exists db (e_message_id e)) (entries db)) of
        None \<Rightarrow> Inl ErrNotFound
      | Some e \<Rightarrow>
          if (case message_by_id db (e_message_id e) of None \<Rightarrow> False | Some m \<Rightarrow> m_direction m = ''draft'')
          then (let db1 = delete_entries (\<lambda>x. e_id x = e_id e \<and> e_user_id x = user_id) db
                in delete_messages db1 (orphaned_draft db1 (e_message_id e)))
          else update_entries_found (\<lambda>x. e_id x = e_id e \<and> e_user_id x = user_id \<and> e_expunged x = None)
                 (expunge_at (clock env 0)) db)"

section \<open>Mailboxes\<close>

definition maxMailboxesPerUser :: nat where "maxMailboxesPerUser = 100"
definition maxMailboxNameBytes :: nat where "maxMailboxNameBytes = 255"

text \<open>
  A control character is an ASCII one or one of U+0080 to U+009F, which UTF-8 writes as the byte
  0xC2 and one of 0x80 to 0x9F; 0xC2 is never a continuation byte.
\<close>

fun has_control :: "string \<Rightarrow> bool" where
  "has_control [] = False"
| "has_control (c # cs) =
     (code_of c < 32 \<or> code_of c = 127
      \<or> (code_of c = 194 \<and> cs \<noteq> [] \<and> 128 \<le> code_of (hd cs) \<and> code_of (hd cs) \<le> 159)
      \<or> has_control cs)"

definition validMailboxName :: "string \<Rightarrow> store_error + string" where
  "validMailboxName name0 =
     (let name = TrimSpace name0
      in if name = [] then Inl (ErrText ''mailbox name is required'')
         else if length name > maxMailboxNameBytes then Inl (ErrText ''mailbox name exceeds 255 bytes'')
         else if has_control name then Inl (ErrText ''mailbox name contains control characters'')
         else Inr name)"

definition Unix :: "time \<Rightarrow> int" where
  "Unix t = t div second - 62135596800"

definition CreateMailbox :: "env \<Rightarrow> string \<Rightarrow> string \<Rightarrow> db \<Rightarrow> store_error + db" where
  "CreateMailbox env user_id name0 db =
     bind_res (validMailboxName name0) (\<lambda>name.
       (let own = filter (\<lambda>b. mb_user_id b = user_id) (mailboxes db);
            maxValidity = (if own = [] then Unix (clock env 0) else Max (set (map mb_uid_validity own)))
        in guard_err (length own \<ge> maxMailboxesPerUser) ErrResourceLimit
          (mapSQLError (insert_mailbox db
            \<lparr>mb_id = new_id env ''mbx'' 0, mb_user_id = user_id, mb_name = name,
             mb_uid_validity = maxValidity + 1, mb_uid_next = 1, mb_subscribed = True,
             mb_created = clock env 1\<rparr>))))"

text \<open>\<open>UPDATE mailboxes SET name=?\<close> is refused where another mailbox of the user has the name.\<close>

definition RenameMailbox :: "string \<Rightarrow> string \<Rightarrow> string \<Rightarrow> db \<Rightarrow> store_error + db" where
  "RenameMailbox user_id oldName newName0 db =
     guard_err (EqualFold oldName ''INBOX'') ErrForbidden
       (bind_res (validMailboxName newName0) (\<lambda>newName.
         (let hit = (\<lambda>b. mb_user_id b = user_id \<and> EqualFold (mb_name b) oldName)
          in guard_err (list_ex hit (mailboxes db) \<and>
               list_ex (\<lambda>b. \<not> hit b \<and> mb_user_id b = user_id \<and> EqualFold (mb_name b) newName) (mailboxes db))
               ErrConflict
               (guard_err (count_where hit (mailboxes db) = 0) ErrNotFound
                 (Inr (db\<lparr>mailboxes := update_where hit (\<lambda>b. b\<lparr>mb_name := newName\<rparr>) (mailboxes db)\<rparr>))))))"

definition SetMailboxSubscribed :: "string \<Rightarrow> string \<Rightarrow> bool \<Rightarrow> db \<Rightarrow> store_error + db" where
  "SetMailboxSubscribed user_id name subscribed db =
     (let hit = (\<lambda>b. mb_user_id b = user_id \<and> EqualFold (mb_name b) name)
      in guard_err (count_where hit (mailboxes db) = 0) ErrNotFound
           (Inr (db\<lparr>mailboxes := update_where hit (\<lambda>b. b\<lparr>mb_subscribed := subscribed\<rparr>) (mailboxes db)\<rparr>)))"

section \<open>Reading\<close>

definition mailbox_rank :: "string \<Rightarrow> nat" where
  "mailbox_rank name = length (takeWhile (\<lambda>x. \<not> EqualFold name x) SystemMailboxes)"

record mailbox_summary =
  ms_name :: string
  ms_total :: nat
  ms_unread :: nat

definition ListMailboxes :: "db \<Rightarrow> string \<Rightarrow> mailbox_summary list" where
  "ListMailboxes db user_id =
     map (\<lambda>b. let own = filter (\<lambda>e. e_mailbox_id e = mb_id b \<and> e_expunged e = None) (entries db)
              in \<lparr>ms_name = mb_name b, ms_total = length own,
                  ms_unread = count_where (\<lambda>e. \<not> containsFlag (e_flags e) Seen) own\<rparr>)
       (sort_key (\<lambda>b. (mailbox_rank (mb_name b), ToLower (mb_name b)))
         (filter (\<lambda>b. mb_user_id b = user_id) (mailboxes db)))"

text \<open>A message joined with an entry, as its user sees it, without the envelope and the Bcc list.\<close>

definition mailbox_name_of :: "db \<Rightarrow> string \<Rightarrow> string" where
  "mailbox_name_of db i = (case find (\<lambda>b. mb_id b = i) (mailboxes db) of None \<Rightarrow> [] | Some b \<Rightarrow> mb_name b)"

definition as_view :: "message \<Rightarrow> string \<Rightarrow> string list \<Rightarrow> time option \<Rightarrow> time option \<Rightarrow> string \<Rightarrow> int \<Rightarrow> user_message" where
  "as_view m box flags del exp eid uid =
     message.extend m \<lparr>v_mailbox = box, v_flags = flags, v_deleted = del, v_expunged = exp,
       v_entry_id = eid, v_uid = uid\<rparr>"

definition admin_view :: "message \<Rightarrow> user_message" where
  "admin_view m = as_view m [] [] None None [] 0"

definition user_view :: "db \<Rightarrow> mailbox_entry \<Rightarrow> message \<Rightarrow> user_message" where
  "user_view db e m =
     as_view m (mailbox_name_of db (e_mailbox_id e)) (e_flags e) (e_deleted e) (e_expunged e) (e_id e) (e_uid e)"

definition without_envelope :: "user_message \<Rightarrow> user_message" where
  "without_envelope m = m\<lparr>m_envelope_to := [], m_bcc := []\<rparr>"

definition joined :: "db \<Rightarrow> (mailbox_entry \<times> message) list" where
  "joined db = List.map_filter (\<lambda>e. map_option (\<lambda>m. (e, m)) (message_by_id db (e_message_id e))) (entries db)"

definition GetMessage :: "db \<Rightarrow> string \<Rightarrow> string \<Rightarrow> bool \<Rightarrow> store_error + user_message" where
  "GetMessage db user_id i admin =
     (if admin
      then (case latest m_created (filter (\<lambda>m. m_id m = i \<and> m_direction m \<noteq> ''draft'') (messages db)) of
          None \<Rightarrow> Inl ErrNotFound
        | Some m \<Rightarrow> Inr (admin_view m))
      else (case latest (e_created \<circ> fst) (filter (\<lambda>(e, m). (m_id m = i \<or> e_id e = i)
              \<and> e_user_id e = user_id \<and> e_expunged e = None) (joined db)) of
          None \<Rightarrow> Inl ErrNotFound
        | Some (e, m) \<Rightarrow> Inr (without_envelope (user_view db e m))))"

definition MessageRaw :: "db \<Rightarrow> string \<Rightarrow> store_error + user_message" where
  "MessageRaw db i = GetMessage db [] i True"

definition ListAttachments :: "db \<Rightarrow> string \<Rightarrow> attachment list" where
  "ListAttachments db message_id =
     map (\<lambda>a. a\<lparr>at_content := []\<rparr>) (filter (\<lambda>a. at_message_id a = message_id) (attachments db))"

definition GetAttachment :: "db \<Rightarrow> string \<Rightarrow> string \<Rightarrow> bool \<Rightarrow> store_error + attachment" where
  "GetAttachment db user_id attachment_id admin =
     of_option ErrNotFound (find (\<lambda>a. at_id a = attachment_id
       \<and> (admin \<or> list_ex (\<lambda>e. e_message_id e = at_message_id a \<and> e_user_id e = user_id
                       \<and> e_expunged e = None) (entries db))) (attachments db))"

end
