(* ===== verification/ImapStore.thy ===== *)
theory ImapStore
  imports MailboxOps
begin

text \<open>
  \<open>internal/store/imap.go\<close>: the operations of the store behind the IMAP server. Copying and moving
  give every new entry a fresh UID of the destination; expunging hides entries of archived messages
  and removes those of drafts, and with the last entry the draft itself.
\<close>

definition clampUint32 :: "int \<Rightarrow> int" where
  "clampUint32 value = (if value < 0 then 0 else if value > 4294967295 then 4294967295 else value)"

record imap_mailbox =
  im_id :: string
  im_user_id :: string
  im_name :: string
  im_uid_validity :: int
  im_uid_next :: int
  im_subscribed :: bool

record imap_entry =
  ie_id :: string
  ie_mailbox_id :: string
  ie_user_id :: string
  ie_message_id :: string
  ie_uid :: int
  ie_flags :: "string list"
  ie_internal_date :: time
  ie_size :: int

definition imap_mailbox_of :: "mailbox \<Rightarrow> imap_mailbox" where
  "imap_mailbox_of b =
     \<lparr>im_id = mb_id b, im_user_id = mb_user_id b, im_name = mb_name b,
      im_uid_validity = clampUint32 (mb_uid_validity b), im_uid_next = clampUint32 (mb_uid_next b),
      im_subscribed = mb_subscribed b\<rparr>"

definition IMAPListMailboxes :: "db \<Rightarrow> string \<Rightarrow> bool \<Rightarrow> imap_mailbox list" where
  "IMAPListMailboxes db user_id subscribed =
     map imap_mailbox_of
       (sort_key (\<lambda>b. ((if EqualFold (mb_name b) ''INBOX'' then 0 else 1 :: nat), ToLower (mb_name b)))
         (filter (\<lambda>b. mb_user_id b = user_id \<and> (subscribed \<longrightarrow> mb_subscribed b)) (mailboxes db)))"

definition IMAPGetMailbox :: "db \<Rightarrow> string \<Rightarrow> string \<Rightarrow> store_error + imap_mailbox" where
  "IMAPGetMailbox db user_id name =
     of_option ErrNotFound (map_option imap_mailbox_of (mailbox_named db user_id (TrimSpace name)))"

definition imap_entry_of :: "mailbox_entry \<times> message \<Rightarrow> imap_entry" where
  "imap_entry_of em = (case em of (e, m) \<Rightarrow>
     \<lparr>ie_id = e_id e, ie_mailbox_id = e_mailbox_id e, ie_user_id = e_user_id e,
      ie_message_id = e_message_id e, ie_uid = clampUint32 (e_uid e), ie_flags = e_flags e,
      ie_internal_date = e_internal_date e, ie_size = m_size m\<rparr>)"

definition visible :: "db \<Rightarrow> string \<Rightarrow> string \<Rightarrow> (mailbox_entry \<times> message) list" where
  "visible db user_id mailbox_id =
     sort_key (\<lambda>em. e_uid (fst em))
       (filter (\<lambda>(e, m). e_user_id e = user_id \<and> e_mailbox_id e = mailbox_id \<and> e_expunged e = None)
         (joined db))"

definition IMAPListEntries :: "db \<Rightarrow> string \<Rightarrow> string \<Rightarrow> imap_entry list" where
  "IMAPListEntries db user_id mailbox_id = map imap_entry_of (visible db user_id mailbox_id)"

definition IMAPEntryRaw :: "db \<Rightarrow> string \<Rightarrow> string \<Rightarrow> string \<Rightarrow> store_error + string" where
  "IMAPEntryRaw db user_id mailbox_id entry_id =
     of_option ErrNotFound (map_option (\<lambda>em. m_raw (snd em))
       (find (\<lambda>(e, m). e_id e = entry_id \<and> e_user_id e = user_id \<and> e_mailbox_id e = mailbox_id
          \<and> e_expunged e = None) (joined db)))"

text \<open>The \<open>WHERE\<close> clause of the updates: one visible entry of the user's mailbox.\<close>

definition selects :: "string \<Rightarrow> string \<Rightarrow> string \<Rightarrow> mailbox_entry \<Rightarrow> bool" where
  "selects user_id mailbox_id entry_id e \<longleftrightarrow>
     e_id e = entry_id \<and> e_user_id e = user_id \<and> e_mailbox_id e = mailbox_id \<and> e_expunged e = None"

definition IMAPSetEntryFlags :: "env \<Rightarrow> string \<Rightarrow> string \<Rightarrow> string \<Rightarrow> string list \<Rightarrow> db \<Rightarrow> store_error + db" where
  "IMAPSetEntryFlags env user_id mailbox_id entry_id flags db =
     (let normalized = normalizeFlags flags;
          deletedAt = (if containsFlag normalized Deleted then Some (clock env 0) else None)
      in update_entries_found (selects user_id mailbox_id entry_id)
           (\<lambda>e. e\<lparr>e_flags := normalized,
                  e_deleted := (case deletedAt of
                      None \<Rightarrow> None
                    | Some now \<Rightarrow> (case e_deleted e of None \<Rightarrow> Some now | Some t \<Rightarrow> Some t))\<rparr>) db)"

definition with_recent :: "string list \<Rightarrow> string list" where
  "with_recent flags = normalizeFlags (if containsFlag flags Recent then flags else flags @ [Recent])"

definition set_uid_next :: "string \<Rightarrow> int \<Rightarrow> db \<Rightarrow> db" where
  "set_uid_next mailbox_id n db =
     db\<lparr>mailboxes := update_where (\<lambda>b. mb_id b = mailbox_id) (\<lambda>b. b\<lparr>mb_uid_next := n\<rparr>) (mailboxes db)\<rparr>"

definition new_entry :: "env \<Rightarrow> nat \<Rightarrow> string \<Rightarrow> string \<Rightarrow> string \<Rightarrow> int \<Rightarrow> string list \<Rightarrow> time \<Rightarrow> mailbox_entry" where
  "new_entry env i mailbox_id user_id message_id uid flags internal_date =
     \<lparr>e_id = new_id env ''ent'' i, e_mailbox_id = mailbox_id, e_user_id = user_id, e_message_id = message_id,
      e_uid = uid, e_flags = flags, e_internal_date = internal_date, e_created = clock env 0,
      e_deleted = None, e_expunged = None\<rparr>"

text \<open>The body of the loop of \<open>IMAPCopyEntries\<close>; \<open>uidNext\<close> is threaded with the database.\<close>

definition copyEntry :: "env \<Rightarrow> string \<Rightarrow> string \<Rightarrow> nat \<times> imap_entry \<Rightarrow> db \<times> int \<Rightarrow> store_error + (db \<times> int)" where
  "copyEntry env user_id mailbox_id ie s =
     (let entry = snd ie; (db, uidNext) = s
      in bind_res (insert_entry db (new_entry env (fst ie) mailbox_id user_id (ie_message_id entry) uidNext
             (with_recent (ie_flags entry)) (ie_internal_date entry)))
           (\<lambda>db1. Inr (db1, uidNext + 1)))"

definition IMAPCopyEntries :: "env \<Rightarrow> string \<Rightarrow> string \<Rightarrow> imap_entry list \<Rightarrow> db \<Rightarrow> store_error + db" where
  "IMAPCopyEntries env user_id destination selected db =
     (if selected = [] then Inr db
      else (case mailbox_named db user_id destination of
          None \<Rightarrow> Inl ErrNotFound
        | Some b \<Rightarrow>
            (case user_by_id db user_id of
               None \<Rightarrow> Inl ErrNotFound
             | Some u \<Rightarrow>
                 (let additional = foldl (\<lambda>a e. wrap64 (a + ie_size e)) 0 selected
                  in guard_err (u_quota_bytes u > 0
                       \<and> wrap64 (used_bytes db user_id + additional) > u_quota_bytes u) ErrQuotaExceeded
                     (bind_res (fold_res (copyEntry env user_id (mb_id b)) (enumerate 0 selected)
                        (db, mb_uid_next b))
                       (\<lambda>(db1, uidNext). Inr (set_uid_next (mb_id b) uidNext db1)))))))"

definition IMAPDeleteMailbox :: "string \<Rightarrow> string \<Rightarrow> db \<Rightarrow> store_error + db" where
  "IMAPDeleteMailbox user_id name0 db =
     (let name = TrimSpace name0
      in guard_err (list_ex (\<lambda>systemName. EqualFold name systemName) SystemMailboxes) ErrForbidden
        (case mailbox_named db user_id name of
           None \<Rightarrow> Inl ErrNotFound
         | Some b \<Rightarrow>
             (let draftIDs = remdups (map (\<lambda>em. m_id (snd em)) (filter (\<lambda>(e, m). e_mailbox_id e = mb_id b
                     \<and> e_user_id e = user_id \<and> m_direction m = ''draft'') (joined db)))
              in fold_res (\<lambda>i db1. delete_messages db1 (orphaned_draft db1 i)) draftIDs
                   (delete_mailbox db (mb_id b) user_id))))"

definition DeleteMailbox :: "string \<Rightarrow> string \<Rightarrow> db \<Rightarrow> store_error + db" where
  "DeleteMailbox user_id name db = IMAPDeleteMailbox user_id name db"

text \<open>
  The body of the loop of \<open>IMAPMoveEntries\<close>: an entry that is no longer there is skipped. The
  counter is that of the IDs drawn.
\<close>

definition moveEntry :: "env \<Rightarrow> string \<Rightarrow> string \<Rightarrow> string \<Rightarrow> imap_entry \<Rightarrow> db \<times> int \<times> nat
    \<Rightarrow> store_error + (db \<times> int \<times> nat)" where
  "moveEntry env user_id source_id destination_id sel s =
     (let (db, uidNext, i) = s
      in case find (\<lambda>(e, m). selects user_id source_id (ie_id sel) e) (joined db) of
           None \<Rightarrow> Inr s
         | Some (e, m) \<Rightarrow>
             bind_res (insert_entry db (new_entry env i destination_id user_id (e_message_id e) uidNext
                 (with_recent (e_flags e)) (e_internal_date e)))
               (\<lambda>db1. Inr
                 (if m_direction m = ''draft''
                  then delete_entries (selects user_id source_id (ie_id sel)) db1
                  else update_entries (selects user_id source_id (ie_id sel)) (expunge_at (clock env 0)) db1,
                  uidNext + 1, i + 1)))"

definition IMAPMoveEntries :: "env \<Rightarrow> string \<Rightarrow> string \<Rightarrow> string \<Rightarrow> imap_entry list \<Rightarrow> db \<Rightarrow> store_error + db" where
  "IMAPMoveEntries env user_id source_id destination selected db =
     (if selected = [] then Inr db
      else (case mailbox_named db user_id destination of
          None \<Rightarrow> Inl ErrNotFound
        | Some b \<Rightarrow>
            bind_res (fold_res (moveEntry env user_id source_id (mb_id b)) selected (db, mb_uid_next b, 0))
              (\<lambda>(db1, uidNext, i). Inr (set_uid_next (mb_id b) uidNext db1))))"

text \<open>One candidate of \<open>IMAPExpungeDeleted\<close>: its entry, its message, and whether that is a draft.\<close>

definition expungeCandidate :: "env \<Rightarrow> string \<Rightarrow> string \<Rightarrow> mailbox_entry \<times> message \<Rightarrow> db \<times> int
    \<Rightarrow> store_error + (db \<times> int)" where
  "expungeCandidate env user_id mailbox_id em s =
     (let (e, m) = em; (db, count) = s; P = selects user_id mailbox_id (e_id e);
          rows = count_where P (entries db)
      in if m_direction m = ''draft''
         then (let db1 = delete_entries P db
               in if rows = 1 \<and> count_where (\<lambda>x. e_message_id x = e_message_id e) (entries db1) = 0
                  then bind_res (delete_messages db1 (\<lambda>x. m_id x = e_message_id e \<and> m_direction x = ''draft''))
                         (\<lambda>db2. Inr (db2, count + int rows))
                  else Inr (db1, count + int rows))
         else Inr (update_entries P (expunge_at (clock env 0)) db, count + int rows))"

definition IMAPExpungeDeleted :: "env \<Rightarrow> string \<Rightarrow> string \<Rightarrow> db \<Rightarrow> store_error + (db \<times> int)" where
  "IMAPExpungeDeleted env user_id mailbox_id db =
     fold_res (expungeCandidate env user_id mailbox_id)
       (filter (\<lambda>(e, m). containsFlag (e_flags e) Deleted) (visible db user_id mailbox_id)) (db, 0)"

definition IMAPMessageExists :: "db \<Rightarrow> string \<Rightarrow> bool" where
  "IMAPMessageExists db message_id = message_exists db message_id"

end
