(* ===== verification/QueueStore.thy ===== *)
theory QueueStore
  imports MailboxOps
begin

text \<open>
  The outgoing queue in the store: \<open>queue_status.go\<close> and the end of \<open>mail.go\<close>. An item is queued,
  claimed by a worker (\<open>Delivering\<close>), and then delivered, queued again or failed; an item whose
  worker stopped is queued again once its lease has run out.
\<close>

definition QueueReady :: "env \<Rightarrow> db \<Rightarrow> int \<Rightarrow> queue_item list" where
  "QueueReady env db limit =
     (let limit = (if limit < 1 \<or> limit > 100 then 20 else limit)
      in take (nat limit) (sort_key q_next_attempt
           (filter (\<lambda>q. q_status q = Queued \<and> q_next_attempt q \<le> clock env 0) (queue db))))"

definition ListQueue :: "db \<Rightarrow> int \<Rightarrow> queue_item list" where
  "ListQueue db limit =
     (let limit = (if limit < 1 \<or> limit > 500 then 100 else limit)
      in take (nat limit) (sort_key (\<lambda>q. - q_updated q) (queue db)))"

definition update_queue :: "(queue_item \<Rightarrow> bool) \<Rightarrow> (queue_item \<Rightarrow> queue_item) \<Rightarrow> db \<Rightarrow> db" where
  "update_queue P f db = db\<lparr>queue := update_where P f (queue db)\<rparr>"

definition ClaimQueue :: "env \<Rightarrow> db \<Rightarrow> string \<Rightarrow> db \<times> bool" where
  "ClaimQueue env db i =
     (let P = (\<lambda>q. q_id q = i \<and> q_status q = Queued)
      in (update_queue P (\<lambda>q. q\<lparr>q_status := Delivering, q_attempts := q_attempts q + 1,
                                q_updated := clock env 0\<rparr>) db,
          count_where P (queue db) = 1))"

definition CompleteQueue :: "env \<Rightarrow> db \<Rightarrow> string \<Rightarrow> db" where
  "CompleteQueue env db i =
     update_queue (\<lambda>q. q_id q = i)
       (\<lambda>q. q\<lparr>q_status := Delivered, q_delivered := Some (clock env 0), q_updated := clock env 0,
              q_last_error := []\<rparr>) db"

text \<open>The delay before the attempt after \<open>attempts\<close>.\<close>

definition retry_delay :: "int \<Rightarrow> duration" where
  "retry_delay attempts =
     (let exponent = min (max (attempts - 1) 0) 6;
          delay = 30 * minute * 2 ^ nat exponent
      in if delay > 24 * hour then 24 * hour else delay)"

definition truncate :: "string \<Rightarrow> nat \<Rightarrow> string" where
  "truncate value n = (if length value \<le> n then value else take n value)"

definition RetryQueue :: "env \<Rightarrow> db \<Rightarrow> string \<Rightarrow> int \<Rightarrow> int \<Rightarrow> string \<Rightarrow> db" where
  "RetryQueue env db i attempts maxAttempts lastError =
     (let status = (if attempts \<ge> maxAttempts then Failed else Queued)
      in update_queue (\<lambda>q. q_id q = i)
           (\<lambda>q. q\<lparr>q_status := status, q_next_attempt := clock env 0 + retry_delay attempts,
                  q_last_error := truncate lastError 2000, q_updated := clock env 1\<rparr>) db)"

definition RecoverStaleQueue :: "env \<Rightarrow> db \<Rightarrow> time \<Rightarrow> db \<times> int" where
  "RecoverStaleQueue env db staleBefore =
     (let P = (\<lambda>q. q_status q = Delivering \<and> q_updated q < staleBefore)
      in (update_queue P (\<lambda>q. q\<lparr>q_status := Queued, q_next_attempt := clock env 0,
              q_last_error := ''previous delivery worker stopped before completion'',
              q_updated := clock env 0\<rparr>) db,
          int (count_where P (queue db))))"

definition status_count :: "db \<Rightarrow> string \<Rightarrow> queue_status \<Rightarrow> nat" where
  "status_count db message_id st = count_where (\<lambda>q. q_message_id q = message_id \<and> q_status q = st) (queue db)"

definition transport_status :: "db \<Rightarrow> string \<Rightarrow> string" where
  "transport_status db message_id =
     (if status_count db message_id Queued + status_count db message_id Delivering > 0 then ''queued''
      else if status_count db message_id Failed > 0
      then (if status_count db message_id Delivered > 0 then ''partial'' else ''failed'')
      else ''delivered'')"

definition RefreshMessageTransportStatus :: "db \<Rightarrow> string \<Rightarrow> db" where
  "RefreshMessageTransportStatus db message_id =
     db\<lparr>messages := update_where (\<lambda>m. m_id m = message_id)
          (\<lambda>m. m\<lparr>m_status := transport_status db message_id\<rparr>) (messages db)\<rparr>"

end
