(* ===== verification/MailInvariants.thy ===== *)
theory MailInvariants
  imports ImapStore QueueStore
begin

text \<open>
  What the store promises about mail, over all the operations of \<open>mail.go\<close>, \<open>imap.go\<close> and
  \<open>queue_status.go\<close> in any order: the keys and references of the mailbox tables, UIDs that are
  unique and below \<open>uid_next\<close>, and the archive, where messages other than drafts, their attachments
  and the audit trail are only ever added to.
\<close>

section \<open>The invariant and the archive order\<close>

definition uid_ok :: "mailbox list \<Rightarrow> mailbox_entry \<Rightarrow> bool" where
  "uid_ok bs e \<longleftrightarrow> (\<exists>b \<in> set bs. mb_id b = e_mailbox_id e \<and> mb_user_id b = e_user_id e
     \<and> 1 \<le> e_uid e \<and> e_uid e < mb_uid_next b)"

definition mail_inv :: "db \<Rightarrow> bool" where
  "mail_inv db \<longleftrightarrow>
     distinct (map m_id (messages db)) \<and> distinct (map mb_id (mailboxes db)) \<and> distinct (map e_id (entries db))
     \<and> distinct (map (\<lambda>e. (e_mailbox_id e, e_uid e)) (entries db))
     \<and> (\<forall>b \<in> set (mailboxes db). 1 \<le> mb_uid_next b)
     \<and> (\<forall>e \<in> set (entries db). uid_ok (mailboxes db) e)
     \<and> (\<forall>e \<in> set (entries db). e_message_id e \<in> m_id ` set (messages db))
     \<and> (\<forall>m \<in> set (messages db). 0 \<le> m_size m)"

text \<open>The same message, whatever its transport status.\<close>

definition same_mail :: "message \<Rightarrow> message \<Rightarrow> bool" where
  "same_mail m m' \<longleftrightarrow> m'\<lparr>m_status := m_status m\<rparr> = m"

definition retained :: "db \<Rightarrow> string \<Rightarrow> bool" where
  "retained db i \<longleftrightarrow> (\<exists>m \<in> set (messages db). m_id m = i \<and> m_direction m \<noteq> ''draft'')"

definition archive_le :: "db \<Rightarrow> db \<Rightarrow> bool" where
  "archive_le db db' \<longleftrightarrow>
     (\<forall>m \<in> set (messages db). m_direction m \<noteq> ''draft'' \<longrightarrow> (\<exists>m' \<in> set (messages db'). same_mail m m'))
     \<and> (\<forall>a \<in> set (attachments db). retained db (at_message_id a) \<longrightarrow> a \<in> set (attachments db'))
     \<and> (\<exists>rows. audit_log db' = audit_log db @ rows)"

lemma same_mail_refl [simp]: "same_mail m m"
  by (simp add: same_mail_def)

lemma same_mail_trans: "same_mail a b \<Longrightarrow> same_mail b c \<Longrightarrow> same_mail a c"
  by (cases a; cases b; cases c) (auto simp: same_mail_def)

lemma same_mail_fields: "same_mail m m' \<Longrightarrow> m_id m' = m_id m \<and> m_direction m' = m_direction m \<and> m_raw m' = m_raw m"
  by (cases m; cases m') (auto simp: same_mail_def)

lemma archive_le_refl [simp]: "archive_le db db"
  by (auto simp: archive_le_def intro: same_mail_refl)

lemma archive_le_trans [trans]:
  assumes "archive_le a b" and "archive_le b c"
  shows "archive_le a c"
proof -
  have keep: "\<exists>m'' \<in> set (messages c). same_mail m m''"
    if mem: "m \<in> set (messages a)" "m_direction m \<noteq> ''draft''" for m
  proof -
    obtain m' where m': "m' \<in> set (messages b)" "same_mail m m'"
      using assms(1) mem unfolding archive_le_def by blast
    then have "m_direction m' \<noteq> ''draft''" using mem(2) same_mail_fields by simp
    then obtain m'' where "m'' \<in> set (messages c)" "same_mail m' m''"
      using assms(2) m'(1) unfolding archive_le_def by blast
    then show ?thesis using m'(2) same_mail_trans by blast
  qed
  have "retained b i" if ret: "retained a i" for i
  proof -
    obtain m where m: "m \<in> set (messages a)" "m_id m = i" "m_direction m \<noteq> ''draft''"
      using ret unfolding retained_def by blast
    then obtain m' where "m' \<in> set (messages b)" "same_mail m m'"
      using assms(1) unfolding archive_le_def by blast
    then show ?thesis using m same_mail_fields [of m m'] unfolding retained_def by auto
  qed
  then have "\<forall>x \<in> set (attachments a). retained a (at_message_id x) \<longrightarrow> x \<in> set (attachments c)"
    using assms unfolding archive_le_def by blast
  moreover have "\<exists>rows. audit_log c = audit_log a @ rows"
    using assms unfolding archive_le_def by auto
  ultimately show ?thesis using keep unfolding archive_le_def by blast
qed

lemma mail_inv_cong:
  assumes "messages db' = messages db" "mailboxes db' = mailboxes db" "entries db' = entries db"
  shows "mail_inv db' \<longleftrightarrow> mail_inv db"
  by (simp add: mail_inv_def assms)

lemma archive_le_cong:
  assumes "messages db' = messages db" "attachments db' = attachments db" "audit_log db' = audit_log db"
  shows "archive_le db db'"
  using assms by (auto simp: archive_le_def intro: same_mail_refl)

text \<open>One operation is good when it keeps the invariant and the archive.\<close>

definition good_step :: "db \<Rightarrow> db \<Rightarrow> bool" where
  "good_step db db' \<longleftrightarrow> (mail_inv db \<longrightarrow> mail_inv db' \<and> archive_le db db')"

lemma good_step_refl [simp]: "good_step db db"
  by (simp add: good_step_def)

lemma good_step_trans [trans]: "good_step a b \<Longrightarrow> good_step b c \<Longrightarrow> good_step a c"
  unfolding good_step_def using archive_le_trans by blast

lemma good_step_frame:
  assumes "messages db' = messages db" "mailboxes db' = mailboxes db" "entries db' = entries db"
    "attachments db' = attachments db" "audit_log db' = audit_log db"
  shows "good_step db db'"
  using assms mail_inv_cong [of db' db] archive_le_cong [of db' db] by (simp add: good_step_def)

lemma fold_res_good:
  assumes "fold_res f xs db = Inr db'" and "\<And>x d d'. f x d = Inr d' \<Longrightarrow> good_step d d'"
  shows "good_step db db'"
  using assms(1) by (rule fold_res_inv [where P = "good_step db"]) (auto intro: good_step_trans assms(2))

section \<open>Rows added\<close>

lemma good_insert_message [step_inv]:
  assumes "insert_message db m = Inr db'"
  shows "good_step db db'"
proof -
  have "\<forall>x \<in> set (messages db). m_id x \<noteq> m_id m" and "0 \<le> m_size m"
    and db': "db' = db\<lparr>messages := messages db @ [m]\<rparr>"
    using assms by (auto simp: insert_message_def message_exists_def list_ex_iff)
  then show ?thesis
    by (auto simp: good_step_def mail_inv_def archive_le_def intro: same_mail_refl)
qed

lemma good_insert_attachment [step_inv]:
  assumes "insert_attachment db a = Inr db'"
  shows "good_step db db'"
  using assms by (auto simp: insert_attachment_def good_step_def mail_inv_def archive_le_def intro: same_mail_refl)

lemma good_insert_queue [step_inv]:
  assumes "insert_queue db q = Inr db'"
  shows "good_step db db'"
  using assms by (auto simp: insert_queue_def intro: good_step_frame)

lemma good_audit_if [step_inv]:
  assumes "audit_if env k db tt ti event = Inr db'"
  shows "good_step db db'"
  using audit_if_Inr [OF assms] by (auto simp: good_step_def mail_inv_def archive_le_def intro: same_mail_refl)

lemma good_insertAudit [step_inv]:
  assumes "insertAudit env k db event = Inr db'"
  shows "good_step db db'"
  using insertAudit_Inr(1) [OF assms] by (auto simp: good_step_def mail_inv_def archive_le_def intro: same_mail_refl)

lemma uid_ok_append: "uid_ok bs e \<Longrightarrow> uid_ok (bs @ cs) e"
  by (auto simp: uid_ok_def)

lemma good_insert_mailbox [step_inv]:
  assumes "insert_mailbox db b = Inr db'" and "mb_uid_next b = 1"
  shows "good_step db db'"
proof -
  have "\<forall>x \<in> set (mailboxes db). mb_id x \<noteq> mb_id b"
    and db': "db' = db\<lparr>mailboxes := mailboxes db @ [b]\<rparr>"
    using assms(1) by (auto simp: insert_mailbox_def list_ex_iff)
  then show ?thesis using assms(2)
    by (auto simp: good_step_def mail_inv_def archive_le_def uid_ok_append intro: same_mail_refl)
qed

section \<open>A new UID\<close>

lemma mailbox_named_Some:
  assumes "mailbox_named db user_id name = Some b"
  shows "b \<in> set (mailboxes db)" "mb_user_id b = user_id" "EqualFold (mb_name b) name"
  using find_SomeD [OF assms [unfolded mailbox_named_def]] by auto

lemma map_id_set_uid_next [simp]:
  "map mb_id (mailboxes (set_uid_next i n db)) = map mb_id (mailboxes db)"
  by (simp add: set_uid_next_def update_where_def)

lemma set_uid_next_frame [simp]:
  "messages (set_uid_next i n db) = messages db" "entries (set_uid_next i n db) = entries db"
  "attachments (set_uid_next i n db) = attachments db" "audit_log (set_uid_next i n db) = audit_log db"
  by (simp_all add: set_uid_next_def)

lemma mailboxes_set_uid_next_entries [simp]:
  "mailboxes (set_uid_next i n (entries_update f db)) = mailboxes (set_uid_next i n db)"
  by (simp add: set_uid_next_def)

lemma distinct_mb:
  assumes "distinct (map mb_id bs)" "b \<in> set bs" "b' \<in> set bs" "mb_id b = mb_id b'"
  shows "b = b'"
  using assms by (auto simp: distinct_map dest: inj_onD)

lemma set_uid_next_same:
  assumes "distinct (map mb_id (mailboxes db))" and "b \<in> set (mailboxes db)"
  shows "set_uid_next (mb_id b) (mb_uid_next b) db = db"
proof -
  have "update_where (\<lambda>x. mb_id x = mb_id b) (\<lambda>x. x\<lparr>mb_uid_next := mb_uid_next b\<rparr>) (mailboxes db) = mailboxes db"
    unfolding update_where_def by (intro map_idI) (auto dest: distinct_mb [OF assms(1) _ assms(2)])
  then show ?thesis by (simp add: set_uid_next_def)
qed

lemma bump_uid_set:
  assumes "distinct (map mb_id (mailboxes db))" and "b \<in> set (mailboxes db)"
  shows "bump_uid (mb_id b) db = set_uid_next (mb_id b) (mb_uid_next b + 1) db"
proof -
  have "update_where (\<lambda>x. mb_id x = mb_id b) (\<lambda>x. x\<lparr>mb_uid_next := mb_uid_next x + 1\<rparr>) (mailboxes db)
      = update_where (\<lambda>x. mb_id x = mb_id b) (\<lambda>x. x\<lparr>mb_uid_next := mb_uid_next b + 1\<rparr>) (mailboxes db)"
    unfolding update_where_def using distinct_mb [OF assms(1) _ assms(2)] by (intro map_cong) auto
  then show ?thesis by (simp add: bump_uid_def set_uid_next_def)
qed

lemma uid_ok_set_uid_next_le:
  assumes "uid_ok (mailboxes (set_uid_next i n db)) e" and "n \<le> k"
  shows "uid_ok (mailboxes (set_uid_next i k db)) e"
proof -
  from assms(1) obtain b where b: "b \<in> set (mailboxes (set_uid_next i n db))" "mb_id b = e_mailbox_id e"
    "mb_user_id b = e_user_id e" "1 \<le> e_uid e" "e_uid e < mb_uid_next b"
    by (auto simp: uid_ok_def)
  from b(1) obtain b0 where "b0 \<in> set (mailboxes db)"
    and "b = (if mb_id b0 = i then b0\<lparr>mb_uid_next := n\<rparr> else b0)"
    unfolding set_uid_next_def by (auto elim: in_update_whereE)
  then show ?thesis using b(2-) assms(2) unfolding uid_ok_def set_uid_next_def
    by (intro bexI [of _ "if mb_id b0 = i then b0\<lparr>mb_uid_next := k\<rparr> else b0"])
      (auto simp: set_update_where split: if_splits)
qed

lemma uid_bound_in:
  assumes "uid_ok (mailboxes (set_uid_next i n db)) e" and "e_mailbox_id e = i"
  shows "e_uid e < n"
  using assms by (auto simp: uid_ok_def set_uid_next_def set_update_where split: if_splits)

text \<open>The key step: an entry with the next UID, and the counter one further.\<close>

lemma mail_inv_append_entry:
  assumes inv: "mail_inv (set_uid_next i n db)" and b: "b \<in> set (mailboxes db)" "mb_id b = i"
    and e: "mb_user_id b = e_user_id e" "e_mailbox_id e = i" "e_uid e = n"
    and fresh: "\<forall>x \<in> set (entries db). e_id x \<noteq> e_id e" and m: "e_message_id e \<in> m_id ` set (messages db)"
    and n: "1 \<le> n"
  shows "mail_inv (set_uid_next i (n + 1) (db\<lparr>entries := entries db @ [e]\<rparr>))"
proof -
  have old: "uid_ok (mailboxes (set_uid_next i n db)) x" if "x \<in> set (entries db)" for x
    using inv that by (simp add: mail_inv_def)
  have "uid_ok (mailboxes (set_uid_next i (n + 1) db)) x" if "x \<in> set (entries db)" for x
    using old [OF that] by (rule uid_ok_set_uid_next_le) simp
  moreover have "uid_ok (mailboxes (set_uid_next i (n + 1) db)) e"
    unfolding uid_ok_def set_uid_next_def using b e n
    by (intro bexI [of _ "b\<lparr>mb_uid_next := n + 1\<rparr>"]) (auto simp: set_update_where intro: rev_image_eqI)
  moreover have "\<not> (e_mailbox_id x = i \<and> e_uid x = n)" if "x \<in> set (entries db)" for x
    using uid_bound_in [OF old [OF that]] by auto
  then have "(i, n) \<notin> (\<lambda>x. (e_mailbox_id x, e_uid x)) ` set (entries db)" by auto
  moreover have "\<forall>c \<in> set (mailboxes (set_uid_next i (n + 1) db)). 1 \<le> mb_uid_next c"
    using inv n unfolding mail_inv_def set_uid_next_def by (auto simp: set_update_where)
  ultimately show ?thesis
    using inv e fresh m by (auto simp: mail_inv_def)
qed

lemma insert_entry_Inr:
  assumes "insert_entry db e = Inr db'"
  shows "db' = db\<lparr>entries := entries db @ [e]\<rparr>" "\<forall>x \<in> set (entries db). e_id x \<noteq> e_id e"
    "e_message_id e \<in> m_id ` set (messages db)"
  using assms by (auto simp: insert_entry_def list_ex_iff message_exists_def intro: rev_image_eqI [OF _ sym])

lemma set_uid_next_twice [simp]: "set_uid_next i n (set_uid_next i k db) = set_uid_next i n db"
  by (auto simp: set_uid_next_def update_where_def)

lemma archive_le_set_uid_next [simp]: "archive_le db (set_uid_next i n db') \<longleftrightarrow> archive_le db db'"
  by (simp add: archive_le_def)

lemma archive_le_entries [simp]:
  "archive_le db (db'\<lparr>entries := es\<rparr>) \<longleftrightarrow> archive_le db db'"
  "archive_le db (db'\<lparr>mailboxes := bs\<rparr>) \<longleftrightarrow> archive_le db db'"
  "archive_le db (db'\<lparr>mailboxes := bs, entries := es\<rparr>) \<longleftrightarrow> archive_le db db'"
  by (simp_all add: archive_le_def)

lemma good_saveMailboxEntry [step_inv]:
  assumes "saveMailboxEntry env i dl message_id date db = Inr db'"
  shows "good_step db db'"
  unfolding good_step_def
proof
  assume inv: "mail_inv db"
  obtain b e db1 where b: "mailbox_named db (dl_user_id dl) (dl_mailbox dl) = Some b"
    and ins: "insert_entry db e = Inr db1" and db': "db' = bump_uid (mb_id b) db1"
    and e: "e_user_id e = dl_user_id dl" "e_mailbox_id e = mb_id b" "e_uid e = mb_uid_next b"
    using assms by (auto simp: saveMailboxEntry_def split: option.splits)
  note b' = mailbox_named_Some [OF b] and ins' = insert_entry_Inr [OF ins]
  have dist: "distinct (map mb_id (mailboxes db))" using inv by (simp add: mail_inv_def)
  have eq: "db' = set_uid_next (mb_id b) (mb_uid_next b + 1) (db\<lparr>entries := entries db @ [e]\<rparr>)"
    unfolding db' ins'(1) by (rule bump_uid_set) (simp_all add: dist b'(1))
  have "mail_inv db'"
    unfolding eq
    by (rule mail_inv_append_entry) (use inv b' e ins' dist in \<open>simp_all add: set_uid_next_same mail_inv_def\<close>)
  then show "mail_inv db' \<and> archive_le db db'" unfolding eq by simp
qed

section \<open>Rows changed or removed\<close>

lemma good_delete_entries [step_inv]: "good_step db (delete_entries P db)"
  by (auto simp: good_step_def delete_entries_def mail_inv_def distinct_map_filter)

lemma good_update_entries:
  assumes "\<And>e. e_id (f e) = e_id e \<and> e_mailbox_id (f e) = e_mailbox_id e \<and> e_user_id (f e) = e_user_id e
    \<and> e_message_id (f e) = e_message_id e \<and> e_uid (f e) = e_uid e"
  shows "good_step db (update_entries P f db)"
proof -
  have "map e_id (update_where P f es) = map e_id es"
    "map (\<lambda>e. (e_mailbox_id e, e_uid e)) (update_where P f es) = map (\<lambda>e. (e_mailbox_id e, e_uid e)) es" for es
    using assms by (simp_all add: map_update_where)
  moreover have "uid_ok bs (f e) \<longleftrightarrow> uid_ok bs e" for bs e
    using assms by (simp add: uid_ok_def)
  ultimately show ?thesis using assms
    by (auto simp: good_step_def update_entries_def mail_inv_def set_update_where)
qed

lemma good_update_entries_found:
  assumes "update_entries_found P f db = Inr db'"
    and "\<And>e. e_id (f e) = e_id e \<and> e_mailbox_id (f e) = e_mailbox_id e \<and> e_user_id (f e) = e_user_id e
    \<and> e_message_id (f e) = e_message_id e \<and> e_uid (f e) = e_uid e"
  shows "good_step db db'"
  using assms(1) good_update_entries [OF assms(2)] by (auto simp: update_entries_found_def)

lemma delete_messages_Inr:
  assumes "delete_messages db P = Inr db'"
  shows "db' = db\<lparr>messages := filter (\<lambda>m. \<not> P m) (messages db),
      attachments := filter (\<lambda>a. \<not> list_ex (\<lambda>m. m_id m = at_message_id a) (filter P (messages db)))
        (attachments db)\<rparr>"
    and "\<forall>m \<in> set (messages db). P m \<longrightarrow> m_direction m = ''draft''
      \<and> (\<forall>e \<in> set (entries db). e_message_id e \<noteq> m_id m)"
  using assms by (simp add: delete_messages_def Let_def) (use assms in \<open>auto simp: delete_messages_def Let_def list_ex_iff\<close>)

lemma good_delete_messages [step_inv]:
  assumes "delete_messages db P = Inr db'"
  shows "good_step db db'"
  unfolding good_step_def
proof
  assume inv: "mail_inv db"
  note del = delete_messages_Inr [OF assms]
  have dist: "distinct (map m_id (messages db))" using inv by (simp add: mail_inv_def)
  have "e_message_id e \<in> m_id ` set (filter (\<lambda>m. \<not> P m) (messages db))" if e: "e \<in> set (entries db)" for e
  proof -
    have "e_message_id e \<in> m_id ` set (messages db)" using inv e by (simp add: mail_inv_def)
    then obtain m where m: "m \<in> set (messages db)" "m_id m = e_message_id e" by auto
    then have "\<not> P m" using del(2) e by force
    with m show ?thesis by (intro rev_image_eqI [of m]) simp_all
  qed
  then have "mail_inv db'"
    using inv unfolding del(1) mail_inv_def by (auto simp: distinct_map_filter)
  moreover have "archive_le db db'"
  proof -
    have kept: "\<not> P m" if "m \<in> set (messages db)" "m_direction m \<noteq> ''draft''" for m
      using del(2) that by blast
    have "\<not> P x" if ret: "retained db i" and x: "x \<in> set (messages db)" "m_id x = i" for i x
    proof -
      obtain m where m: "m \<in> set (messages db)" "m_id m = i" "m_direction m \<noteq> ''draft''"
        using ret unfolding retained_def by blast
      then have "x = m" using dist x by (auto simp: distinct_map dest: inj_onD)
      then show ?thesis using kept m by simp
    qed
    then have "\<forall>a \<in> set (attachments db). retained db (at_message_id a) \<longrightarrow>
        \<not> list_ex (\<lambda>m. m_id m = at_message_id a) (filter P (messages db))"
      by (auto simp: list_ex_iff)
    moreover have "\<exists>m' \<in> set (filter (\<lambda>m. \<not> P m) (messages db)). same_mail m m'"
      if "m \<in> set (messages db)" "m_direction m \<noteq> ''draft''" for m
      using that kept by (intro bexI [of _ m]) simp_all
    ultimately show ?thesis unfolding del(1) archive_le_def by simp
  qed
  ultimately show "mail_inv db' \<and> archive_le db db'" ..
qed

lemma good_update_mailboxes:
  assumes "\<And>b. mb_id (f b) = mb_id b \<and> mb_user_id (f b) = mb_user_id b \<and> mb_uid_next (f b) = mb_uid_next b"
  shows "good_step db (db\<lparr>mailboxes := update_where P f (mailboxes db)\<rparr>)"
proof -
  have "map mb_id (update_where P f bs) = map mb_id bs" for bs
    using assms by (simp add: map_update_where)
  moreover have "uid_ok (update_where P f bs) e" if ok: "uid_ok bs e" for bs e
  proof -
    obtain b where "b \<in> set bs" "mb_id b = e_mailbox_id e" "mb_user_id b = e_user_id e"
      "1 \<le> e_uid e" "e_uid e < mb_uid_next b"
      using ok unfolding uid_ok_def by blast
    then show ?thesis using assms unfolding uid_ok_def set_update_where
      by (intro bexI [of _ "if P b then f b else b"]) simp_all
  qed
  ultimately show ?thesis using assms
    by (auto simp: good_step_def mail_inv_def set_update_where)
qed

lemma good_delete_mailbox [step_inv]: "good_step db (delete_mailbox db i u)"
proof -
  have "uid_ok (filter (\<lambda>b. \<not> (mb_id b = i \<and> mb_user_id b = u)) bs) e"
    if "uid_ok bs e" "\<not> list_ex (\<lambda>b. mb_id b = e_mailbox_id e) (filter (\<lambda>b. mb_id b = i \<and> mb_user_id b = u) bs)"
    for bs e
    using that by (auto simp: uid_ok_def list_ex_iff)
  then show ?thesis
    by (auto simp: good_step_def delete_mailbox_def Let_def mail_inv_def distinct_map_filter)
qed

lemma good_update_queue [step_inv]: "good_step db (update_queue P f db)"
  by (rule good_step_frame) (simp_all add: update_queue_def)

lemma good_Refresh [step_inv]: "good_step db (RefreshMessageTransportStatus db i)"
proof -
  define st where "st = transport_status db i"
  have ids: "map m_id (update_where P (\<lambda>m. m\<lparr>m_status := st\<rparr>) ms) = map m_id ms" for P ms
    by (simp add: map_update_where)
  have img: "m_id ` set (update_where P (\<lambda>m. m\<lparr>m_status := st\<rparr>) ms) = m_id ` set ms" for P ms
    using arg_cong [OF ids, of set] by simp
  have fields: "messages (RefreshMessageTransportStatus db i) =
      update_where (\<lambda>m. m_id m = i) (\<lambda>m. m\<lparr>m_status := st\<rparr>) (messages db)"
    "mailboxes (RefreshMessageTransportStatus db i) = mailboxes db"
    "entries (RefreshMessageTransportStatus db i) = entries db"
    by (simp_all add: RefreshMessageTransportStatus_def st_def)
  have same: "\<exists>m' \<in> set (update_where P (\<lambda>m. m\<lparr>m_status := st\<rparr>) ms). same_mail m m'"
    if "m \<in> set ms" for m P ms
    using that unfolding set_update_where
    by (intro bexI [of _ "if P m then m\<lparr>m_status := st\<rparr> else m"]) (simp_all add: same_mail_def)
  have sizes: "(\<forall>m \<in> set (update_where P (\<lambda>m. m\<lparr>m_status := st\<rparr>) ms). 0 \<le> m_size m)
      \<longleftrightarrow> (\<forall>m \<in> set ms. 0 \<le> m_size m)" for P ms
    by (induction ms) (simp_all add: update_where_def)
  have "mail_inv db \<Longrightarrow> mail_inv (RefreshMessageTransportStatus db i)"
    by (simp add: mail_inv_def fields img ids sizes)
  moreover have "archive_le db (RefreshMessageTransportStatus db i)"
    unfolding RefreshMessageTransportStatus_def st_def [symmetric] archive_le_def
    by (simp add: same)
  ultimately show ?thesis by (simp add: good_step_def)
qed

section \<open>The operations\<close>

lemma good_removeReplacedDraft [step_inv]:
  assumes "removeReplacedDraft r db = Inr db'"
  shows "good_step db db'"
  using assms good_step_trans [OF good_delete_entries good_delete_messages]
  by (auto simp: removeReplacedDraft_def split: option.splits if_splits)

lemma good_saveMessage [step_inv]:
  assumes "saveMessage cfg lib statfs env m0 atts dls rs replacement event db = Inr (db', m)"
  shows "good_step db db'"
proof -
  let ?k = "1 + length dls"
  obtain db1 db2 db3 db4 db5 where
    s1: "removeReplacedDraft replacement db = Inr db1" and s2: "insert_message db1 m = Inr db2"
    and s3: "fold_res (saveAttachment env (m_id m)) (enumerate 0 atts) db2 = Inr db3"
    and s4: "fold_res (saveDelivery env m) (enumerate 0 dls) db3 = Inr db4"
    and s5: "fold_res (enqueue env ?k (m_id m)) (enumerate 0 rs) db4 = Inr db5"
    and s6: "audit_if env (?k + length rs) db5 ''message'' (m_id m) event = Inr db'"
    using assms by (auto simp: saveMessage_def Let_def split: option.splits)
  have "good_step db db1" using s1 by (rule good_removeReplacedDraft)
  also have "good_step db1 db2" using s2 by (rule good_insert_message)
  also have "good_step db2 db3" using s3
    by (rule fold_res_good) (auto simp: saveAttachment_def Let_def intro: good_insert_attachment)
  also have "good_step db3 db4" using s4
    by (rule fold_res_good) (auto simp: saveDelivery_def Let_def intro: good_saveMailboxEntry)
  also have "good_step db4 db5" using s5
    by (rule fold_res_good) (auto simp: enqueue_def Let_def intro: good_insert_queue)
  also have "good_step db5 db'" using s6 by (rule good_audit_if)
  finally show ?thesis .
qed

lemma good_UpdateFlags [step_inv]: "UpdateFlags u i fs db = Inr db' \<Longrightarrow> good_step db db'"
  by (auto simp: UpdateFlags_def intro: good_update_entries_found split: option.splits)

lemma good_IMAPSetEntryFlags [step_inv]: "IMAPSetEntryFlags env u b i fs db = Inr db' \<Longrightarrow> good_step db db'"
  by (auto simp: IMAPSetEntryFlags_def Let_def intro: good_update_entries_found)

lemma good_expunge_at: "good_step db (update_entries P (expunge_at now) db)"
  by (rule good_update_entries) (simp add: expunge_at_def)

lemma good_ExpungeMessage [step_inv]:
  assumes "ExpungeMessage env u i db = Inr db'"
  shows "good_step db db'"
proof -
  have "good_step db db''" if "delete_messages (delete_entries P db) Q = Inr db''" for P Q db''
    using good_delete_entries good_delete_messages [OF that] by (rule good_step_trans)
  then show ?thesis using assms
    by (auto simp: ExpungeMessage_def Let_def update_entries_found_def
        intro: good_expunge_at split: option.splits if_splits)
qed

lemma good_CreateMailbox [step_inv]: "CreateMailbox env u n db = Inr db' \<Longrightarrow> good_step db db'"
  by (auto simp: CreateMailbox_def Let_def elim!: good_insert_mailbox)

lemma good_RenameMailbox [step_inv]: "RenameMailbox u a b db = Inr db' \<Longrightarrow> good_step db db'"
  by (auto simp: RenameMailbox_def Let_def intro!: good_update_mailboxes)

lemma good_SetMailboxSubscribed [step_inv]: "SetMailboxSubscribed u n s db = Inr db' \<Longrightarrow> good_step db db'"
  by (auto simp: SetMailboxSubscribed_def Let_def intro!: good_update_mailboxes)

lemma good_IMAPDeleteMailbox [step_inv]:
  assumes "IMAPDeleteMailbox u n db = Inr db'"
  shows "good_step db db'"
proof -
  obtain k ids where "fold_res (\<lambda>i db1. delete_messages db1 (orphaned_draft db1 i)) ids
      (delete_mailbox db k u) = Inr db'"
    using assms by (auto simp: IMAPDeleteMailbox_def Let_def split: option.splits)
  then have "good_step (delete_mailbox db k u) db'"
    by (rule fold_res_good) (rule good_delete_messages)
  with good_delete_mailbox show ?thesis by (rule good_step_trans)
qed

lemma good_expungeCandidate:
  assumes "expungeCandidate env u b em (d, n) = Inr (d', n')"
  shows "good_step d d'"
  using assms good_step_trans [OF good_delete_entries good_delete_messages]
  by (auto simp: expungeCandidate_def Let_def good_expunge_at good_delete_entries split: if_splits prod.splits)

lemma good_IMAPExpungeDeleted [step_inv]:
  assumes "IMAPExpungeDeleted env u b db = Inr (db', n)"
  shows "good_step db db'"
proof -
  have "good_step db (fst (db', n))"
    using assms unfolding IMAPExpungeDeleted_def
    by (rule fold_res_inv [where P = "\<lambda>s. good_step db (fst s)"])
      (auto intro: good_step_trans [OF _ good_expungeCandidate])
  then show ?thesis by simp
qed

text \<open>The loops that copy and move, where the counter of the destination is kept in a variable.\<close>

definition loop_inv :: "db \<Rightarrow> string \<Rightarrow> string \<Rightarrow> db \<Rightarrow> int \<Rightarrow> bool" where
  "loop_inv db i u d n \<longleftrightarrow> mail_inv (set_uid_next i n d) \<and> archive_le db d \<and> 1 \<le> n
     \<and> (\<exists>b \<in> set (mailboxes d). mb_id b = i \<and> mb_user_id b = u)"

lemma loop_inv_start:
  assumes "mail_inv db" and "mailbox_named db u name = Some b"
  shows "loop_inv db (mb_id b) u db (mb_uid_next b)"
  using assms mailbox_named_Some [OF assms(2)]
  by (auto simp: loop_inv_def mail_inv_def set_uid_next_same)

lemma loop_inv_insert:
  assumes "loop_inv db i u d n" and "insert_entry d (new_entry env k i u mi n fs date) = Inr d'"
  shows "loop_inv db i u d' (n + 1)"
proof -
  obtain b where b: "b \<in> set (mailboxes d)" "mb_id b = i" "mb_user_id b = u"
    using assms(1) by (auto simp: loop_inv_def)
  note ins = insert_entry_Inr [OF assms(2)]
  have "mail_inv (set_uid_next i (n + 1) (d\<lparr>entries := entries d @ [new_entry env k i u mi n fs date]\<rparr>))"
    by (rule mail_inv_append_entry [OF _ b(1,2)])
      (use assms(1) b(3) ins in \<open>simp_all add: loop_inv_def new_entry_def\<close>)
  then show ?thesis using assms(1) b unfolding ins(1) by (auto simp: loop_inv_def)
qed

lemma loop_inv_step:
  assumes "loop_inv db i u d n" and "good_step (set_uid_next i n d) (set_uid_next i n d')"
    and "mailboxes d' = mailboxes d"
  shows "loop_inv db i u d' n"
proof -
  have "archive_le d d'"
    using assms(1,2) by (auto simp: loop_inv_def good_step_def archive_le_def retained_def)
  then show ?thesis
    using assms archive_le_trans [of db d d'] by (auto simp: loop_inv_def good_step_def)
qed

lemma loop_inv_end:
  assumes "loop_inv db i u d n"
  shows "mail_inv (set_uid_next i n d) \<and> archive_le db (set_uid_next i n d)"
  using assms by (simp add: loop_inv_def)

lemma loop_entries_commute:
  "set_uid_next i n (delete_entries P d) = delete_entries P (set_uid_next i n d)"
  "set_uid_next i n (update_entries P f d) = update_entries P f (set_uid_next i n d)"
  by (simp_all add: set_uid_next_def delete_entries_def update_entries_def)

lemma good_IMAPCopyEntries [step_inv]:
  assumes "IMAPCopyEntries env u dest sel db = Inr db'"
  shows "good_step db db'"
  unfolding good_step_def
proof
  assume inv: "mail_inv db"
  show "mail_inv db' \<and> archive_le db db'"
  proof (cases "sel = []")
    case False
    then obtain b d n where b: "mailbox_named db u dest = Some b"
      and loop: "fold_res (copyEntry env u (mb_id b)) (enumerate 0 sel) (db, mb_uid_next b) = Inr (d, n)"
      and db': "db' = set_uid_next (mb_id b) n d"
      using assms by (auto simp: IMAPCopyEntries_def Let_def split: option.splits)
    have "loop_inv db (mb_id b) u (fst (d, n)) (snd (d, n))"
      using loop
      by (rule fold_res_inv [where P = "\<lambda>s. loop_inv db (mb_id b) u (fst s) (snd s)"])
        (auto simp: copyEntry_def Let_def loop_inv_start [OF inv b] intro: loop_inv_insert split: prod.splits)
    then show ?thesis unfolding db' by (auto dest: loop_inv_end)
  qed (use assms inv in \<open>simp add: IMAPCopyEntries_def\<close>)
qed

lemma loop_inv_moveEntry:
  assumes "loop_inv db i u d n" and "moveEntry env u src i sel (d, n, k) = Inr (d', n', k')"
  shows "loop_inv db i u d' n'"
proof (cases "find (\<lambda>(e, m). selects u src (ie_id sel) e) (joined d)")
  case None
  then show ?thesis using assms by (simp add: moveEntry_def)
next
  case (Some em)
  obtain e m where em: "em = (e, m)" by force
  let ?P = "selects u src (ie_id sel)"
  obtain d1 where ins: "insert_entry d (new_entry env k i u (e_message_id e) n (with_recent (e_flags e))
      (e_internal_date e)) = Inr d1"
    and res: "d' = (if m_direction m = ''draft'' then delete_entries ?P d1
       else update_entries ?P (expunge_at (clock env 0)) d1)" "n' = n + 1"
    using assms(2) Some em by (auto simp: moveEntry_def)
  have "loop_inv db i u d1 (n + 1)" using assms(1) ins by (rule loop_inv_insert)
  then show ?thesis unfolding res
    by (rule loop_inv_step)
      (simp_all add: loop_entries_commute good_delete_entries good_expunge_at, simp_all add: delete_entries_def update_entries_def)
qed

lemma good_IMAPMoveEntries [step_inv]:
  assumes "IMAPMoveEntries env u src dest sel db = Inr db'"
  shows "good_step db db'"
  unfolding good_step_def
proof
  assume inv: "mail_inv db"
  show "mail_inv db' \<and> archive_le db db'"
  proof (cases "sel = []")
    case False
    then obtain b d n k where b: "mailbox_named db u dest = Some b"
      and loop: "fold_res (moveEntry env u src (mb_id b)) sel (db, mb_uid_next b, 0) = Inr (d, n, k)"
      and db': "db' = set_uid_next (mb_id b) n d"
      using assms by (auto simp: IMAPMoveEntries_def split: option.splits)
    have "loop_inv db (mb_id b) u (fst (d, n, k)) (fst (snd (d, n, k)))"
      using loop
      by (rule fold_res_inv [where P = "\<lambda>s. loop_inv db (mb_id b) u (fst s) (fst (snd s))"])
        (auto simp: loop_inv_start [OF inv b] intro: loop_inv_moveEntry)
    then show ?thesis unfolding db' by (auto dest: loop_inv_end)
  qed (use assms inv in \<open>simp add: IMAPMoveEntries_def\<close>)
qed

lemma mset_update_where_key:
  assumes "distinct (map k xs)" and "x \<in> set xs"
  shows "mset (update_where (\<lambda>y. k y = k x) f xs) = mset (filter (\<lambda>y. k y \<noteq> k x) xs @ [f x])"
  using assms
proof (induction xs)
  case (Cons y ys)
  have other: "update_where (\<lambda>z. k z = k x) f ys = ys" "filter (\<lambda>z. k z \<noteq> k x) ys = ys"
    if none: "\<forall>z \<in> set ys. k z \<noteq> k x"
  proof -
    show "update_where (\<lambda>z. k z = k x) f ys = ys"
      unfolding update_where_def using none by (intro map_idI) simp
    show "filter (\<lambda>z. k z \<noteq> k x) ys = ys"
      unfolding filter_id_conv using none by blast
  qed
  show ?case
  proof (cases "y = x")
    case True
    then have "\<forall>z \<in> set ys. k z \<noteq> k x" using Cons.prems(1) by (simp add: image_iff) metis
    then show ?thesis using True other by (simp add: update_where_def)
  next
    case False
    then have "x \<in> set ys" "k y \<noteq> k x" using Cons.prems by (auto simp: rev_image_eqI)
    then show ?thesis using Cons.IH Cons.prems by (simp add: update_where_def)
  qed
qed simp

lemma distinct_map_mset: "mset xs = mset ys \<Longrightarrow> distinct (map f xs) \<longleftrightarrow> distinct (map f ys)"
  by (rule mset_eq_imp_distinct_iff) simp

lemma mail_inv_perm:
  assumes "mset (entries db') = mset (entries db)" "messages db' = messages db" "mailboxes db' = mailboxes db"
  shows "mail_inv db' \<longleftrightarrow> mail_inv db"
  using distinct_map_mset [OF assms(1), of e_id] mset_eq_setD [OF assms(1)]
    distinct_map_mset [OF assms(1), of "\<lambda>e. (e_mailbox_id e, e_uid e)"]
  by (simp add: mail_inv_def assms(2,3))

lemma good_MoveMessage [step_inv]:
  assumes "MoveMessage env u i box db = Inr db'"
  shows "good_step db db'"
  unfolding good_step_def
proof
  assume inv: "mail_inv db"
  obtain e b where e: "pick_entry db u i = Some e" and b: "mailbox_named db u (TrimSpace box) = Some b"
    using assms by (auto simp: MoveMessage_def Let_def split: option.splits)
  note e' = pick_entry_Some [OF e] and b' = mailbox_named_Some [OF b]
  show "mail_inv db' \<and> archive_le db db'"
  proof (cases "e_mailbox_id e = mb_id b")
    case True
    then have "good_step db db'"
      using assms e b by (auto simp: MoveMessage_def Let_def intro!: good_update_entries)
    then show ?thesis using inv by (simp add: good_step_def)
  next
    case False
    obtain del where db': "db' = bump_uid (mb_id b) (update_entries (\<lambda>x. e_id x = e_id e)
        (\<lambda>x. x\<lparr>e_mailbox_id := mb_id b, e_uid := mb_uid_next b, e_deleted := del\<rparr>) db)"
      using assms e b False by (auto simp: MoveMessage_def Let_def split: if_splits)
    let ?e = "e\<lparr>e_mailbox_id := mb_id b, e_uid := mb_uid_next b, e_deleted := del\<rparr>"
    define d where "d = delete_entries (\<lambda>x. e_id x = e_id e) db"
    have inv_d: "mail_inv d" using inv good_delete_entries unfolding d_def good_step_def by blast
    have d: "mailboxes d = mailboxes db" "messages d = messages db"
      "entries d = filter (\<lambda>x. e_id x \<noteq> e_id e) (entries db)"
      by (simp_all add: d_def delete_entries_def)
    have dist: "distinct (map mb_id (mailboxes db))" "distinct (map e_id (entries db))"
      using inv by (simp_all add: mail_inv_def)
    have "mail_inv (set_uid_next (mb_id b) (mb_uid_next b + 1) (d\<lparr>entries := entries d @ [?e]\<rparr>))"
    proof (rule mail_inv_append_entry)
      show "mail_inv (set_uid_next (mb_id b) (mb_uid_next b) d)"
        using inv_d dist(1) b'(1) d(1) by (simp add: set_uid_next_same)
      show "e_message_id ?e \<in> m_id ` set (messages d)" "1 \<le> mb_uid_next b"
        using inv e'(1) b'(1) d by (simp_all add: mail_inv_def)
    qed (use b' e' d in simp_all)
    moreover have "db' = set_uid_next (mb_id b) (mb_uid_next b + 1) (update_entries (\<lambda>x. e_id x = e_id e)
        (\<lambda>x. x\<lparr>e_mailbox_id := mb_id b, e_uid := mb_uid_next b, e_deleted := del\<rparr>) db)"
      unfolding db' by (rule bump_uid_set) (simp_all add: update_entries_def dist(1) b'(1))
    ultimately have "mail_inv db'"
      using mset_update_where_key [OF dist(2) e'(1), of
          "\<lambda>x. x\<lparr>e_mailbox_id := mb_id b, e_uid := mb_uid_next b, e_deleted := del\<rparr>"]
      by (subst mail_inv_perm) (simp_all add: update_entries_def d set_uid_next_def)
    moreover have "archive_le db db'"
      by (rule archive_le_cong) (simp_all add: db' bump_uid_def update_entries_def)
    ultimately show ?thesis ..
  qed
qed

section \<open>Every sequence of operations\<close>

text \<open>One call of the store; \<open>commit\<close> is the transaction, which an error rolls back.\<close>

datatype mail_cmd =
    CSave store_config sql_lib "(int \<times> int) option" env message "attachment list" "delivery list"
      "string list" "(string \<times> string) option" "audit_event option"
  | CUpdateFlags string string "string list"
  | CMoveMessage env string string string
  | CExpungeMessage env string string
  | CCreateMailbox env string string
  | CRenameMailbox string string string
  | CSubscribe string string bool
  | CIMAPSetFlags env string string string "string list"
  | CIMAPCopy env string string "imap_entry list"
  | CIMAPMove env string string string "imap_entry list"
  | CIMAPDeleteMailbox string string
  | CIMAPExpunge env string string
  | CClaim env string
  | CComplete env string
  | CRetry env string int int string
  | CRecover env time
  | CRefresh string
  | CAudit env audit_event

definition commit :: "db \<Rightarrow> store_error + db \<Rightarrow> db" where
  "commit db r = (case r of Inl _ \<Rightarrow> db | Inr db' \<Rightarrow> db')"

fun mail_step :: "db \<Rightarrow> mail_cmd \<Rightarrow> db" where
  "mail_step db (CSave cfg lib statfs env m atts dls rs rep ev) =
     commit db (map_sum id fst (saveMessage cfg lib statfs env m atts dls rs rep ev db))"
| "mail_step db (CUpdateFlags u i fs) = commit db (UpdateFlags u i fs db)"
| "mail_step db (CMoveMessage env u i b) = commit db (MoveMessage env u i b db)"
| "mail_step db (CExpungeMessage env u i) = commit db (ExpungeMessage env u i db)"
| "mail_step db (CCreateMailbox env u n) = commit db (CreateMailbox env u n db)"
| "mail_step db (CRenameMailbox u a b) = commit db (RenameMailbox u a b db)"
| "mail_step db (CSubscribe u n s) = commit db (SetMailboxSubscribed u n s db)"
| "mail_step db (CIMAPSetFlags env u b i fs) = commit db (IMAPSetEntryFlags env u b i fs db)"
| "mail_step db (CIMAPCopy env u d sel) = commit db (IMAPCopyEntries env u d sel db)"
| "mail_step db (CIMAPMove env u src d sel) = commit db (IMAPMoveEntries env u src d sel db)"
| "mail_step db (CIMAPDeleteMailbox u n) = commit db (IMAPDeleteMailbox u n db)"
| "mail_step db (CIMAPExpunge env u b) = commit db (map_sum id fst (IMAPExpungeDeleted env u b db))"
| "mail_step db (CClaim env i) = fst (ClaimQueue env db i)"
| "mail_step db (CComplete env i) = CompleteQueue env db i"
| "mail_step db (CRetry env i a mx err) = RetryQueue env db i a mx err"
| "mail_step db (CRecover env t) = fst (RecoverStaleQueue env db t)"
| "mail_step db (CRefresh i) = RefreshMessageTransportStatus db i"
| "mail_step db (CAudit env ev) = commit db (Audit_event env db ev)"

lemma good_commit: "(\<And>db'. r = Inr db' \<Longrightarrow> good_step db db') \<Longrightarrow> good_step db (commit db r)"
  by (cases r) (simp_all add: commit_def)

lemma good_mail_step: "good_step db (mail_step db c)"
  by (cases c)
    (auto simp: map_sum_def ClaimQueue_def CompleteQueue_def RetryQueue_def RecoverStaleQueue_def
      Audit_event_def Let_def
      intro!: good_commit good_update_queue good_Refresh intro: step_inv split: sum.splits)

interpretation mail_machine: ordered_machine mail_step mail_inv archive_le
proof (unfold_locales)
  fix s t u :: db and c
  show "mail_inv s \<Longrightarrow> mail_inv (mail_step s c)" "mail_inv s \<Longrightarrow> archive_le s (mail_step s c)"
    using good_mail_step [of s c] by (simp_all add: good_step_def)
  show "archive_le s s" by simp
  show "archive_le s t \<Longrightarrow> archive_le t u \<Longrightarrow> archive_le s u" by (rule archive_le_trans)
qed

end
