(* ===== verification/RowFrame.thy ===== *)
theory RowFrame
  imports MailInvariants
begin

text \<open>
  Relations that every operation on mail respects. The locale \<open>quiet_relation\<close> takes a reflexive and
  transitive relation on databases that holds for the primitive changes of the mail tables but the
  queue, and lifts it to all the operations that queue nothing; \<open>mail_relation\<close> adds the new queue item
  and so all the operations except the worker's. The locale \<open>row_frame\<close> gives such a relation from a view
  \<open>keep\<close> of the database that the five mail tables do not show in: it holds whenever the view is the
  same, and for a new queue item. The theories of the accounts, of the queue worker and of the schema
  instantiate them.
\<close>

fun worker_cmd :: "mail_cmd \<Rightarrow> bool" where
  "worker_cmd (CClaim env i) = True"
| "worker_cmd (CComplete env i) = True"
| "worker_cmd (CRetry env i a mx err) = True"
| "worker_cmd (CRecover env t) = True"
| "worker_cmd c = False"

text \<open>The commands that put nothing into the queue.\<close>

fun quiet_cmd :: "mail_cmd \<Rightarrow> bool" where
  "quiet_cmd (CSave cfg lib statfs env m atts dls rs rep ev) = (rs = [])"
| "quiet_cmd c = (\<not> worker_cmd c)"

lemma quiet_not_worker: "quiet_cmd c \<Longrightarrow> \<not> worker_cmd c"
  by (cases c) simp_all

text \<open>A new UID or another subscription: the key columns of a mailbox stay.\<close>

definition same_box :: "mailbox \<Rightarrow> mailbox \<Rightarrow> bool" where
  "same_box b b' \<longleftrightarrow> mb_id b' = mb_id b \<and> mb_user_id b' = mb_user_id b \<and> mb_name b' = mb_name b"

locale quiet_relation =
  fixes R :: "db \<Rightarrow> db \<Rightarrow> bool"
  assumes refl: "R db db"
    and trans: "R db db1 \<Longrightarrow> R db1 db2 \<Longrightarrow> R db db2"
    and message: "insert_message db m = Inr db' \<Longrightarrow> R db db'"
    and attachment: "insert_attachment db a = Inr db' \<Longrightarrow> R db db'"
    and mailbox: "insert_mailbox db b = Inr db' \<Longrightarrow> R db db'"
    and audit_row: "insert_audit_row db r = Inr db' \<Longrightarrow> R db db'"
    and deleted: "delete_messages db gone = Inr db' \<Longrightarrow> R db db'"
    and entries: "R db (db\<lparr>entries := es\<rparr>)"
    and mailboxes: "(\<And>b. same_box b (f b)) \<Longrightarrow> R db (db\<lparr>mailboxes := update_where P f (mailboxes db)\<rparr>)"
    and renamed: "RenameMailbox u n1 n2 db = Inr db' \<Longrightarrow> R db db'"
    and mailbox_deleted: "R db (delete_mailbox db i u)"
    and status: "R db (db\<lparr>messages := update_where is_it (\<lambda>m. m\<lparr>m_status := s\<rparr>) (messages db)\<rparr>)"
begin

lemma updates:
  "R db (delete_entries P db)" "R db (update_entries P f db)" "R db (bump_uid i db)" "R db (set_uid_next i n db)"
  "R db (RefreshMessageTransportStatus db i)"
  "update_entries_found P f db = Inr db' \<Longrightarrow> R db db'"
  "insert_entry db e = Inr db' \<Longrightarrow> R db db'"
  by (auto simp: delete_entries_def update_entries_def bump_uid_def set_uid_next_def same_box_def insert_entry_def
      RefreshMessageTransportStatus_def update_entries_found_def intro!: entries mailboxes status)

lemma audit:
  "insertAudit env k db ev = Inr db' \<Longrightarrow> R db db'"
  "audit_if env k db tt ti event = Inr db' \<Longrightarrow> R db db'"
  by (auto simp: insertAudit_def audit_if_def Let_def intro: audit_row refl split: sum.splits option.splits)

lemma fold_R:
  assumes "fold_res f xs s = Inr s'" and "\<And>x t t'. f x t = Inr t' \<Longrightarrow> R (p t) (p t')"
  shows "R (p s) (p s')"
  using assms(1) by (rule fold_res_inv [where P = "\<lambda>t. R (p s) (p t)"]) (auto intro: refl trans assms(2))

lemma delete_first: "delete_messages (delete_entries P db) Q = Inr db' \<Longrightarrow> R db db'"
  using deleted updates(1) trans by blast

lemma saveMailboxEntry: "saveMailboxEntry env i dl mid date db = Inr db' \<Longrightarrow> R db db'"
  by (auto simp: saveMailboxEntry_def intro: trans [OF updates(7) updates(3)] split: option.splits)

text \<open>A saved message, if its queue items respect the relation.\<close>

lemma save_but_queue:
  assumes "saveMessage cfg lib statfs env m0 atts dls rs replacement event db = Inr (db', m)"
    and enqueued: "\<And>d d'. fold_res (enqueue env (1 + length dls) (m_id m)) (enumerate 0 rs) d = Inr d' \<Longrightarrow> R d d'"
  shows "R db db'"
proof -
  obtain db1 db2 db3 db4 db5 where
    s1: "removeReplacedDraft replacement db = Inr db1" and s2: "insert_message db1 m = Inr db2"
    and s3: "fold_res (saveAttachment env (m_id m)) (enumerate 0 atts) db2 = Inr db3"
    and s4: "fold_res (saveDelivery env m) (enumerate 0 dls) db3 = Inr db4"
    and s5: "fold_res (enqueue env (1 + length dls) (m_id m)) (enumerate 0 rs) db4 = Inr db5"
    and s6: "audit_if env (1 + length dls + length rs) db5 ''message'' (m_id m) event = Inr db'"
    using assms(1) by (auto simp: saveMessage_def Let_def split: option.splits)
  have "R db db1"
    using s1 by (auto simp: removeReplacedDraft_def intro: refl delete_first split: option.splits if_splits)
  moreover have "R db1 db2" using s2 by (rule message)
  moreover have "R db2 db3"
    using s3 by (rule fold_R [where p = "\<lambda>d. d"]) (auto simp: saveAttachment_def Let_def intro: attachment)
  moreover have "R db3 db4"
    using s4 by (rule fold_R [where p = "\<lambda>d. d"]) (auto simp: saveDelivery_def Let_def intro: saveMailboxEntry)
  moreover have "R db4 db5" using s5 by (rule enqueued)
  moreover have "R db5 db'" using s6 by (rule audit)
  ultimately show ?thesis by (blast intro: trans)
qed

lemma IMAPDeleteMailbox:
  assumes "IMAPDeleteMailbox u n db = Inr db'"
  shows "R db db'"
proof -
  obtain k ids where "fold_res (\<lambda>i db1. delete_messages db1 (orphaned_draft db1 i)) ids
      (delete_mailbox db k u) = Inr db'"
    using assms by (auto simp: IMAPDeleteMailbox_def Let_def split: option.splits)
  then have "R (delete_mailbox db k u) db'" by (rule fold_R [where p = "\<lambda>d. d"]) (rule deleted)
  then show ?thesis using mailbox_deleted trans by blast
qed

lemma IMAPExpungeDeleted:
  assumes "IMAPExpungeDeleted env u b db = Inr (db', n)"
  shows "R db db'"
proof -
  have "R (fst (db, 0 :: int)) (fst (db', n))"
    using assms unfolding IMAPExpungeDeleted_def
    by (rule fold_R) (auto simp: expungeCandidate_def Let_def intro: updates delete_first split: if_splits prod.splits)
  then show ?thesis by simp
qed

lemma IMAPCopyEntries:
  assumes "IMAPCopyEntries env u dest sel db = Inr db'"
  shows "R db db'"
proof (cases "sel = []")
  case False
  then obtain i k d n where loop: "fold_res (copyEntry env u i) (enumerate 0 sel) (db, k) = Inr (d, n)"
    and db': "db' = set_uid_next i n d"
    using assms by (auto simp: IMAPCopyEntries_def Let_def split: option.splits)
  have "R (fst (db, k)) (fst (d, n))"
    using loop by (rule fold_R) (auto simp: copyEntry_def Let_def intro: updates split: prod.splits)
  then show ?thesis using trans updates(4) by (auto simp: db')
qed (use assms in \<open>simp add: IMAPCopyEntries_def refl\<close>)

lemma IMAPMoveEntries:
  assumes "IMAPMoveEntries env u src dest sel db = Inr db'"
  shows "R db db'"
proof (cases "sel = []")
  case False
  then obtain i j d n k where loop: "fold_res (moveEntry env u src i) sel (db, j, 0) = Inr (d, n, k)"
    and db': "db' = set_uid_next i n d"
    using assms by (auto simp: IMAPMoveEntries_def split: option.splits)
  have "R (fst (db, j, 0 :: nat)) (fst (d, n, k))"
    using loop by (rule fold_R)
      (auto simp: moveEntry_def intro: refl trans [OF updates(7) updates(1)] trans [OF updates(7) updates(2)]
        split: option.splits if_splits prod.splits)
  then show ?thesis using trans updates(4) by (auto simp: db')
qed (use assms in \<open>simp add: IMAPMoveEntries_def refl\<close>)

lemma mailbox_ops:
  "UpdateFlags u i fs db = Inr db' \<Longrightarrow> R db db'"
  "IMAPSetEntryFlags env u b i fs db = Inr db' \<Longrightarrow> R db db'"
  "MoveMessage env u i b db = Inr db' \<Longrightarrow> R db db'"
  "ExpungeMessage env u i db = Inr db' \<Longrightarrow> R db db'"
  "CreateMailbox env u n db = Inr db' \<Longrightarrow> R db db'"
  "SetMailboxSubscribed u n s db = Inr db' \<Longrightarrow> R db db'"
  by (auto simp: UpdateFlags_def IMAPSetEntryFlags_def MoveMessage_def ExpungeMessage_def CreateMailbox_def
      SetMailboxSubscribed_def Let_def same_box_def
      intro: updates mailbox mailboxes delete_first trans [OF updates(2) updates(3)] split: option.splits if_splits)

lemma commit_R: "(\<And>db'. r = Inr db' \<Longrightarrow> R db db') \<Longrightarrow> R db (commit db r)"
  by (cases r) (simp_all add: commit_def refl)

lemma commit_fst_R: "(\<And>db' x. r = Inr (db', x) \<Longrightarrow> R db db') \<Longrightarrow> R db (commit db (map_sum id fst r))"
  by (cases r) (auto simp: commit_def refl)

lemma mail_step_but_save:
  assumes "\<not> worker_cmd c"
    and "\<And>cfg lib statfs env m atts dls rs rep ev db' m'. c = CSave cfg lib statfs env m atts dls rs rep ev
      \<Longrightarrow> saveMessage cfg lib statfs env m atts dls rs rep ev db = Inr (db', m') \<Longrightarrow> R db db'"
  shows "R db (mail_step db c)"
  using assms
  by (cases c) (auto simp: Audit_event_def
      intro!: commit_R commit_fst_R intro: mailbox_ops renamed updates(5)
        IMAPDeleteMailbox IMAPExpungeDeleted IMAPCopyEntries IMAPMoveEntries audit)

lemma mail_step_quiet:
  assumes "quiet_cmd c"
  shows "R db (mail_step db c)"
proof (rule mail_step_but_save)
  show "\<not> worker_cmd c" using assms by (rule quiet_not_worker)
  fix cfg lib statfs env m atts dls rs rep ev db' m'
  assume c: "c = CSave cfg lib statfs env m atts dls rs rep ev"
    and save: "saveMessage cfg lib statfs env m atts dls rs rep ev db = Inr (db', m')"
  have "rs = []" using assms c by simp
  then show "R db db'" using save_but_queue [OF save] by (simp add: refl)
qed

end

text \<open>The commands of the worker are the only ones outside.\<close>

locale mail_relation = quiet_relation +
  assumes queued: "insert_queue db q = Inr db' \<Longrightarrow> q_status q = Queued \<Longrightarrow> q_attempts q = 0 \<Longrightarrow> R db db'"
begin

lemma saveMessage:
  assumes "saveMessage cfg lib statfs env m0 atts dls rs replacement event db = Inr (db', m)"
  shows "R db db'"
proof (rule save_but_queue [OF assms])
  fix d d' assume "fold_res (enqueue env (1 + length dls) (m_id m)) (enumerate 0 rs) d = Inr d'"
  then show "R d d'" by (rule fold_R [where p = "\<lambda>d. d"]) (auto simp: enqueue_def Let_def dest: queued)
qed

lemma mail_step: "\<not> worker_cmd c \<Longrightarrow> R db (mail_step db c)"
  by (rule mail_step_but_save) (auto intro: saveMessage)

end

locale row_frame =
  fixes keep :: "db \<Rightarrow> 'k"
    and R :: "db \<Rightarrow> db \<Rightarrow> bool"
  assumes same: "keep db' = keep db \<Longrightarrow> R db db'"
    and frame_trans: "R db db1 \<Longrightarrow> R db1 db2 \<Longrightarrow> R db db2"
    and keep_rows: "keep (db\<lparr>messages := ms\<rparr>) = keep db" "keep (db\<lparr>attachments := ats\<rparr>) = keep db"
      "keep (db\<lparr>mailboxes := bs\<rparr>) = keep db" "keep (db\<lparr>entries := es\<rparr>) = keep db"
      "keep (db\<lparr>audit_log := evs\<rparr>) = keep db"
    and frame_queued: "insert_queue db q = Inr db' \<Longrightarrow> q_status q = Queued \<Longrightarrow> q_attempts q = 0 \<Longrightarrow> R db db'"

sublocale row_frame \<subseteq> mail_relation R
proof (unfold_locales, goal_cases)
  case (2 a b c) then show ?case by (rule frame_trans)
next
  case (13 db q db') then show ?case by (rule frame_queued)
qed (auto simp: insert_message_def insert_attachment_def insert_mailbox_def insert_audit_row_def delete_messages_def
    RenameMailbox_def delete_mailbox_def Let_def keep_rows intro!: same)

end
