(* ===== verification/StoreMachine.thy ===== *)
theory StoreMachine
  imports RowFrame Addressing
begin

text \<open>
  The store as one machine: every operation of \<open>internal/store\<close> that writes, in any order, from the
  empty database of a new installation. The invariant joins that of the mail tables (theory
  \<open>MailInvariants\<close>) with that of the accounts: unique users, sessions that never know a newer
  authentication version than their user, and at most twenty sessions per user. The order joins the
  archive with what never goes back for accounts: users and their versions, and the existence of an
  active administrator.
\<close>

section \<open>Mail operations leave the accounts alone\<close>

definition same_accounts :: "db \<Rightarrow> db \<Rightarrow> bool" where
  "same_accounts db db' \<longleftrightarrow> users db' = users db \<and> sessions db' = sessions db"

named_theorems accounts_frame

lemma same_accounts_refl [simp]: "same_accounts db db"
  by (simp add: same_accounts_def)

lemma same_accounts_trans [trans]: "same_accounts a b \<Longrightarrow> same_accounts b c \<Longrightarrow> same_accounts a c"
  by (simp add: same_accounts_def)

lemma same_accounts_rows [accounts_frame]:
  "insert_message db m = Inr db' \<Longrightarrow> same_accounts db db'"
  "insert_attachment db a = Inr db' \<Longrightarrow> same_accounts db db'"
  "insert_queue db q = Inr db' \<Longrightarrow> same_accounts db db'"
  "insert_mailbox db b = Inr db' \<Longrightarrow> same_accounts db db'"
  "insert_entry db e = Inr db' \<Longrightarrow> same_accounts db db'"
  "delete_messages db P = Inr db' \<Longrightarrow> same_accounts db db'"
  "update_entries_found Q f db = Inr db' \<Longrightarrow> same_accounts db db'"
  "insert_domain db d = Inr db' \<Longrightarrow> same_accounts db db'"
  "insert_alias db al = Inr db' \<Longrightarrow> same_accounts db db'"
  "insert_app_password db p = Inr db' \<Longrightarrow> same_accounts db db'"
  "insert_audit_row db r = Inr db' \<Longrightarrow> same_accounts db db'"
  by (auto simp: insert_message_def insert_attachment_def insert_queue_def insert_mailbox_def insert_entry_def
      delete_messages_def Let_def update_entries_found_def update_entries_def insert_domain_def insert_alias_def
      insert_app_password_def insert_audit_row_def same_accounts_def)

lemma same_accounts_audit [accounts_frame]:
  "insertAudit env k db ev = Inr db' \<Longrightarrow> same_accounts db db'"
  "audit_if env k db tt ti event = Inr db' \<Longrightarrow> same_accounts db db'"
  using insertAudit_Inr(1) [of env k db ev db'] audit_if_Inr [of env k db tt ti event db']
  by (auto simp: same_accounts_def)

lemma same_accounts_updates [simp]:
  "same_accounts db (delete_entries P d) \<longleftrightarrow> same_accounts db d"
  "same_accounts db (update_entries P f d) \<longleftrightarrow> same_accounts db d"
  "same_accounts db (bump_uid i d) \<longleftrightarrow> same_accounts db d"
  "same_accounts db (set_uid_next i n d) \<longleftrightarrow> same_accounts db d"
  "same_accounts db (delete_mailbox d i u) \<longleftrightarrow> same_accounts db d"
  "same_accounts db (update_queue Q g d) \<longleftrightarrow> same_accounts db d"
  "same_accounts db (RefreshMessageTransportStatus d i) \<longleftrightarrow> same_accounts db d"
  by (simp_all add: same_accounts_def delete_entries_def update_entries_def bump_uid_def set_uid_next_def
      delete_mailbox_def Let_def update_queue_def RefreshMessageTransportStatus_def)

lemma fold_res_accounts:
  assumes "fold_res f xs s = Inr s'" and "\<And>x t t'. f x t = Inr t' \<Longrightarrow> same_accounts (p t) (p t')"
  shows "same_accounts (p s) (p s')"
  using assms(1) by (rule fold_res_inv [where P = "\<lambda>t. same_accounts (p s) (p t)"])
    (auto intro: same_accounts_trans assms(2))

interpretation accounts: row_frame "\<lambda>db. (users db, sessions db)" same_accounts
  by unfold_locales (auto simp: same_accounts_def insert_queue_def)

lemma accounts_mail_step: "same_accounts db (mail_step db c)"
proof (cases "worker_cmd c")
  case True
  then show ?thesis
    by (cases c) (simp_all add: ClaimQueue_def CompleteQueue_def RetryQueue_def RecoverStaleQueue_def Let_def)
qed (rule accounts.mail_step)

section \<open>The invariant and the order of the accounts\<close>

definition user_emails :: "db \<Rightarrow> string list" where
  "user_emails db = map (\<lambda>u. ToLower (u_email u)) (users db)"

definition session_ok :: "user list \<Rightarrow> session \<Rightarrow> bool" where
  "session_ok us s \<longleftrightarrow> (\<exists>u \<in> set us. u_id u = s_user_id s \<and> s_auth_version s \<le> u_auth_version u)"

definition acct_inv :: "db \<Rightarrow> bool" where
  "acct_inv db \<longleftrightarrow> distinct (map u_id (users db)) \<and> distinct (user_emails db)
     \<and> (\<forall>s \<in> set (sessions db). session_ok (users db) s)
     \<and> distinct (map s_token_hash (sessions db))
     \<and> (\<forall>i. count_where (\<lambda>s. s_user_id s = i) (sessions db) \<le> maxActiveWebSessions)"

definition newer_user :: "user \<Rightarrow> user \<Rightarrow> bool" where
  "newer_user u u' \<longleftrightarrow> u_id u' = u_id u \<and> u_email u' = u_email u
     \<and> u_auth_version u \<le> u_auth_version u' \<and> u_protocol_auth_version u \<le> u_protocol_auth_version u'"

definition has_admin :: "db \<Rightarrow> bool" where
  "has_admin db \<longleftrightarrow> (\<exists>u \<in> set (users db). active_admin u)"

definition acct_le :: "db \<Rightarrow> db \<Rightarrow> bool" where
  "acct_le db db' \<longleftrightarrow> (\<forall>u \<in> set (users db). \<exists>u' \<in> set (users db'). newer_user u u')
     \<and> (has_admin db \<longrightarrow> has_admin db')"

lemma newer_user_refl [simp]: "newer_user u u"
  by (simp add: newer_user_def)

lemma acct_le_refl [simp]: "acct_le db db"
  by (auto simp: acct_le_def intro: newer_user_refl)

lemma acct_le_trans: "acct_le a b \<Longrightarrow> acct_le b c \<Longrightarrow> acct_le a c"
  unfolding acct_le_def newer_user_def by (metis order_trans)

definition good_acct :: "db \<Rightarrow> db \<Rightarrow> bool" where
  "good_acct db db' \<longleftrightarrow> (acct_inv db \<longrightarrow> acct_inv db' \<and> acct_le db db')"

named_theorems acct_step

lemma good_acct_refl [simp]: "good_acct db db"
  by (simp add: good_acct_def)

lemma good_acct_trans [trans]: "good_acct a b \<Longrightarrow> good_acct b c \<Longrightarrow> good_acct a c"
  unfolding good_acct_def using acct_le_trans by blast

lemma good_acct_same: "same_accounts db db' \<Longrightarrow> good_acct db db'"
  by (auto simp: same_accounts_def good_acct_def acct_inv_def acct_le_def user_emails_def has_admin_def
      intro: newer_user_refl)

lemma good_acct_insert_user [acct_step]:
  assumes "insert_user db u = Inr db'"
  shows "good_acct db db'"
proof -
  have fresh: "\<forall>x \<in> set (users db). u_id x \<noteq> u_id u \<and> ToLower (u_email x) \<noteq> ToLower (u_email u)"
    and db': "db' = db\<lparr>users := users db @ [u]\<rparr>"
    using assms by (auto simp: insert_user_def list_ex_iff EqualFold_def)
  then show ?thesis
    by (auto simp: good_acct_def acct_inv_def acct_le_def user_emails_def has_admin_def session_ok_def
        intro: newer_user_refl)
qed

lemma good_acct_sessions:
  assumes "acct_inv db" and "set ss \<subseteq> set (sessions db)" and "distinct (map s_token_hash ss)"
    and "\<And>i. count_where (\<lambda>s. s_user_id s = i) ss \<le> maxActiveWebSessions"
  shows "acct_inv (db\<lparr>sessions := ss\<rparr>)"
  using assms by (auto simp: acct_inv_def user_emails_def)

lemma good_acct_filter_sessions [acct_step]:
  "good_acct db (db\<lparr>sessions := filter P (sessions db)\<rparr>)"
proof -
  have "acct_inv db \<Longrightarrow> acct_inv (db\<lparr>sessions := filter P (sessions db)\<rparr>)"
    by (rule good_acct_sessions)
      (auto simp: acct_inv_def distinct_map_filter intro: le_trans [OF count_where_filter_le])
  then show ?thesis
    by (auto simp: good_acct_def acct_le_def has_admin_def intro: newer_user_refl)
qed

lemma good_acct_update_users:
  assumes "\<And>u. newer_user u (f u)" and "has_admin db \<Longrightarrow> has_admin (db\<lparr>users := update_where P f (users db)\<rparr>)"
  shows "good_acct db (db\<lparr>users := update_where P f (users db)\<rparr>)"
proof -
  have "map u_id (update_where P f us) = map u_id us"
    "map (\<lambda>u. ToLower (u_email u)) (update_where P f us) = map (\<lambda>u. ToLower (u_email u)) us" for us
    using assms(1) by (simp_all add: map_update_where newer_user_def)
  moreover have "session_ok (update_where P f us) s" if ok: "session_ok us s" for us s
  proof -
    obtain u where "u \<in> set us" "u_id u = s_user_id s" "s_auth_version s \<le> u_auth_version u"
      using ok unfolding session_ok_def by blast
    then show ?thesis using assms(1) [of u] unfolding session_ok_def set_update_where newer_user_def
      by (intro bexI [of _ "if P u then f u else u"]) auto
  qed
  moreover have "\<exists>u' \<in> set (update_where P f us). newer_user u u'" if "u \<in> set us" for u us
    using that assms(1) unfolding set_update_where
    by (intro bexI [of _ "if P u then f u else u"]) auto
  ultimately show ?thesis using assms(2)
    by (simp add: good_acct_def acct_inv_def acct_le_def user_emails_def)
qed

lemma good_acct_touch:
  assumes "\<And>u. newer_user u (f u)" and "\<And>u. active_admin (f u) = active_admin u"
  shows "good_acct db (touch_user i f db)"
  unfolding touch_user_def
proof (rule good_acct_update_users)
  assume "has_admin db"
  then obtain u where "u \<in> set (users db)" "active_admin u" by (auto simp: has_admin_def)
  then show "has_admin (db\<lparr>users := update_where (\<lambda>u. u_id u = i) f (users db)\<rparr>)"
    using assms(2) unfolding has_admin_def
    by (intro bexI [of _ "if u_id u = i then f u else u"]) (auto simp: set_update_where)
qed (rule assms(1))

section \<open>Account operations\<close>

lemma count_where_unique:
  "distinct xs \<Longrightarrow> (\<And>x. x \<in> set xs \<Longrightarrow> P x \<Longrightarrow> x = u) \<Longrightarrow> count_where P xs \<le> 1"
proof (induction xs)
  case (Cons x xs)
  have "count_where P xs = 0" if "P x"
  proof (rule ccontr)
    assume "count_where P xs \<noteq> 0"
    then obtain y where "y \<in> set xs" "P y" using count_where_pos [of P xs] by auto
    then have "y = x" using Cons.prems(2) [of y] Cons.prems(2) [of x] that by simp
    then show False using Cons.prems(1) \<open>y \<in> set xs\<close> by simp
  qed
  then show ?case using Cons by auto
qed simp

lemma update_columns_newer: "newer_user u (update_columns env up u)"
  by (simp add: newer_user_def update_columns_def Let_def split: option.splits)

lemma update_columns_role_status:
  "u_role (update_columns env up u) = (case up_role up of None \<Rightarrow> u_role u | Some r \<Rightarrow> r)"
  "u_status (update_columns env up u) = (case up_status up of None \<Rightarrow> u_status u | Some s \<Rightarrow> s)"
  by (simp_all add: update_columns_def Let_def split: option.splits)

lemma update_columns_auth:
  "u_auth_version (update_columns env up u) =
    (if up_password_hash up \<noteq> None \<or> up_status up \<noteq> None then u_auth_version u + 1 else u_auth_version u)"
  by (simp add: update_columns_def Let_def split: option.splits)

lemma admin_kept:
  assumes inv: "acct_inv db" and chk: "checkLastAdmin db i up = Inr x" and has: "has_admin db"
  shows "has_admin (db\<lparr>users := update_where (\<lambda>u. u_id u = i) (update_columns env up) (users db)\<rparr>)"
proof -
  have same_id: "u = v" if "u \<in> set (users db)" "v \<in> set (users db)" "u_id u = u_id v" for u v
    using inv that by (auto simp: acct_inv_def distinct_map dest: inj_onD)
  have keep: ?thesis if "v \<in> set (users db)" "active_admin (if u_id v = i then update_columns env up v else v)" for v
    using that unfolding has_admin_def
    by (intro bexI [of _ "if u_id v = i then update_columns env up v else v"]) (simp_all add: set_update_where)
  obtain a where a: "a \<in> set (users db)" "active_admin a" using has by (auto simp: has_admin_def)
  show ?thesis
  proof (cases "u_id a = i \<and> \<not> active_admin (update_columns env up a)")
    case False
    then show ?thesis using keep [OF a(1)] a(2) by auto
  next
    case True
    have "up_role up \<noteq> None \<or> up_status up \<noteq> None"
      using True a(2) by (auto simp: active_admin_def update_columns_role_status)
    moreover have "user_by_id db i = Some a"
      using find_distinct_key [of u_id "users db" a] inv a(1) True by (simp add: user_by_id_def acct_inv_def)
    ultimately have "\<not> count_where active_admin (users db) \<le> 1"
      using chk True a(2)
      by (auto simp: checkLastAdmin_def Let_def active_admin_def update_columns_role_status)
    moreover have "distinct (users db)" using inv by (simp add: acct_inv_def distinct_map)
    ultimately obtain v where v: "v \<in> set (users db)" "active_admin v" "v \<noteq> a"
      using count_where_unique [of "users db" active_admin a] by blast
    then have "u_id v \<noteq> i" using same_id [OF v(1) a(1)] True by auto
    then show ?thesis using keep [OF v(1)] v(2) by simp
  qed
qed

lemma good_acct_updateUser [acct_step]:
  assumes "updateUser env i up event db = Inr db'"
  shows "good_acct db db'"
proof -
  let ?db1 = "db\<lparr>users := update_where (\<lambda>u. u_id u = i) (update_columns env up) (users db)\<rparr>"
  obtain x where chk: "checkLastAdmin db i up = Inr x"
    and audit: "audit_if env 2 (revokeAccess env i up ?db1) ''user'' i event = Inr db'"
    using assms by (simp only: updateUser_def Let_def guard_err_Inr_iff bind_res_Inr_iff) blast
  have "good_acct db ?db1"
  proof (cases "acct_inv db")
    case True
    show ?thesis by (rule good_acct_update_users) (rule update_columns_newer, rule admin_kept [OF True chk])
  qed (simp add: good_acct_def)
  also have "good_acct ?db1 (revokeAccess env i up ?db1)"
  proof (cases "up_password_hash up \<noteq> None \<or> up_status up = Some StatusSuspended")
    case True
    have "good_acct ?db1 (?db1\<lparr>sessions := filter (\<lambda>s. s_user_id s \<noteq> i) (sessions ?db1)\<rparr>)"
      by (rule acct_step)
    then show ?thesis using True
      by (auto simp: revokeAccess_def good_acct_def acct_inv_def acct_le_def user_emails_def has_admin_def
          distinct_map_filter)
  qed (simp add: revokeAccess_def)
  also have "good_acct (revokeAccess env i up ?db1) db'"
    using audit by (intro good_acct_same accounts_frame)
  finally show ?thesis .
qed

lemma good_acct_createUser [acct_step]:
  assumes "createUser env email dn hash role q event db = Inr (db', u)"
  shows "good_acct db db'"
proof -
  obtain db1 db2 where s1: "insert_user db u = Inr db1"
    and s2: "fold_res (saveSystemMailbox env (u_id u)) (enumerate 0 SystemMailboxes) db1 = Inr db2"
    and s3: "audit_if env 1 db2 ''user'' (u_id u) event = Inr db'"
    using assms by (auto simp: createUser_def Let_def split: option.splits)
  have "good_acct db db1" using s1 by (rule acct_step)
  also have "good_acct db1 db2"
    by (rule good_acct_same, rule fold_res_accounts [OF s2, of "\<lambda>d. d"])
      (auto simp: saveSystemMailbox_def intro: accounts_frame)
  also have "good_acct db2 db'" using s3 by (intro good_acct_same accounts_frame)
  finally show ?thesis .
qed

lemma good_acct_Initialize [acct_step]:
  assumes "Initialize pa env token inp db = Inr (db', u, d)"
  shows "good_acct db db'"
proof -
  obtain db1 db2 db3 db4 k dn ev where s0: "insert_domain db d = Inr db1" and s1: "insert_user db1 u = Inr db2"
    and s2: "fold_res (saveSystemMailbox env (u_id u)) (enumerate 0 SystemMailboxes) db2 = Inr db3"
    and s3: "fold_res (saveRoleAlias env u dn) role_aliases (db3, 0) = Inr (db4, k)"
    and s4: "insert_audit_row db4 ev = Inr db'"
    using assms by (auto simp: Initialize_def Let_def split: option.splits)
  have "good_acct db db1" using s0 by (intro good_acct_same accounts_frame)
  also have "good_acct db1 db2" using s1 by (rule acct_step)
  also have "good_acct db2 db3"
    by (rule good_acct_same, rule fold_res_accounts [OF s2, of "\<lambda>d. d"])
      (auto simp: saveSystemMailbox_def intro: accounts_frame)
  also have "same_accounts (fst (db3, 0 :: nat)) (fst (db4, k))"
    using s3 by (rule fold_res_accounts)
      (auto simp: saveRoleAlias_def Let_def intro: accounts_frame split: prod.splits if_splits)
  then have "good_acct db3 db4" by (intro good_acct_same) simp
  also have "good_acct db4 db'" using s4 by (intro good_acct_same accounts_frame)
  finally show ?thesis .
qed

lemma length_filter_mset: "mset xs = mset ys \<Longrightarrow> length (filter P xs) = length (filter P ys)"
  by (metis mset_filter size_mset)

lemma evict_count:
  "count_where (\<lambda>s. s_user_id s = i) (evict_sessions i rows) \<le> maxActiveWebSessions - 1"
proof -
  let ?own = "filter (\<lambda>s. s_user_id s = i) rows"
  let ?newest = "rev (sort_key (\<lambda>s. (s_last_seen s, s_created s, s_id s)) ?own)"
  let ?k = "maxActiveWebSessions - 1"
  let ?gone = "set (map s_id (drop ?k ?newest))"
  have "count_where (\<lambda>s. s_user_id s = i) (evict_sessions i rows) = length (filter (\<lambda>s. s_id s \<notin> ?gone) ?own)"
    by (simp add: evict_sessions_def Let_def count_where_def conj_commute)
  also have "\<dots> = length (filter (\<lambda>s. s_id s \<notin> ?gone) ?newest)"
    by (rule length_filter_mset) simp
  also have "\<dots> = length (filter (\<lambda>s. s_id s \<notin> ?gone) (take ?k ?newest @ drop ?k ?newest))"
    by (simp only: append_take_drop_id)
  also have "\<dots> = length (filter (\<lambda>s. s_id s \<notin> ?gone) (take ?k ?newest))"
  proof -
    have "filter (\<lambda>s. s_id s \<notin> ?gone) (drop ?k ?newest) = []"
      by (auto simp: filter_empty_conv)
    then show ?thesis by (simp only: filter_append append_Nil2)
  qed
  also have "\<dots> \<le> ?k"
    by (rule le_trans [OF length_filter_le]) simp
  finally show ?thesis .
qed

lemma evict_other: "count_where P (evict_sessions i rows) \<le> count_where P rows"
  by (simp add: evict_sessions_def Let_def count_where_filter_le)

lemma set_evict: "set (evict_sessions i rows) \<subseteq> set rows"
  by (auto simp: evict_sessions_def Let_def)

lemma good_acct_CreateSession [acct_step]:
  assumes "CreateSession v env uid ver tok ip ua expire db = Inr (db', s)"
  shows "good_acct db db'"
  unfolding good_acct_def
proof
  assume inv: "acct_inv db"
  let ?ss = "evict_sessions uid (filter (\<lambda>s. \<not> s_expires s \<le> clock env 0) (sessions db))"
  obtain u where "u \<in> set (users db)" and u: "u_id u = uid" and s: "s_user_id s = uid"
      "s_auth_version s = u_auth_version u"
    and db': "db' = db\<lparr>sessions := ?ss @ [s]\<rparr>" and tok: "\<forall>x \<in> set ?ss. s_token_hash x \<noteq> s_token_hash s"
    using assms by (auto simp: CreateSession_def Let_def insert_session_def guard_err_def list_ex_iff
        split: option.splits if_splits dest!: find_SomeD)
  have "distinct (map s_token_hash ?ss)"
    using inv by (simp add: evict_sessions_def Let_def acct_inv_def distinct_map_filter)
  then have "distinct (map s_token_hash (?ss @ [s]))" using tok by auto
  moreover
  have cnt: "count_where (\<lambda>s. s_user_id s = i) ?ss \<le> (if i = uid then maxActiveWebSessions - 1 else maxActiveWebSessions)" for i
    using evict_count [of uid] inv
      order_trans [OF evict_other [of "\<lambda>s. s_user_id s = i" uid] count_where_filter_le
        [of "\<lambda>s. s_user_id s = i" "\<lambda>s. \<not> s_expires s \<le> clock env 0" "sessions db"]]
    by (auto simp: acct_inv_def intro: order_trans)
  have "count_where (\<lambda>s. s_user_id s = i) (?ss @ [s]) \<le> maxActiveWebSessions" for i
    using cnt [of i] s(1) by (simp add: maxActiveWebSessions_def split: if_splits)
  moreover have "session_ok (users db) s"
    using \<open>u \<in> set (users db)\<close> u s unfolding session_ok_def by auto
  moreover have "\<forall>x \<in> set ?ss. session_ok (users db) x"
    using inv set_evict unfolding acct_inv_def by fastforce
  ultimately show "acct_inv db' \<and> acct_le db db'"
    using inv unfolding db' by (auto simp: acct_inv_def acct_le_def user_emails_def has_admin_def intro: newer_user_refl)
qed

lemma good_acct_seen:
  "good_acct db (db\<lparr>sessions := update_where P (\<lambda>x. x\<lparr>s_last_seen := t\<rparr>) (sessions db)\<rparr>)"
proof -
  have "count_where (\<lambda>s. s_user_id s = i) (update_where P (\<lambda>x. x\<lparr>s_last_seen := t\<rparr>) ss)
      = count_where (\<lambda>s. s_user_id s = i) ss" for i ss
    by (induction ss) (simp_all add: update_where_def)
  moreover have "map s_token_hash (update_where P (\<lambda>x. x\<lparr>s_last_seen := t\<rparr>) ss) = map s_token_hash ss" for ss
    by (simp add: map_update_where)
  ultimately show ?thesis
    by (auto simp: good_acct_def acct_inv_def acct_le_def user_emails_def has_admin_def session_ok_def
        set_update_where intro: newer_user_refl)
qed

lemma good_acct_UserForSession [acct_step]: "good_acct db (fst (UserForSession env tok db))"
  by (auto simp: UserForSession_def good_acct_seen split: option.splits)

lemma good_acct_frame_touch:
  assumes "same_accounts db d" and "\<And>u. newer_user u (f u)" and "\<And>u. active_admin (f u) = active_admin u"
  shows "good_acct db (touch_user i f d)"
  using good_acct_same [OF assms(1)] good_acct_touch [OF assms(2,3)] by (rule good_acct_trans)

lemma good_acct_Authenticate [acct_step]: "good_acct db (fst (Authenticate verify th env email pw app db))"
proof -
  have "good_acct db (d\<lparr>users := update_where (\<lambda>x. u_id x = i) (\<lambda>x. x\<lparr>u_last_login := t\<rparr>) (users d)\<rparr>)"
    if "same_accounts db d" for d i t
    using good_acct_frame_touch [OF that, of "\<lambda>x. x\<lparr>u_last_login := t\<rparr>" i]
    by (simp add: touch_user_def newer_user_def active_admin_def)
  then show ?thesis
    by (auto simp: Authenticate_def Let_def same_accounts_def split: sum.splits option.splits)
qed

lemma good_acct_app_passwords [acct_step]:
  "CreateAppPassword env uid n h db = Inr (db', p) \<Longrightarrow> good_acct db db'"
  "RevokeAppPassword env uid i db = Inr db' \<Longrightarrow> good_acct db db'"
  by (auto simp: CreateAppPassword_def RevokeAppPassword_def Let_def newer_user_def active_admin_def same_accounts_def
      intro!: good_acct_frame_touch intro: accounts_frame)

lemma accounts_domains_aliases [accounts_frame]:
  "createDomain env token n sel pub priv event db = Inr (db', d) \<Longrightarrow> same_accounts db db'"
  "createAlias env adr tgt event db = Inr (db', a) \<Longrightarrow> same_accounts db db'"
  by (auto simp: createDomain_def createAlias_def Let_def same_accounts_def
      dest!: same_accounts_rows(8,9) same_accounts_audit(2) split: option.splits)

lemma accounts_setDomainVerification [accounts_frame]:
  assumes "setDomainVerification env i v event db = Inr db'"
  shows "same_accounts db db'"
proof -
  obtain k d1 where audit: "audit_if env k d1 ''domain'' i event = Inr db'" and same: "same_accounts db d1"
    using assms by (auto simp: setDomainVerification_def Let_def same_accounts_def)
  show ?thesis by (rule same_accounts_trans [OF same same_accounts_audit(2) [OF audit]])
qed

section \<open>Account operations and the mail tables\<close>

lemma good_rows [step_inv]:
  "insert_domain db d = Inr db' \<Longrightarrow> good_step db db'"
  "insert_user db u = Inr db' \<Longrightarrow> good_step db db'"
  "insert_alias db a = Inr db' \<Longrightarrow> good_step db db'"
  "insert_app_password db p = Inr db' \<Longrightarrow> good_step db db'"
  "insert_session db s = Inr db' \<Longrightarrow> good_step db db'"
  by (auto simp: insert_domain_def insert_user_def insert_alias_def insert_app_password_def insert_session_def
      intro: good_step_frame)

lemma good_insert_audit_row: "insert_audit_row db r = Inr db' \<Longrightarrow> good_step db db'"
  by (auto simp: insert_audit_row_def good_step_def mail_inv_def archive_le_def intro: same_mail_refl)

lemma good_accounts_frame [simp]:
  "good_step db (d\<lparr>sessions := ss\<rparr>) \<longleftrightarrow> good_step db d"
  "good_step db (d\<lparr>users := us\<rparr>) \<longleftrightarrow> good_step db d"
  "good_step db (d\<lparr>app_passwords := ps\<rparr>) \<longleftrightarrow> good_step db d"
  "good_step db (d\<lparr>domains := ds\<rparr>) \<longleftrightarrow> good_step db d"
  "good_step db (touch_user i f d) \<longleftrightarrow> good_step db d"
  by (simp_all add: good_step_def mail_inv_def archive_le_def touch_user_def)

lemma good_saveSystemMailboxes:
  assumes "fold_res (saveSystemMailbox env i) xs db = Inr db'"
  shows "good_step db db'"
  using assms by (rule fold_res_good) (auto simp: saveSystemMailbox_def intro: good_insert_mailbox)

lemma good_createUser [step_inv]:
  assumes "createUser env email dn hash role q event db = Inr (db', u)"
  shows "good_step db db'"
proof -
  obtain db1 db2 where s1: "insert_user db u = Inr db1"
    and s2: "fold_res (saveSystemMailbox env (u_id u)) (enumerate 0 SystemMailboxes) db1 = Inr db2"
    and s3: "audit_if env 1 db2 ''user'' (u_id u) event = Inr db'"
    using assms by (auto simp: createUser_def Let_def split: option.splits)
  note good_rows(2) [OF s1] also note good_saveSystemMailboxes [OF s2] also note good_audit_if [OF s3]
  finally show ?thesis .
qed

lemma good_Initialize [step_inv]:
  assumes "Initialize pa env token inp db = Inr (db', u, d)"
  shows "good_step db db'"
proof -
  obtain db1 db2 db3 db4 k dn ev where s0: "insert_domain db d = Inr db1" and s1: "insert_user db1 u = Inr db2"
    and s2: "fold_res (saveSystemMailbox env (u_id u)) (enumerate 0 SystemMailboxes) db2 = Inr db3"
    and s3: "fold_res (saveRoleAlias env u dn) role_aliases (db3, 0) = Inr (db4, k)"
    and s4: "insert_audit_row db4 ev = Inr db'"
    using assms by (auto simp: Initialize_def Let_def split: option.splits)
  have "good_step db3 (fst (db4, k))"
    using s3 by (rule fold_res_inv [where P = "\<lambda>s. good_step db3 (fst s)"])
      (auto simp: saveRoleAlias_def Let_def intro: good_step_trans [OF _ good_rows(3)] split: prod.splits if_splits)
  then have s3': "good_step db3 db4" by simp
  note good_rows(1) [OF s0] also note good_rows(2) [OF s1] also note good_saveSystemMailboxes [OF s2]
  also note s3' also note good_insert_audit_row [OF s4]
  finally show ?thesis .
qed

lemma good_updateUser [step_inv]:
  assumes "updateUser env i up event db = Inr db'"
  shows "good_step db db'"
proof -
  obtain us where audit: "audit_if env 2 (revokeAccess env i up (db\<lparr>users := us\<rparr>)) ''user'' i event = Inr db'"
    using assms by (simp only: updateUser_def Let_def guard_err_Inr_iff bind_res_Inr_iff) blast
  have "good_step db (revokeAccess env i up (db\<lparr>users := us\<rparr>))"
    by (rule good_step_frame) (simp_all add: revokeAccess_def)
  also note good_audit_if [OF audit]
  finally show ?thesis .
qed

lemma good_setDomainVerification [step_inv]:
  assumes "setDomainVerification env i v event db = Inr db'"
  shows "good_step db db'"
proof -
  obtain k ds where audit: "audit_if env k (db\<lparr>domains := ds\<rparr>) ''domain'' i event = Inr db'"
    using assms by (auto simp: setDomainVerification_def Let_def)
  have "good_step db (db\<lparr>domains := ds\<rparr>)" by simp
  also note good_audit_if [OF audit]
  finally show ?thesis .
qed

lemma good_createDomain [step_inv]:
  assumes "createDomain env token n sel pub priv event db = Inr (db', d)"
  shows "good_step db db'"
proof -
  obtain db1 where s1: "insert_domain db d = Inr db1" and s2: "audit_if env 1 db1 ''domain'' (d_id d) event = Inr db'"
    using assms by (auto simp: createDomain_def Let_def)
  note good_rows(1) [OF s1] also note good_audit_if [OF s2]
  finally show ?thesis .
qed

lemma good_createAlias [step_inv]:
  assumes "createAlias env adr tgt event db = Inr (db', a)"
  shows "good_step db db'"
proof -
  obtain db1 where s1: "insert_alias db a = Inr db1" and s2: "audit_if env 1 db1 ''alias'' (a_id a) event = Inr db'"
    using assms by (auto simp: createAlias_def Let_def split: option.splits)
  note good_rows(3) [OF s1] also note good_audit_if [OF s2]
  finally show ?thesis .
qed

lemma good_CreateSession [step_inv]:
  assumes "CreateSession v env uid ver tok ip ua expire db = Inr (db', s)"
  shows "good_step db db'"
proof -
  obtain ss where "insert_session (db\<lparr>sessions := ss\<rparr>) s = Inr db'"
    using assms by (auto simp: CreateSession_def Let_def split: option.splits)
  then have "good_step (db\<lparr>sessions := ss\<rparr>) db'" by (rule good_rows)
  with good_accounts_frame(1) show ?thesis by (blast intro: good_step_trans good_step_refl)
qed

lemma good_app_passwords [step_inv]:
  "CreateAppPassword env uid n h db = Inr (db', p) \<Longrightarrow> good_step db db'"
  "RevokeAppPassword env uid i db = Inr db' \<Longrightarrow> good_step db db'"
  by (auto simp: CreateAppPassword_def RevokeAppPassword_def Let_def) (erule good_rows(4))

section \<open>Every history of the store\<close>

datatype store_cmd =
    Mail mail_cmd
  | AInitialize "string \<Rightarrow> string option" env string initial_setup
  | ACreateDomain env string string string string string "audit_event option"
  | ASetVerification env string bool "audit_event option"
  | ACreateUser env string string string string int "audit_event option"
  | AEnsurePostmaster env string string int
  | AUpdateUser env string user_update "audit_event option"
  | AAuthenticate "string \<Rightarrow> string \<Rightarrow> bool" "string \<Rightarrow> string" env string string bool
  | ACreateSession "string \<Rightarrow> bool" env string int string string string time
  | AUserForSession env string
  | ADeleteSession string
  | ADeleteExpired env
  | ACreateAppPassword env string string string
  | ARevokeAppPassword env string string
  | ACreateAlias env string string "audit_event option"

abbreviation commit_fst :: "db \<Rightarrow> store_error + (db \<times> 'a) \<Rightarrow> db" where
  "commit_fst db r \<equiv> commit db (map_sum id fst r)"

fun store_step :: "db \<Rightarrow> store_cmd \<Rightarrow> db" where
  "store_step db (Mail c) = mail_step db c"
| "store_step db (AInitialize pa env token inp) = commit_fst db (Initialize pa env token inp db)"
| "store_step db (ACreateDomain env token n sel pub priv ev) =
     commit_fst db (createDomain env token n sel pub priv ev db)"
| "store_step db (ASetVerification env i v ev) = commit db (setDomainVerification env i v ev db)"
| "store_step db (ACreateUser env email dn h role q ev) = commit_fst db (createUser env email dn h role q ev db)"
| "store_step db (AEnsurePostmaster env dn h q) = commit_fst db (EnsurePostmaster env dn h q db)"
| "store_step db (AUpdateUser env i up ev) = commit db (updateUser env i up ev db)"
| "store_step db (AAuthenticate verify th env email pw app) = fst (Authenticate verify th env email pw app db)"
| "store_step db (ACreateSession v env uid ver tok ip ua expire) =
     commit_fst db (CreateSession v env uid ver tok ip ua expire db)"
| "store_step db (AUserForSession env tok) = fst (UserForSession env tok db)"
| "store_step db (ADeleteSession tok) = DeleteSession tok db"
| "store_step db (ADeleteExpired env) = DeleteExpiredSessions env db"
| "store_step db (ACreateAppPassword env uid n h) = commit_fst db (CreateAppPassword env uid n h db)"
| "store_step db (ARevokeAppPassword env uid i) = commit db (RevokeAppPassword env uid i db)"
| "store_step db (ACreateAlias env adr tgt ev) = commit_fst db (createAlias env adr tgt ev db)"

lemma map_sum_fst_Inr [simp]: "map_sum id fst r = Inr x \<longleftrightarrow> (\<exists>y. r = Inr (x, y))"
  by (cases r) auto

lemma commit_cases: "(\<And>db'. r = Inr db' \<Longrightarrow> R db db') \<Longrightarrow> R db db \<Longrightarrow> R db (commit db r)"
  by (cases r) (auto simp: commit_def)

lemma good_EnsurePostmaster:
  "EnsurePostmaster env dn h q db = Inr (db', u) \<Longrightarrow> good_step db db' \<and> good_acct db db'"
  by (auto simp: EnsurePostmaster_def Let_def intro: good_createUser good_acct_createUser split: sum.splits if_splits)

lemmas good_account_ops = good_Initialize good_createDomain good_setDomainVerification good_createUser
  good_updateUser good_CreateSession good_app_passwords good_createAlias good_EnsurePostmaster [THEN conjunct1]

lemmas good_acct_ops = good_acct_Initialize accounts_domains_aliases [THEN good_acct_same]
  accounts_setDomainVerification [THEN good_acct_same] good_acct_createUser good_acct_updateUser
  good_acct_CreateSession good_acct_app_passwords good_EnsurePostmaster [THEN conjunct2]

lemma good_store_mail: "good_step db (store_step db c)"
proof (cases c)
  case (Mail x)
  then show ?thesis using good_mail_step by simp
next
  case (AAuthenticate verify th env email pw app)
  then show ?thesis
    by (simp add: Authenticate_def Let_def split: sum.splits option.splits)
next
  case (AUserForSession env tok)
  then show ?thesis by (simp add: UserForSession_def split: option.splits)
qed (auto simp: DeleteSession_def DeleteExpiredSessions_def intro!: commit_cases [where R = good_step]
    dest: good_account_ops)

lemma good_store_acct: "good_acct db (store_step db c)"
proof (cases c)
  case (Mail x)
  then show ?thesis using accounts_mail_step good_acct_same by simp
qed (auto simp: DeleteSession_def DeleteExpiredSessions_def good_acct_filter_sessions good_acct_Authenticate
    good_acct_UserForSession intro!: commit_cases [where R = good_acct] dest: good_acct_ops)

definition store_inv :: "db \<Rightarrow> bool" where
  "store_inv db \<longleftrightarrow> mail_inv db \<and> acct_inv db"

definition store_le :: "db \<Rightarrow> db \<Rightarrow> bool" where
  "store_le db db' \<longleftrightarrow> archive_le db db' \<and> acct_le db db'"

interpretation store_machine: ordered_machine store_step store_inv store_le
proof (unfold_locales)
  fix s t u :: db and c
  show "store_inv s \<Longrightarrow> store_inv (store_step s c)" "store_inv s \<Longrightarrow> store_le s (store_step s c)"
    using good_store_mail [of s c] good_store_acct [of s c]
    by (simp_all add: store_inv_def store_le_def good_step_def good_acct_def)
  show "store_le s s" by (simp add: store_le_def)
  show "store_le s t \<Longrightarrow> store_le t u \<Longrightarrow> store_le s u"
    unfolding store_le_def using archive_le_trans acct_le_trans by blast
qed

lemma store_inv_empty: "store_inv empty_db"
  by (simp add: store_inv_def mail_inv_def acct_inv_def empty_db_def user_emails_def)

lemmas store_inv_run = store_machine.inv_run [OF store_inv_empty]
lemmas store_le_run = store_machine.le_run_append [OF store_inv_empty]

end
