(* ===== verification/StoreProperties.thy ===== *)
theory StoreProperties
  imports StoreMachine
begin

text \<open>
  What holds in every history of the store, from an empty database through any sequence of its
  operations, failed ones included (they change nothing): the archive, the audit trail, UIDs,
  administrators and sessions.
\<close>

definition store_run :: "store_cmd list \<Rightarrow> db" where
  "store_run cs = foldl store_step empty_db cs"

lemma store_run_inv: "mail_inv (store_run cs)" "acct_inv (store_run cs)"
  using store_inv_run [of cs] by (simp_all add: store_run_def store_inv_def)

lemma store_run_le: "archive_le (store_run cs) (store_run (cs @ ds))" "acct_le (store_run cs) (store_run (cs @ ds))"
  using store_le_run [of cs ds] by (simp_all add: store_run_def store_le_def)

section \<open>A small history, for the examples\<close>

definition ex_env :: "nat \<Rightarrow> env" where
  "ex_env n = \<lparr>clock = (\<lambda>k. 1000000000 + int n), new_id = (\<lambda>p k. p @ [char_of (65 + n), char_of (65 + k)])\<rparr>"

definition ex_message :: message where
  "ex_message = \<lparr>m_id = ''m1'', m_rfc_id = ''r'', m_thread_key = [], m_envelope_from = [], m_envelope_to = [],
     m_from = ''x'', m_to = [''al''], m_cc = [], m_bcc = [], m_reply_to = [], m_subject = ''s'', m_text = ''t'',
     m_html = [], m_snippet = [], m_raw = ''raw'', m_size = 3, m_attachment_count = 0, m_direction = ''inbound'',
     m_status = ''received'', m_sent = None, m_received = 5, m_created = 5\<rparr>"

definition ex_config :: store_config where
  "ex_config = \<lparr>archiveLimit = 0, minFreeDisk = 0, databasePath = []\<rparr>"

definition ex_lib :: sql_lib where
  "ex_lib = \<lparr>sql_length = (\<lambda>s. int (length s)), json_list = (\<lambda>xs. ''['' @ concat xs @ '']'')\<rparr>"

definition ex_history :: "store_cmd list" where
  "ex_history = [ACreateDomain (ex_env 0) ''t'' ''b.io'' [] [] [] None,
     ACreateUser (ex_env 0) ''al@b.io'' ''Al'' ''h'' RoleAdmin 1000 None,
     Mail (CSave ex_config ex_lib None (ex_env 1) ex_message []
       [\<lparr>dl_user_id = ''usrAA'', dl_mailbox = [], dl_flags = []\<rparr>] [] None None)]"

text \<open>The state after it: one domain, one administrator with the six mailboxes, one message.\<close>

definition ex_mailbox :: "string \<Rightarrow> string \<Rightarrow> int \<Rightarrow> int \<Rightarrow> mailbox" where
  "ex_mailbox i name k nxt = \<lparr>mb_id = i, mb_user_id = ''usrAA'', mb_name = name, mb_uid_validity = k - 62135596799,
     mb_uid_next = nxt, mb_subscribed = True, mb_created = 1000000000\<rparr>"

definition ex_db :: db where
  "ex_db = empty_db
    \<lparr>domains := [\<lparr>d_id = ''domAA'', d_name = ''b.io'', d_status = ''pending'', d_verification = ''t'',
       d_selector = ''brclio'', d_public_key = [], d_private_key = [], d_created = 1000000000, d_verified = None\<rparr>],
     users := [\<lparr>u_id = ''usrAA'', u_domain_id = ''domAA'', u_local_part = ''al'', u_email = ''al@b.io'',
       u_display_name = ''Al'', u_password_hash = ''h'', u_role = RoleAdmin, u_status = StatusActive,
       u_auth_version = 1, u_protocol_auth_version = 1, u_quota_bytes = 1000, u_created = 1000000000,
       u_updated = 1000000000, u_last_login = None\<rparr>],
     messages := [ex_message],
     mailboxes := [ex_mailbox ''mbxAA'' ''INBOX'' 0 2, ex_mailbox ''mbxAB'' ''Drafts'' 1 1,
       ex_mailbox ''mbxAC'' ''Sent'' 2 1, ex_mailbox ''mbxAD'' ''Archive'' 3 1, ex_mailbox ''mbxAE'' ''Junk'' 4 1,
       ex_mailbox ''mbxAF'' ''Trash'' 5 1],
     entries := [\<lparr>e_id = ''entBA'', e_mailbox_id = ''mbxAA'', e_user_id = ''usrAA'', e_message_id = ''m1'', e_uid = 1,
       e_flags = [], e_internal_date = 5, e_created = 1000000001, e_deleted = None, e_expunged = None\<rparr>]\<rparr>"

lemma ex_history_db: "store_run ex_history = ex_db"
  by code_simp

lemma ex_history_messages: "messages (store_run ex_history) = [ex_message]"
  by (simp add: ex_history_db ex_db_def)

lemma ex_history_then: "store_run (ex_history @ cs) = foldl store_step ex_db cs"
  by (simp add: ex_history_db [unfolded store_run_def] store_run_def)

section \<open>Properties\<close>

text \<open>
  C15. Mail is never lost. A message that is in the store and is not a draft is there in every
  later state, whatever users and administrators do: moving, expunging, deleting mailboxes,
  suspending accounts. Every column keeps its value, the raw MIME included; only the transport
  status may change. Its attachments stay as well.
\<close>

theorem correspondence_retained:
  assumes "m \<in> set (messages (store_run cs))" and "m_direction m \<noteq> ''draft''"
  shows "(\<exists>m' \<in> set (messages (store_run (cs @ ds))). m'\<lparr>m_status := m_status m\<rparr> = m)
    \<and> (\<forall>a \<in> set (attachments (store_run cs)). at_message_id a = m_id m
      \<longrightarrow> a \<in> set (attachments (store_run (cs @ ds))))"
proof (intro conjI ballI impI)
  note le = store_run_le(1) [of cs ds]
  show "\<exists>m' \<in> set (messages (store_run (cs @ ds))). m'\<lparr>m_status := m_status m\<rparr> = m"
    using le assms unfolding archive_le_def same_mail_def by blast
  fix a assume "at_message_id a = m_id m" and "a \<in> set (attachments (store_run cs))"
  moreover have "retained (store_run cs) (m_id m)" using assms by (auto simp: retained_def)
  ultimately show "a \<in> set (attachments (store_run (cs @ ds)))"
    using le unfolding archive_le_def by simp
qed

theorem correspondence_retained_witness:
  "\<exists>m' \<in> set (messages (store_run (ex_history @ [Mail (CExpungeMessage (ex_env 2) ''usrAA'' ''m1'')]))).
     m'\<lparr>m_status := m_status ex_message\<rparr> = ex_message"
  by (rule correspondence_retained [THEN conjunct1]) (simp_all only: ex_history_messages, simp_all add: ex_message_def)

text \<open>
  C16. UIDs. In every history, each entry of a mailbox belongs to the mailbox's owner and has a UID
  from 1 up to but not including the mailbox's next UID, and no two entries of a mailbox, hidden
  ones included, have the same UID.
\<close>

theorem uids_unique:
  assumes "e \<in> set (entries (store_run cs))"
  shows "(\<exists>b \<in> set (mailboxes (store_run cs)). mb_id b = e_mailbox_id e \<and> mb_user_id b = e_user_id e
      \<and> 1 \<le> e_uid e \<and> e_uid e < mb_uid_next b)
    \<and> (\<forall>e' \<in> set (entries (store_run cs)). e_mailbox_id e' = e_mailbox_id e \<and> e_uid e' = e_uid e
      \<longrightarrow> e' = e)"
proof (intro conjI ballI impI)
  note inv = store_run_inv(1) [of cs]
  show "\<exists>b \<in> set (mailboxes (store_run cs)). mb_id b = e_mailbox_id e \<and> mb_user_id b = e_user_id e
      \<and> 1 \<le> e_uid e \<and> e_uid e < mb_uid_next b"
    using inv assms unfolding mail_inv_def uid_ok_def by blast
  have "inj_on (\<lambda>x. (e_mailbox_id x, e_uid x)) (set (entries (store_run cs)))"
    using inv unfolding mail_inv_def distinct_map by blast
  moreover fix e'
  assume "e' \<in> set (entries (store_run cs))" "e_mailbox_id e' = e_mailbox_id e \<and> e_uid e' = e_uid e"
  ultimately show "e' = e" using assms by (auto dest: inj_onD)
qed

theorem uids_unique_witness:
  "\<exists>b \<in> set (mailboxes (store_run ex_history)). mb_id b = ''mbxAA'' \<and> mb_user_id b = ''usrAA''
      \<and> 1 \<le> (1::int) \<and> 1 < mb_uid_next b"
  using uids_unique [of "hd (entries (store_run ex_history))" ex_history]
  by (simp add: ex_history_db ex_db_def empty_db_def)

text \<open>
  C17. The audit trail is append-only: the events of an earlier state are the beginning of those of
  every later one.
\<close>

theorem audit_append_only:
  "\<exists>rows. audit_log (store_run (cs @ ds)) = audit_log (store_run cs) @ rows"
  using store_run_le(1) [of cs ds] unfolding archive_le_def by blast

text \<open>
  C18. No lock-out. Once an active administrator exists, some active administrator exists in every
  later state: no sequence of demotions and suspensions removes the last one.
\<close>

theorem admin_never_lost:
  assumes "\<exists>u \<in> set (users (store_run cs)). u_role u = RoleAdmin \<and> u_status u = StatusActive"
  shows "\<exists>u \<in> set (users (store_run (cs @ ds))). u_role u = RoleAdmin \<and> u_status u = StatusActive"
  using store_run_le(2) [of cs ds] assms by (simp add: acct_le_def has_admin_def active_admin_def)

theorem admin_never_lost_witness:
  "\<exists>u \<in> set (users (store_run (ex_history @ [AUpdateUser (ex_env 3) ''usrAA''
     \<lparr>up_display_name = None, up_status = Some StatusSuspended, up_role = Some RoleUser, up_quota_bytes = None,
      up_password_hash = None\<rparr> None]))). u_role u = RoleAdmin \<and> u_status u = StatusActive"
  by (rule admin_never_lost) (simp add: ex_history_db ex_db_def)

lemma updateUser_effect:
  assumes "updateUser env i up event db = Inr db'"
  shows "\<exists>rows. db' = (revokeAccess env i up (db\<lparr>users := update_where (\<lambda>u. u_id u = i)
      (update_columns env up) (users db)\<rparr>))\<lparr>audit_log := audit_log (revokeAccess env i up (db\<lparr>users :=
      update_where (\<lambda>u. u_id u = i) (update_columns env up) (users db)\<rparr>)) @ rows\<rparr>"
proof -
  have "audit_if env 2 (revokeAccess env i up (db\<lparr>users := update_where (\<lambda>u. u_id u = i)
      (update_columns env up) (users db)\<rparr>)) ''user'' i event = Inr db'"
    using assms by (simp only: updateUser_def Let_def guard_err_Inr_iff bind_res_Inr_iff) blast
  from audit_if_Inr [OF this] show ?thesis by blast
qed

lemma session_stale:
  assumes "updateUser env i up event (store_run cs) = Inr db'"
    and "up_password_hash up \<noteq> None \<or> up_status up \<noteq> None"
    and "s \<in> set (sessions (store_run cs))" and "s_user_id s = i"
  shows "UserForSession env' (s_token_hash s) db' = (db', Inl ErrInvalidCredentials)"
proof -
  let ?db = "store_run cs"
  let ?db1 = "?db\<lparr>users := update_where (\<lambda>u. u_id u = i) (update_columns env up) (users ?db)\<rparr>"
  note inv = store_run_inv(2) [of cs]
  obtain rows where db': "db' = (revokeAccess env i up ?db1)\<lparr>audit_log := audit_log (revokeAccess env i up ?db1) @ rows\<rparr>"
    using updateUser_effect [OF assms(1)] by blast
  have users': "users db' = users ?db1" and sessions': "set (sessions db') \<subseteq> set (sessions ?db)"
    by (auto simp: db' revokeAccess_def)
  obtain u where u: "u \<in> set (users ?db)" "u_id u = i" "s_auth_version s \<le> u_auth_version u"
    using inv assms(3,4) unfolding acct_inv_def session_ok_def by blast
  have "\<not> (s_user_id t = u_id v \<and> s_token_hash t = s_token_hash s \<and> s_auth_version t = u_auth_version v)"
    if t: "t \<in> set (sessions db')" and v: "v \<in> set (users db')" for t v
  proof
    assume *: "s_user_id t = u_id v \<and> s_token_hash t = s_token_hash s \<and> s_auth_version t = u_auth_version v"
    have "t = s"
      using inv t sessions' assms(3) * unfolding acct_inv_def distinct_map by (meson inj_onD subsetD)
    obtain w where w: "w \<in> set (users ?db)" and v_w: "v = (if u_id w = i then update_columns env up w else w)"
    proof -
      have "v \<in> set (update_where (\<lambda>u. u_id u = i) (update_columns env up) (users ?db))"
        using v by (simp add: users')
      then show ?thesis by (rule in_update_whereE) (rule that)
    qed
    have "u_id v = u_id w"
      using update_columns_newer [of w env up] unfolding v_w by (simp add: newer_user_def)
    moreover have "u_id v = i" using * \<open>t = s\<close> assms(4) by simp
    ultimately have w_i: "u_id w = i" by simp
    have "inj_on u_id (set (users ?db))" using inv by (simp add: acct_inv_def distinct_map)
    then have "w = u" using w u(1,2) w_i by (auto dest: inj_onD)
    then have "v = update_columns env up u" using v_w u(2) by simp
    then have "u_auth_version v = u_auth_version u + 1"
      using assms(2) by (simp add: update_columns_auth)
    then show False using * \<open>t = s\<close> u(3) by simp
  qed
  then have "find (\<lambda>(t, v). s_user_id t = u_id v \<and> s_token_hash t = s_token_hash s \<and> s_expires t > clock env' 0
      \<and> u_status v = StatusActive \<and> s_auth_version t = u_auth_version v) (List.product (sessions db') (users db')) = None"
    unfolding find_None_iff set_product by blast
  then show "UserForSession env' (s_token_hash s) db' = (db', Inl ErrInvalidCredentials)"
    by (simp add: UserForSession_def)
qed

lemma app_passwords_revoked:
  assumes "updateUser env i up event db = Inr db'"
    and revoke: "up_password_hash up \<noteq> None \<or> up_status up = Some StatusSuspended"
    and p: "p \<in> set (app_passwords db')" "p_user_id p = i"
  shows "p_revoked p \<noteq> None"
proof -
  obtain rows where db': "db' = (revokeAccess env i up (db\<lparr>users := update_where (\<lambda>u. u_id u = i)
      (update_columns env up) (users db)\<rparr>))\<lparr>audit_log := rows\<rparr>"
    using updateUser_effect [OF assms(1)] by blast
  have "app_passwords db' = update_where (\<lambda>p. p_user_id p = i)
      (\<lambda>p. p\<lparr>p_revoked := (case p_revoked p of None \<Rightarrow> Some (clock env 1) | Some t \<Rightarrow> Some t)\<rparr>) (app_passwords db)"
    using revoke by (simp add: db' revokeAccess_def)
  with p(1) obtain q where "p = (if p_user_id q = i
      then q\<lparr>p_revoked := (case p_revoked q of None \<Rightarrow> Some (clock env 1) | Some t \<Rightarrow> Some t)\<rparr> else q)"
    by (simp only: in_update_where_iff) blast
  then show "p_revoked p \<noteq> None"
    using p(2) by (cases "p_user_id q = i"; cases "p_revoked q") simp_all
qed


definition ex_login :: "store_cmd list" where
  "ex_login = ex_history @ [ACreateSession (\<lambda>_. True) (ex_env 4) ''usrAA'' 1 ''tok'' [] [] 2000000000]"

definition ex_suspend :: user_update where
  "ex_suspend = \<lparr>up_display_name = None, up_status = Some StatusActive, up_role = None, up_quota_bytes = None,
     up_password_hash = Some ''new''\<rparr>"


end
