(* ===== verification/SaveContract.thy ===== *)
theory SaveContract
  imports StoreProperties
begin

text \<open>
  What one successful \<open>saveMessage\<close> guarantees: quotas, the archive limit, the rows it adds, and that
  its audit event is there. The estimate of the storage a message needs is compared with what the
  archive then occupies.
\<close>

section \<open>The quota\<close>

lemma find_append: "find P (xs @ ys) = (case find P xs of None \<Rightarrow> find P ys | Some x \<Rightarrow> Some x)"
  by (induction xs) auto

lemma message_by_id_Some: "mail_inv db \<Longrightarrow> e \<in> set (entries db) \<Longrightarrow> \<exists>m. message_by_id db (e_message_id e) = Some m"
proof -
  assume "mail_inv db" and "e \<in> set (entries db)"
  then have "e_message_id e \<in> m_id ` set (messages db)" by (simp add: mail_inv_def)
  then obtain m where "m \<in> set (messages db)" "m_id m = e_message_id e" by auto
  then show ?thesis
    using find_NoneD [of "\<lambda>m. m_id m = e_message_id e"] by (cases "message_by_id db (e_message_id e)")
      (auto simp: message_by_id_def)
qed

lemma entry_size_nonneg: "mail_inv db \<Longrightarrow> 0 \<le> entry_size db e"
  by (auto simp: entry_size_def message_by_id_def mail_inv_def split: option.splits dest: find_SomeD)

lemma used_bytes_cong: "messages db' = messages db \<Longrightarrow> entries db' = entries db \<Longrightarrow> used_bytes db' i = used_bytes db i"
  by (simp add: used_bytes_def entry_size_def [abs_def] message_by_id_def)

lemma used_bytes_insert_message:
  assumes "mail_inv db" and "insert_message db m = Inr db'"
  shows "used_bytes db' i = used_bytes db i" "message_by_id db' (m_id m) = Some m" "entries db' = entries db"
proof -
  have db': "db' = db\<lparr>messages := messages db @ [m]\<rparr>" and new: "\<forall>x \<in> set (messages db). m_id x \<noteq> m_id m"
    using assms(2) by (auto simp: insert_message_def message_exists_def list_ex_iff)
  have "entry_size db' e = entry_size db e" if "e \<in> set (entries db)" for e
    using message_by_id_Some [OF assms(1) that] by (auto simp: entry_size_def message_by_id_def db' find_append)
  then show "used_bytes db' i = used_bytes db i"
    unfolding used_bytes_def by (intro arg_cong [where f = sum_list] map_cong) (auto simp: db')
  have "find (\<lambda>x. m_id x = m_id m) (messages db) = None" using new by (simp add: find_None_iff)
  then show "message_by_id db' (m_id m) = Some m" "entries db' = entries db"
    by (simp_all add: message_by_id_def db' find_append)
qed

lemma used_bytes_saveDelivery:
  assumes "saveDelivery env m idl db = Inr db'" and "message_by_id db (m_id m) = Some m"
  shows "used_bytes db' i = used_bytes db i + (if dl_user_id (snd idl) = i then m_size m else 0)"
    "messages db' = messages db"
proof -
  obtain e k where db': "db' = bump_uid k (db\<lparr>entries := entries db @ [e]\<rparr>)"
    and e: "e_user_id e = dl_user_id (snd idl)" "e_message_id e = m_id m" "e_expunged e = None"
    using assms(1) by (auto simp: saveDelivery_def saveMailboxEntry_def Let_def insert_entry_def
        split: option.splits if_splits)
  show "messages db' = messages db" by (simp add: db' bump_uid_def)
  then have "entry_size db' = entry_size db"
    by (simp add: entry_size_def [abs_def] message_by_id_def)
  then show "used_bytes db' i = used_bytes db i + (if dl_user_id (snd idl) = i then m_size m else 0)"
    using e assms(2) by (simp add: used_bytes_def db' bump_uid_def entry_size_def)
qed

lemma used_bytes_deliveries:
  assumes "fold_res (saveDelivery env m) (enumerate k dls) db = Inr db'" and "message_by_id db (m_id m) = Some m"
  shows "used_bytes db' i = used_bytes db i + m_size m * int (count_where (\<lambda>dl. dl_user_id dl = i) dls)"
  using assms
proof (induction dls arbitrary: k db)
  case (Cons dl dls)
  then obtain db1 where one: "saveDelivery env m (k, dl) db = Inr db1"
    and rest: "fold_res (saveDelivery env m) (enumerate (Suc k) dls) db1 = Inr db'" by auto
  have "message_by_id db1 (m_id m) = Some m"
    using used_bytes_saveDelivery(2) [OF one Cons.prems(2)] Cons.prems(2) by (simp add: message_by_id_def)
  from Cons.IH [OF rest this] used_bytes_saveDelivery(1) [OF one Cons.prems(2), of i]
  show ?case by (simp add: distrib_left)
qed simp

lemma fold_res_frame:
  assumes "fold_res f xs s = Inr s'" and "\<And>x t t'. f x t = Inr t' \<Longrightarrow> p t' = p t"
  shows "p s' = p s"
  using assms(1) by (rule fold_res_inv [where P = "\<lambda>t. p t = p s"]) (auto dest: assms(2))

lemma checkQuotas_each:
  assumes "fold_res f xs () = Inr u" and "x \<in> set xs"
  shows "f x () = Inr ()"
  using assms by (induction xs) auto

lemma saveMessage_steps:
  assumes "saveMessage cfg lib statfs env m0 atts dls rs replacement event db = Inr (db', m)"
  obtains db1 db2 db3 db4 db5 where "m = defaultMessage env m0"
    "ensureDiskReserve cfg statfs (estimatedMessageStorage m atts) = None"
    "removeReplacedDraft replacement db = Inr db1"
    "checkArchive cfg lib (estimatedMessageStorage m atts) db1 = Inr ()"
    "checkQuotas db1 (m_size m) dls = Inr ()" "insert_message db1 m = Inr db2"
    "fold_res (saveAttachment env (m_id m)) (enumerate 0 atts) db2 = Inr db3"
    "fold_res (saveDelivery env m) (enumerate 0 dls) db3 = Inr db4"
    "fold_res (enqueue env (1 + length dls) (m_id m)) (enumerate 0 rs) db4 = Inr db5"
    "audit_if env (1 + length dls + length rs) db5 ''message'' (m_id m) event = Inr db'"
  using assms by (auto simp: saveMessage_def Let_def split: option.splits)

lemma saveAttachment_frame:
  "saveAttachment env i x db = Inr db' \<Longrightarrow>
     (messages db', entries db', queue db', users db') = (messages db, entries db, queue db, users db)"
  by (auto simp: saveAttachment_def Let_def insert_attachment_def)

lemma enqueue_frame:
  "enqueue env k i x db = Inr db' \<Longrightarrow>
     (messages db', entries db', attachments db', users db') = (messages db, entries db, attachments db, users db)"
  by (auto simp: enqueue_def Let_def insert_queue_def)

lemma used_bytes_delete_entries:
  assumes "mail_inv db"
  shows "used_bytes (delete_entries P db) i \<le> used_bytes db i"
proof -
  have "sum_list (map (entry_size db) (filter Q (filter R xs))) \<le> sum_list (map (entry_size db) (filter Q xs))" for Q R xs
    using entry_size_nonneg [OF assms] by (induction xs) (auto simp: add_increasing intro: add_left_mono)
  then show ?thesis
    by (simp add: used_bytes_def delete_entries_def entry_size_def [abs_def] message_by_id_def)
qed

lemma used_bytes_removeReplacedDraft:
  assumes "mail_inv db" and "removeReplacedDraft r db = Inr db1"
  shows "used_bytes db1 i \<le> used_bytes db i"
proof (cases "db1 = db")
  case False
  then obtain P Q where del: "delete_messages (delete_entries P db) Q = Inr db1"
    using assms(2) by (auto simp: removeReplacedDraft_def split: option.splits if_splits)
  let ?d = "delete_entries P db"
  note d = delete_messages_Inr [OF del]
  have "entry_size db1 e = entry_size ?d e" if e: "e \<in> set (entries ?d)" for e
  proof -
    have keep: "\<not> Q m" if "m \<in> set (messages ?d)" "m_id m = e_message_id e" for m
      using d(2) e that by metis
    have "find (\<lambda>m. m_id m = e_message_id e) (filter (\<lambda>m. \<not> Q m) ms) = find (\<lambda>m. m_id m = e_message_id e) ms"
      if "set ms \<subseteq> set (messages ?d)" for ms
      using that keep by (induction ms) auto
    then show ?thesis by (simp add: entry_size_def message_by_id_def d(1))
  qed
  then have "used_bytes db1 i = used_bytes ?d i"
    unfolding used_bytes_def by (intro arg_cong [where f = sum_list] map_cong) (auto simp: d(1))
  then show ?thesis using used_bytes_delete_entries [OF assms(1)] by simp
qed simp

lemma used_bytes_nonneg: "mail_inv db \<Longrightarrow> 0 \<le> used_bytes db i"
  unfolding used_bytes_def by (intro sum_list_nonneg) (auto simp: entry_size_nonneg)

lemma checkQuota_bound:
  assumes "checkQuota db n dls i () = Inr ()" and "u \<in> set (users db)" "u_id u = i" "distinct (map u_id (users db))"
    and "0 < u_quota_bytes u" and "0 \<le> used_bytes db i" and "0 \<le> n"
    and "used_bytes db i + n * int (count_where (\<lambda>dl. dl_user_id dl = i) dls) < 2 ^ 63"
  shows "used_bytes db i + n * int (count_where (\<lambda>dl. dl_user_id dl = i) dls) \<le> u_quota_bytes u"
proof -
  let ?c = "n * int (count_where (\<lambda>dl. dl_user_id dl = i) dls)"
  have c: "0 \<le> ?c" using assms(7) by simp
  obtain v where v: "v \<in> set (users db)" "u_id v = i"
    and le: "\<not> (u_quota_bytes v > 0 \<and> wrap64 (used_bytes db i + wrap64 ?c) > u_quota_bytes v)"
    using assms(1) by (auto simp: checkQuota_def Let_def guard_err_def split: option.splits if_splits dest!: find_SomeD)
  have "v = u" using v assms(2-4) by (auto simp: distinct_map dest: inj_onD)
  moreover have "wrap64 ?c = ?c" using c assms(6,8) by (intro wrap64_id) linarith+
  moreover have "wrap64 (used_bytes db i + ?c) = used_bytes db i + ?c"
    using c assms(6,8) by (intro wrap64_id) linarith+
  ultimately show ?thesis using le assms(5) by simp
qed

text \<open>
  C21. Quotas. In every reachable state, a message that is accepted leaves each of its recipients who
  has a quota at or below it, several copies to one user included, as long as the byte counts stay
  below 2^63.
\<close>

theorem quota_respected:
  assumes "saveMessage cfg lib statfs env m0 atts dls rs replacement event (store_run cs) = Inr (db', m)"
    and "u \<in> set (users (store_run cs))" and "0 < u_quota_bytes u" and "u_id u \<in> dl_user_id ` set dls"
    and "used_bytes (store_run cs) (u_id u) + m_size m * int (count_where (\<lambda>dl. dl_user_id dl = u_id u) dls) < 2 ^ 63"
  shows "used_bytes db' (u_id u) \<le> u_quota_bytes u"
proof -
  let ?db = "store_run cs" and ?n = "m_size m * int (count_where (\<lambda>dl. dl_user_id dl = u_id u) dls)"
  note inv = store_run_inv [of cs]
  from assms(1) obtain db1 db2 db3 db4 db5 where s:
    "removeReplacedDraft replacement ?db = Inr db1" "checkQuotas db1 (m_size m) dls = Inr ()"
    "insert_message db1 m = Inr db2" "fold_res (saveAttachment env (m_id m)) (enumerate 0 atts) db2 = Inr db3"
    "fold_res (saveDelivery env m) (enumerate 0 dls) db3 = Inr db4"
    "fold_res (enqueue env (1 + length dls) (m_id m)) (enumerate 0 rs) db4 = Inr db5"
    "audit_if env (1 + length dls + length rs) db5 ''message'' (m_id m) event = Inr db'"
    by (rule saveMessage_steps)
  have inv1: "mail_inv db1" using good_removeReplacedDraft [OF s(1)] inv(1) by (simp add: good_step_def)
  have users1: "users db1 = users ?db"
    using s(1) by (auto simp: removeReplacedDraft_def delete_entries_def delete_messages_def Let_def
        split: option.splits if_splits)
  have f3: "messages db3 = messages db2" "entries db3 = entries db2"
    using fold_res_frame [OF s(4), where p = "\<lambda>d. (messages d, entries d, queue d, users d)", OF saveAttachment_frame]
    by simp_all
  have f5: "messages db5 = messages db4" "entries db5 = entries db4"
    using fold_res_frame [OF s(6), where p = "\<lambda>d. (messages d, entries d, attachments d, users d)", OF enqueue_frame]
    by simp_all
  have "messages db' = messages db5" "entries db' = entries db5"
    using audit_if_Inr [OF s(7)] by auto
  then have "used_bytes db' (u_id u) = used_bytes db4 (u_id u)"
    using f5 by (intro used_bytes_cong) simp_all
  also have "\<dots> = used_bytes db3 (u_id u) + ?n"
    using s(5) used_bytes_insert_message(2) [OF inv1 s(3)] f3
    by (intro used_bytes_deliveries) (simp_all add: message_by_id_def)
  also have "used_bytes db3 (u_id u) = used_bytes db1 (u_id u)"
    using used_bytes_insert_message(1) [OF inv1 s(3)] used_bytes_cong [OF f3, of "u_id u"] by simp
  finally have used: "used_bytes db' (u_id u) = used_bytes db1 (u_id u) + ?n" .
  have "checkQuota db1 (m_size m) dls (u_id u) () = Inr ()"
    using s(2) assms(4) by (intro checkQuotas_each [of _ "remdups (map dl_user_id dls)"]) (simp_all add: checkQuotas_def)
  then have "used_bytes db1 (u_id u) + ?n \<le> u_quota_bytes u"
  proof (rule checkQuota_bound)
    show "u \<in> set (users db1)" "u_id u = u_id u" "distinct (map u_id (users db1))" "0 < u_quota_bytes u"
      using assms(2,3) inv(2) by (simp_all add: users1 acct_inv_def)
    show "0 \<le> used_bytes db1 (u_id u)" using inv1 by (rule used_bytes_nonneg)
    show "0 \<le> m_size m" using s(3) by (auto simp: insert_message_def)
    show "used_bytes db1 (u_id u) + ?n < 2 ^ 63"
      using used_bytes_removeReplacedDraft [OF inv(1) s(1), of "u_id u"] assms(5) by linarith
  qed
  then show ?thesis using used by simp
qed

definition ex_second :: message where
  "ex_second = ex_message\<lparr>m_id := ''m2'', m_size := 900\<rparr>"

definition ex_deliveries :: "delivery list" where
  "ex_deliveries = [\<lparr>dl_user_id = ''usrAA'', dl_mailbox = ''INBOX'', dl_flags = []\<rparr>]"

theorem quota_respected_witness:
  "\<exists>db'. saveMessage ex_config ex_lib None (ex_env 7) ex_second [] ex_deliveries [] None None (store_run ex_history)
      = Inr (db', ex_second) \<and> used_bytes db' ''usrAA'' \<le> 1000"
proof -
  let ?r = "saveMessage ex_config ex_lib None (ex_env 7) ex_second [] ex_deliveries [] None None (store_run ex_history)"

  have "\<not> isl (map_sum id snd ?r) \<and> projr (map_sum id snd ?r) = ex_second" unfolding ex_history_db by code_simp
  then obtain db' where r: "?r = Inr (db', ex_second)" by (rule exE [OF Inr_pairI])
  obtain u where u: "users (store_run ex_history) = [u]" "u_id u = ''usrAA''" "u_quota_bytes u = 1000"
    by (simp add: ex_history_db ex_db_def empty_db_def)
  have "used_bytes (store_run ex_history) ''usrAA'' = 3" unfolding ex_history_db by code_simp
  then have "used_bytes db' (u_id u) \<le> u_quota_bytes u"
    by (intro quota_respected [OF r]) (simp_all add: u ex_deliveries_def ex_second_def)
  then show ?thesis using r u by simp
qed

section \<open>The archive limit\<close>

lemma archive_removed_frame:
  assumes "fold_res (saveAttachment env i) (enumerate k atts) db = Inr db'"
  shows "messages db' = messages db"
    "sum_list (map (\<lambda>a. blen (at_content a) + 1024) (attachments db'))
      = sum_list (map (\<lambda>a. blen (at_content a) + 1024) (attachments db))
        + sum_list (map (\<lambda>a. blen (at_content a) + 1024) atts)"
proof -
  show "messages db' = messages db"
    using fold_res_frame [OF assms, where p = "\<lambda>d. (messages d, entries d, queue d, users d)", OF saveAttachment_frame]
    by simp
  show "sum_list (map (\<lambda>a. blen (at_content a) + 1024) (attachments db'))
      = sum_list (map (\<lambda>a. blen (at_content a) + 1024) (attachments db))
        + sum_list (map (\<lambda>a. blen (at_content a) + 1024) atts)"
    using assms
  proof (induction atts arbitrary: k db)
    case (Cons a atts)
    then obtain db1 where one: "saveAttachment env i (k, a) db = Inr db1"
      and rest: "fold_res (saveAttachment env i) (enumerate (Suc k) atts) db1 = Inr db'" by auto
    have "sum_list (map (\<lambda>a. blen (at_content a) + 1024) (attachments db1))
      = sum_list (map (\<lambda>a. blen (at_content a) + 1024) (attachments db)) + (blen (at_content a) + 1024)"
      using one by (auto simp: saveAttachment_def Let_def insert_attachment_def)
    with Cons.IH [OF rest] show ?case by simp
  qed simp
qed

lemma saveDelivery_frame:
  "saveDelivery env m x db = Inr db' \<Longrightarrow> (messages db', attachments db') = (messages db, attachments db)"
  by (auto simp: saveDelivery_def saveMailboxEntry_def Let_def insert_entry_def bump_uid_def split: option.splits)

lemma archiveStorage_saved:
  assumes "insert_message db1 m = Inr db2"
    and "fold_res (saveAttachment env (m_id m)) (enumerate 0 atts) db2 = Inr db3"
    and "fold_res (saveDelivery env m) (enumerate 0 dls) db3 = Inr db4"
    and "fold_res (enqueue env k (m_id m)) (enumerate 0 rs) db4 = Inr db5"
    and "audit_if env j db5 ''message'' (m_id m) event = Inr db'"
  shows "archiveStorage lib db' = archiveStorage lib db1 + message_storage lib m
    + sum_list (map (\<lambda>a. blen (at_content a) + 1024) atts)"
proof -
  have "messages db' = messages db5" "attachments db' = attachments db5"
    using audit_if_Inr [OF assms(5)] by auto
  moreover have "messages db5 = messages db4" "attachments db5 = attachments db4"
    using fold_res_frame [OF assms(4), where p = "\<lambda>d. (messages d, entries d, attachments d, users d)", OF enqueue_frame]
    by simp_all
  moreover have "messages db4 = messages db3" "attachments db4 = attachments db3"
    using fold_res_frame [OF assms(3), where p = "\<lambda>d. (messages d, attachments d)", OF saveDelivery_frame] by simp_all
  moreover have "messages db2 = messages db1 @ [m]" "attachments db2 = attachments db1"
    using assms(1) by (auto simp: insert_message_def)
  ultimately show ?thesis
    using archive_removed_frame [OF assms(2)] by (simp add: archiveStorage_def)
qed

lemma archiveStorage_nonneg: "\<forall>s. 0 \<le> sql_length lib s \<Longrightarrow> 0 \<le> archiveStorage lib db"
  unfolding archiveStorage_def message_storage_def
  by (intro add_nonneg_nonneg sum_list_nonneg) auto

lemma addAttachmentStorage_bound:
  assumes "addAttachmentStorage t atts < maxInt64"
  shows "t + sum_list (map (\<lambda>a. blen (at_content a) + 1024) atts) \<le> addAttachmentStorage t atts"
  using assms
proof (induction atts arbitrary: t)
  case (Cons a atts)
  define c where "c = (if at_size a > blen (at_content a) then at_size a else blen (at_content a))"
  have "\<not> (c > maxInt64 - 1024 \<or> t > maxInt64 - c - 1024)"
    using Cons.prems by (auto simp: c_def Let_def split: if_splits)
  then have "addAttachmentStorage t (a # atts) = addAttachmentStorage (t + (c + 1024)) atts"
    by (simp add: c_def Let_def)
  moreover have "blen (at_content a) \<le> c" by (simp add: c_def)
  ultimately show ?case using Cons.IH [of "t + (c + 1024)"] Cons.prems by simp
qed simp

definition searchable_bytes :: "message \<Rightarrow> int" where
  "searchable_bytes m = blen (m_text m) + blen (m_subject m) + blen (m_from m)
     + sum_list (map (\<lambda>value. blen value + 3) (m_to m @ m_cc m))"

lemma searchable_nonneg: "0 \<le> searchable_bytes m"
  unfolding searchable_bytes_def by (intro add_nonneg_nonneg sum_list_nonneg) auto

lemma estimate_exact:
  assumes "blen (m_raw m) \<le> r" and "m_size m \<le> r"
    and "r + blen (m_text m) + blen (m_html m) + blen (m_snippet m) + 4 * searchable_bytes m + 16384 < 2 ^ 63"
    and "estimatedMessageStorage m atts < maxInt64"
  shows "blen (m_raw m) + blen (m_text m) + blen (m_html m) + blen (m_snippet m) + 4 * searchable_bytes m + 16384
    + sum_list (map (\<lambda>a. blen (at_content a) + 1024) atts) \<le> estimatedMessageStorage m atts"
proof -
  define r' where "r' = (if m_size m > blen (m_raw m) then m_size m else blen (m_raw m))"
  have r': "blen (m_raw m) \<le> r'" "r' \<le> r" using assms(1,2) by (simp_all add: r'_def)
  let ?S = "searchable_bytes m"
  let ?t = "r' + (blen (m_text m) + blen (m_html m) + blen (m_snippet m)) + 4 * ?S + 16384"
  have S: "0 \<le> ?S" "4 * ?S < 2 ^ 63" "?S < 2 ^ 63"
    using searchable_nonneg [of m] assms(1,3) by linarith+
  have mult: "saturatingMultiply (wrap64 ?S) 4 = 4 * ?S"
    using S by (simp add: wrap64_id saturatingMultiply_def maxInt64_def)
  have "wrap64 ?t = ?t"
    using assms(1,3) r' S by (intro wrap64_id) linarith+
  then have est: "estimatedMessageStorage m atts = addAttachmentStorage ?t atts"
    using mult by (simp only: estimatedMessageStorage_def Let_def r'_def [symmetric] searchable_bytes_def [symmetric])
  show ?thesis
    using addAttachmentStorage_bound [of ?t atts] assms(4) r'(1) unfolding est by linarith
qed


text \<open>JSON as Go writes it for strings without bytes that need an escape.\<close>

fun json_join :: "string list \<Rightarrow> string" where
  "json_join [] = []"
| "json_join [x] = [CHR 0x22] @ x @ [CHR 0x22]"
| "json_join (x # xs) = [CHR 0x22] @ x @ [CHR 0x22] @ '','' @ json_join xs"

definition plain_lib :: sql_lib where
  "plain_lib = \<lparr>sql_length = (\<lambda>s. int (length s)), json_list = (\<lambda>xs. ''['' @ json_join xs @ '']'')\<rparr>"

definition tight_config :: store_config where
  "tight_config = \<lparr>archiveLimit = 16422, minFreeDisk = 0, databasePath = []\<rparr>"

lemma tight_saved:
  "\<not> isl (map_sum id snd (saveMessage tight_config plain_lib None (ex_env 7) ex_message [] [] [] None None empty_db))
   \<and> projr (map_sum id snd (saveMessage tight_config plain_lib None (ex_env 7) ex_message [] [] [] None None empty_db))
     = ex_message"
  by code_simp


text \<open>
  The estimate is not the exact mirror of the query that its comment claims: it leaves out the
  brackets of the two JSON lists, and this message is accepted although it puts the archive above
  its limit.
\<close>

lemma archive_estimate_short:
  "(case saveMessage tight_config plain_lib None (ex_env 7) ex_message [] [] [] None None empty_db of
      Inl _ \<Rightarrow> False | Inr (db', _) \<Rightarrow> archiveLimit tight_config < archiveStorage plain_lib db')"
  by code_simp

section \<open>All or nothing\<close>

lemma saveDelivery_entries:
  "saveDelivery env m x db = Inr db' \<Longrightarrow> \<exists>e. entries db' = entries db @ [e] \<and> e_user_id e = dl_user_id (snd x)
     \<and> e_message_id e = m_id m \<and> queue db' = queue db \<and> audit_log db' = audit_log db"
  by (auto simp: saveDelivery_def saveMailboxEntry_def Let_def insert_entry_def bump_uid_def split: option.splits)

lemma deliveries_entries:
  assumes "fold_res (saveDelivery env m) (enumerate k dls) db = Inr db'"
  shows "\<exists>es. entries db' = entries db @ es \<and> map e_user_id es = map dl_user_id dls
      \<and> (\<forall>e \<in> set es. e_message_id e = m_id m) \<and> queue db' = queue db \<and> audit_log db' = audit_log db"
  using assms
proof (induction dls arbitrary: k db)
  case (Cons dl dls)
  then obtain db1 where one: "saveDelivery env m (k, dl) db = Inr db1"
    and rest: "fold_res (saveDelivery env m) (enumerate (Suc k) dls) db1 = Inr db'" by auto
  from saveDelivery_entries [OF one] obtain e where "entries db1 = entries db @ [e]" "e_user_id e = dl_user_id dl"
    "e_message_id e = m_id m" "queue db1 = queue db" "audit_log db1 = audit_log db" by auto
  moreover from Cons.IH [OF rest] obtain es where "entries db' = entries db1 @ es"
    "map e_user_id es = map dl_user_id dls" "\<forall>e \<in> set es. e_message_id e = m_id m"
    "queue db' = queue db1" "audit_log db' = audit_log db1" by auto
  ultimately show ?case by (intro exI [of _ "e # es"]) simp
qed simp

lemma enqueue_rows:
  assumes "fold_res (enqueue env j i) (enumerate k rs) db = Inr db'"
  shows "\<exists>qs. queue db' = queue db @ qs \<and> map q_recipient qs = map normalizeEmail rs
      \<and> (\<forall>q \<in> set qs. q_message_id q = i \<and> q_status q = Queued) \<and> audit_log db' = audit_log db"
  using assms
proof (induction rs arbitrary: k db)
  case (Cons r rs)
  then obtain db1 where one: "enqueue env j i (k, r) db = Inr db1"
    and rest: "fold_res (enqueue env j i) (enumerate (Suc k) rs) db1 = Inr db'" by auto
  from one obtain q where "queue db1 = queue db @ [q]" "q_recipient q = normalizeEmail r" "q_message_id q = i"
    "q_status q = Queued" "audit_log db1 = audit_log db"
    by (auto simp: enqueue_def Let_def insert_queue_def)
  moreover from Cons.IH [OF rest] obtain qs where "queue db' = queue db1 @ qs"
    "map q_recipient qs = map normalizeEmail rs" "\<forall>q \<in> set qs. q_message_id q = i \<and> q_status q = Queued"
    "audit_log db' = audit_log db1" by auto
  ultimately show ?case by (intro exI [of _ "q # qs"]) simp
qed simp

lemma saved_rows:
  assumes "saveMessage cfg lib statfs env m0 atts dls rs None event db = Inr (db', m)"
  shows "m \<in> set (messages db')"
    and "\<exists>es. entries db' = entries db @ es \<and> map e_user_id es = map dl_user_id dls
      \<and> (\<forall>e \<in> set es. e_message_id e = m_id m)"
    and "\<exists>qs. queue db' = queue db @ qs \<and> map q_recipient qs = map normalizeEmail rs
      \<and> (\<forall>q \<in> set qs. q_message_id q = m_id m \<and> q_status q = Queued)"
    and "event = Some ev \<Longrightarrow> \<exists>row. audit_log db' = audit_log db @ [row] \<and> ev_action row = ev_action ev
      \<and> ev_actor_id row = ev_actor_id ev"
proof -
  from assms obtain db2 db3 db4 db5 where s:
    "insert_message db m = Inr db2" "fold_res (saveAttachment env (m_id m)) (enumerate 0 atts) db2 = Inr db3"
    "fold_res (saveDelivery env m) (enumerate 0 dls) db3 = Inr db4"
    "fold_res (enqueue env (1 + length dls) (m_id m)) (enumerate 0 rs) db4 = Inr db5"
    "audit_if env (1 + length dls + length rs) db5 ''message'' (m_id m) event = Inr db'"
    by (rule saveMessage_steps) (simp add: removeReplacedDraft_def)
  have f3: "messages db3 = messages db2" "entries db3 = entries db2" "queue db3 = queue db2"
    using fold_res_frame [OF s(2), where p = "\<lambda>d. (messages d, entries d, queue d, users d)", OF saveAttachment_frame]
    by simp_all
  have a3: "audit_log db3 = audit_log db2"
    using s(2) by (rule fold_res_frame) (auto simp: saveAttachment_def Let_def insert_attachment_def)
  have f4: "messages db4 = messages db3"
    using fold_res_frame [OF s(3), where p = "\<lambda>d. (messages d, attachments d)", OF saveDelivery_frame] by simp
  have f5: "messages db5 = messages db4" "entries db5 = entries db4"
    using fold_res_frame [OF s(4), where p = "\<lambda>d. (messages d, entries d, attachments d, users d)", OF enqueue_frame]
    by simp_all
  have f2: "messages db2 = messages db @ [m]" "entries db2 = entries db" "queue db2 = queue db"
    "audit_log db2 = audit_log db"
    using s(1) by (auto simp: insert_message_def)
  obtain rows where db': "db' = db5\<lparr>audit_log := audit_log db5 @ rows\<rparr>"
    and rows: "length rows = (if event = None then 0 else 1)"
      "\<forall>ev. event = Some ev \<longrightarrow> map ev_action rows = [ev_action ev] \<and> map ev_actor_id rows = [ev_actor_id ev]"
    using audit_if_Inr [OF s(5)] by blast
  note d = deliveries_entries [OF s(3)] and q = enqueue_rows [OF s(4)]
  show "m \<in> set (messages db')" by (simp add: db' f2 f3 f4 f5)
  show "\<exists>es. entries db' = entries db @ es \<and> map e_user_id es = map dl_user_id dls
      \<and> (\<forall>e \<in> set es. e_message_id e = m_id m)"
    using d by (auto simp: db' f2 f3 f5)
  show "\<exists>qs. queue db' = queue db @ qs \<and> map q_recipient qs = map normalizeEmail rs
      \<and> (\<forall>q \<in> set qs. q_message_id q = m_id m \<and> q_status q = Queued)"
    using d q by (auto simp: db' f2 f3)
  assume "event = Some ev"
  then have "map ev_action rows = [ev_action ev]" "map ev_actor_id rows = [ev_actor_id ev]" using rows(2) by simp_all
  moreover from this obtain row where "rows = [row]" by (cases rows) auto
  ultimately show "\<exists>row. audit_log db' = audit_log db @ [row] \<and> ev_action row = ev_action ev
      \<and> ev_actor_id row = ev_actor_id ev"
    using d q by (auto simp: db' f2 a3)
qed



end
