(* ===== verification/BccStrip.thy ===== *)
theory BccStrip
  imports Prelude
begin

text \<open>
  The header surgery of \<open>internal/smtpserver/backend.go\<close>: \<open>splitRawHeader\<close> cuts a message into its
  header lines and its body, \<open>stripBccHeader\<close> removes the Bcc and Resent-Bcc fields with their
  continuation lines. The specification works on fields, a first line with its continuations.
\<close>

section \<open>The code\<close>

fun split_at_LF :: "string \<Rightarrow> (string \<times> string) option" where
  "split_at_LF [] = None"
| "split_at_LF (c # cs) =
     (if c = LF then Some ([], cs) else map_option (\<lambda>(l, r). (c # l, r)) (split_at_LF cs))"

lemma split_at_LF_eq: "split_at_LF s = Some (l, r) \<Longrightarrow> s = l @ LF # r \<and> LF \<notin> set l"
  by (induction s arbitrary: l) (auto split: if_splits)

lemma split_at_LF_append [simp]: "LF \<notin> set l \<Longrightarrow> split_at_LF (l @ LF # r) = Some (l, r)"
  by (induction l) auto

definition drop_CR :: "string \<Rightarrow> string" where
  "drop_CR line = (if line \<noteq> [] \<and> last line = CR then butlast line else line)"

function splitHeader :: "string list \<Rightarrow> string \<Rightarrow> (string list \<times> string) option" where
  "splitHeader lines raw =
     (case split_at_LF raw of
        None \<Rightarrow> None
      | Some (l, rest) \<Rightarrow>
          let line = drop_CR l
          in if line = [] then Some (lines, rest) else splitHeader (lines @ [line]) rest)"
  by pat_completeness auto
termination
  by (relation "measure (\<lambda>(_, raw). length raw)") (auto dest!: split_at_LF_eq)

declare splitHeader.simps [simp del]

definition splitRawHeader :: "string \<Rightarrow> (string list \<times> string) option" where
  "splitRawHeader raw = splitHeader [] raw"

definition is_continuation :: "string \<Rightarrow> bool" where
  "is_continuation line \<longleftrightarrow> line \<noteq> [] \<and> (hd line = CHR '' '' \<or> hd line = CHR 0x09)"

fun IndexByte :: "string \<Rightarrow> char \<Rightarrow> nat option" where
  "IndexByte [] c = None"
| "IndexByte (x # xs) c = (if x = c then Some 0 else map_option Suc (IndexByte xs c))"

definition is_bcc_name :: "string \<Rightarrow> bool" where
  "is_bcc_name line \<longleftrightarrow>
     (case IndexByte line (CHR '':'') of
        None \<Rightarrow> False
      | Some colon \<Rightarrow> colon > 0 \<and>
          (let name = TrimSpace (take colon line)
           in EqualFold name ''Bcc'' \<or> EqualFold name ''Resent-Bcc''))"

text \<open>The loop: the lines kept, and whether one was removed.\<close>

fun stripLines :: "bool \<Rightarrow> bool \<Rightarrow> string list \<Rightarrow> string list \<Rightarrow> string list \<times> bool" where
  "stripLines skipping removed kept [] = (kept, removed)"
| "stripLines skipping removed kept (line # rest) =
     (if is_continuation line
      then (if skipping then stripLines skipping removed kept rest
            else stripLines skipping removed (kept @ [line]) rest)
      else if is_bcc_name line then stripLines True True kept rest
      else stripLines False removed (kept @ [line]) rest)"

definition stripBccHeader :: "string \<Rightarrow> string" where
  "stripBccHeader raw =
     (case splitRawHeader raw of
        None \<Rightarrow> raw
      | Some (lines, body) \<Rightarrow>
          (case stripLines False False [] lines of
             (kept, removed) \<Rightarrow>
               if \<not> removed then raw
               else concat (map (\<lambda>line. line @ [CR, LF]) kept) @ [CR, LF] @ body))"

section \<open>The specification\<close>

function fields :: "string list \<Rightarrow> string list list" where
  "fields [] = []"
| "fields (l # ls) = (l # takeWhile is_continuation ls) # fields (dropWhile is_continuation ls)"
  by pat_completeness auto
termination
  by (relation "measure length") (simp_all add: length_dropWhile_le less_Suc_eq_le)

definition bcc_field :: "string list \<Rightarrow> bool" where
  "bcc_field f \<longleftrightarrow> \<not> is_continuation (hd f) \<and> is_bcc_name (hd f)"

lemma bcc_field_Cons [simp]: "bcc_field (l # ls) \<longleftrightarrow> \<not> is_continuation l \<and> is_bcc_name l"
  by (simp add: bcc_field_def)

definition without_bcc :: "string list \<Rightarrow> string list" where
  "without_bcc lines = concat (filter (\<lambda>f. \<not> bcc_field f) (fields lines))"

lemma concat_fields: "concat (fields ls) = ls"
  by (induction ls rule: fields.induct) auto

lemma stripLines_takeWhile:
  "stripLines sk rm kept ls =
     stripLines sk rm (if sk then kept else kept @ takeWhile is_continuation ls) (dropWhile is_continuation ls)"
  by (induction ls arbitrary: kept) auto

lemma stripLines_fields:
  "ls = [] \<or> \<not> is_continuation (hd ls) \<or> \<not> sk \<Longrightarrow>
     stripLines sk rm kept ls = (kept @ without_bcc ls, rm \<or> list_ex bcc_field (fields ls))"
proof (induction ls arbitrary: sk rm kept rule: fields.induct)
  case (2 l ls)
  have next_head: "dropWhile is_continuation ls = [] \<or> \<not> is_continuation (hd (dropWhile is_continuation ls)) \<or> \<not> sk'" for sk'
    using dropWhile_not_Cons by blast
  note IH = "2.IH" [OF next_head]
  consider "is_continuation l" "\<not> sk" | "\<not> is_continuation l" "is_bcc_name l"
    | "\<not> is_continuation l" "\<not> is_bcc_name l" using "2.prems" by auto
  then show ?case
  proof cases
    case 1
    then show ?thesis
      by (subst stripLines.simps) (simp add: stripLines_takeWhile [of _ _ _ ls] IH without_bcc_def)
  next
    case 2
    then show ?thesis
      by (subst stripLines.simps) (simp add: stripLines_takeWhile [of _ _ _ ls] IH without_bcc_def)
  next
    case 3
    then show ?thesis
      by (subst stripLines.simps) (simp add: stripLines_takeWhile [of _ _ _ ls] IH without_bcc_def)
  qed
qed (simp add: without_bcc_def)

text \<open>Header lines are not empty and hold no LF, and writing them with CRLF reads back the same.\<close>

definition header_line :: "string \<Rightarrow> bool" where
  "header_line l \<longleftrightarrow> l \<noteq> [] \<and> LF \<notin> set l"

lemma splitHeader_lines:
  "splitHeader acc raw = Some (lines, body) \<Longrightarrow> \<forall>l \<in> set acc. header_line l \<Longrightarrow> \<forall>l \<in> set lines. header_line l"
proof (induction acc raw rule: splitHeader.induct)
  case (1 acc raw)
  obtain l rest where s: "split_at_LF raw = Some (l, rest)"
    using "1.prems"(1) by (subst (asm) splitHeader.simps) (auto split: option.splits)
  have "LF \<notin> set (drop_CR l)"
    using split_at_LF_eq [OF s] by (auto simp: drop_CR_def dest: in_set_butlastD)
  then show ?case
    using "1.IH" [OF s refl refl] "1.prems" s
    by (subst (asm) (2) splitHeader.simps) (auto simp: header_line_def Let_def split: if_splits)
qed

lemma splitHeader_written:
  "\<forall>l \<in> set ls. header_line l \<Longrightarrow>
     splitHeader acc (concat (map (\<lambda>l. l @ [CR, LF]) ls) @ [CR, LF] @ body) = Some (acc @ ls, body)"
proof (induction ls arbitrary: acc)
  case Nil
  have "split_at_LF (CR # LF # body) = Some ([CR], body)" by simp
  then show ?case by (subst splitHeader.simps) (simp add: drop_CR_def)
next
  case (Cons l ls)
  let ?rest = "concat (map (\<lambda>l. l @ [CR, LF]) ls) @ [CR, LF] @ body"
  have "split_at_LF ((l @ [CR]) @ LF # ?rest) = Some (l @ [CR], ?rest)"
    using Cons.prems by (intro split_at_LF_append) (simp add: header_line_def)
  then show ?case using Cons.IH [of "acc @ [l]"] Cons.prems
    by (subst splitHeader.simps) (simp add: drop_CR_def header_line_def)
qed

lemma set_without_bcc: "set (without_bcc ls) \<subseteq> set ls"
proof -
  have "set (without_bcc ls) \<subseteq> set (concat (fields ls))" by (auto simp: without_bcc_def)
  then show ?thesis by (simp add: concat_fields)
qed

lemma strip_split:
  assumes "splitRawHeader raw = Some (lines, body)"
  shows "splitRawHeader (stripBccHeader raw) = Some (without_bcc lines, body)"
proof -
  have strip: "stripLines False False [] lines = (without_bcc lines, list_ex bcc_field (fields lines))"
    using stripLines_fields [of lines False False "[]"] by simp
  show ?thesis
  proof (cases "list_ex bcc_field (fields lines)")
    case True
    have "\<forall>l \<in> set (without_bcc lines). header_line l"
      using splitHeader_lines [OF assms [unfolded splitRawHeader_def]] set_without_bcc by auto
    then show ?thesis
      using splitHeader_written [of "without_bcc lines" "[]" body] assms strip True
      by (simp add: stripBccHeader_def splitRawHeader_def)
  next
    case False
    then have "filter (\<lambda>f. \<not> bcc_field f) (fields lines) = fields lines"
      by (auto simp: list_ex_iff filter_id_conv)
    then have "without_bcc lines = lines" by (simp add: without_bcc_def concat_fields)
    then show ?thesis using assms strip False by (simp add: stripBccHeader_def)
  qed
qed

lemma fields_heads: "f \<in> set (fields ls) \<Longrightarrow> f \<noteq> []"
  by (induction ls rule: fields.induct) auto

lemma fields_tails: "f \<in> set (fields ls) \<Longrightarrow> \<forall>l \<in> set (tl f). is_continuation l"
  by (induction ls rule: fields.induct) (auto dest: set_takeWhileD)

lemma without_bcc_no_bcc:
  assumes "l \<in> set (without_bcc ls)"
  shows "is_continuation l \<or> \<not> is_bcc_name l"
proof -
  obtain f where f: "f \<in> set (fields ls)" "\<not> bcc_field f" "l \<in> set f"
    using assms by (auto simp: without_bcc_def)
  show ?thesis
    using f(2,3) fields_heads [OF f(1)] fields_tails [OF f(1)] by (cases f) (auto simp: bcc_field_def)
qed

lemma no_bcc_unchanged:
  assumes "splitRawHeader raw = Some (lines, body)" and "\<forall>l \<in> set lines. is_continuation l \<or> \<not> is_bcc_name l"
  shows "stripBccHeader raw = raw"
proof -
  have "\<not> bcc_field f" if f: "f \<in> set (fields lines)" for f
  proof -
    have "hd f \<in> set (concat (fields lines))" using f fields_heads [OF f] by (auto intro!: bexI [of _ f])
    then show ?thesis using assms(2) by (auto simp: concat_fields bcc_field_def)
  qed
  then have "\<not> list_ex bcc_field (fields lines)" by (auto simp: list_ex_iff)
  then show ?thesis using assms(1) stripLines_fields [of lines False False "[]"] by (simp add: stripBccHeader_def)
qed

section \<open>Properties\<close>


definition bcc_example :: string where
  "bcc_example = ''To: a'' @ [CR, LF] @ ''bCC : x'' @ [LF] @ '' y'' @ [LF, LF] @ ''Bcc: body''"


end
