(* ===== verification/SmtpSession.thy ===== *)
theory SmtpSession
  imports AuthLimit BccStrip SaveContract
begin

text \<open>
  \<open>internal/smtpserver/backend.go\<close>: one SMTP session, on the inbound port or the submission port. The
  state is a record; every command is a function of the session and the database as it is at that
  moment. Go's mail parsers are the fields of \<open>smtp_lib\<close>: \<open>mail.ParseAddress\<close>,
  \<open>mail.ParseAddressList\<close>, the header map of \<open>mail.ReadMessage\<close>, and \<open>mailcore.Parse\<close>, which
  is modelled by its result.
\<close>

datatype smtp_mode = Inbound | Submission

datatype smtp_error = SMTPError nat | ErrAuthRequired | ErrAuthFailed

record smtp_recipient =
  rc_address :: string
  rc_user :: "user option"

record smtp_session =
  ts_mode :: smtp_mode
  ts_max_bytes :: int
  ts_auth :: "user option"
  ts_remote_ip :: string
  ts_endpoint :: string
  ts_from :: string
  ts_recipients :: "smtp_recipient list"

record smtp_lib =
  parse_address :: "string \<Rightarrow> string option"
  parse_address_list :: "string \<Rightarrow> string list option"
  read_header :: "string \<Rightarrow> (string \<times> string list) list option"
  parse_mime :: "string \<Rightarrow> string \<Rightarrow> string list \<Rightarrow> string \<Rightarrow> (message \<times> attachment list) option"
  metadata_json :: "string \<Rightarrow> string"

definition NewSession :: "netlib \<Rightarrow> smtp_mode \<Rightarrow> int \<Rightarrow> string \<Rightarrow> string option \<Rightarrow> smtp_session" where
  "NewSession nl m maxBytes endpoint0 remote =
     \<lparr>ts_mode = m, ts_max_bytes = maxBytes, ts_auth = None, ts_remote_ip = RemoteIP nl remote,
      ts_endpoint = (if endpoint0 = [] then (if m = Submission then ''submission'' else ''smtp'') else endpoint0),
      ts_from = [], ts_recipients = []\<rparr>"

section \<open>Authentication\<close>

text \<open>The callback of the PLAIN mechanism.\<close>

definition Auth_plain :: "netlib \<Rightarrow> (string \<Rightarrow> string \<Rightarrow> bool) \<Rightarrow> (string \<Rightarrow> string) \<Rightarrow> env \<Rightarrow> time
    \<Rightarrow> string \<Rightarrow> string \<Rightarrow> string \<Rightarrow> smtp_session \<Rightarrow> limiter \<Rightarrow> db
    \<Rightarrow> smtp_session \<times> limiter \<times> db \<times> smtp_error option" where
  "Auth_plain nl verify token_hash env now ident username password s lim db =
     (let account = NormalizeAccount username
      in case Allow nl now lim (ts_remote_ip s) account of
           (lim1, False) \<Rightarrow> (s, lim1, db, Some ErrAuthFailed)
         | (lim1, True) \<Rightarrow>
             if ident \<noteq> [] \<and> \<not> EqualFold ident username
             then (s, Failure nl now lim1 (ts_remote_ip s) account, db, Some ErrAuthFailed)
             else (case Authenticate verify token_hash env account password True db of
                 (db1, Inl _) \<Rightarrow> (s, Failure nl now lim1 (ts_remote_ip s) account, db1, Some ErrAuthFailed)
               | (db1, Inr u) \<Rightarrow> (s\<lparr>ts_auth := Some u\<rparr>, Success lim1 account, db1, None)))"

definition requireActiveAuthentication :: "db \<Rightarrow> smtp_session \<Rightarrow> smtp_session \<times> smtp_error option" where
  "requireActiveAuthentication db s =
     (case ts_auth s of
        None \<Rightarrow> (s, Some ErrAuthRequired)
      | Some u \<Rightarrow>
          (case GetUserByID db (u_id u) of
             Inl ErrNotFound \<Rightarrow> (s\<lparr>ts_auth := None\<rparr>, Some ErrAuthRequired)
           | Inl _ \<Rightarrow> (s, Some (SMTPError 451))
           | Inr account \<Rightarrow>
               if u_status account \<noteq> StatusActive
                  \<or> u_protocol_auth_version account \<noteq> u_protocol_auth_version u
               then (s\<lparr>ts_auth := None\<rparr>, Some ErrAuthRequired)
               else (s, None)))"

text \<open>The check that \<open>Mail\<close>, \<open>Rcpt\<close> and \<open>Data\<close> begin with on the submission port.\<close>

definition gate :: "db \<Rightarrow> smtp_session \<Rightarrow> smtp_session \<times> smtp_error option" where
  "gate db s = (if ts_mode s = Submission then requireActiveAuthentication db s else (s, None))"

section \<open>The envelope\<close>

definition Mail_from :: "smtp_lib \<Rightarrow> db \<Rightarrow> smtp_session \<Rightarrow> string \<Rightarrow> smtp_session \<times> smtp_error option" where
  "Mail_from lib db s0 from =
     (let s = s0\<lparr>ts_from := [], ts_recipients := []\<rparr>
      in case gate db s of
           (s1, Some e) \<Rightarrow> (s1, Some e)
         | (s1, None) \<Rightarrow>
             if ts_mode s = Submission
                \<and> \<not> (case ts_auth s1 of None \<Rightarrow> False | Some u \<Rightarrow> SMTPFromAllowed (parse_address lib) db (u_id u) from)
             then (s1, Some (SMTPError 553))
             else if from \<noteq> []
             then (case parse_address lib from of
                 None \<Rightarrow> (s1, Some (SMTPError 553))
               | Some a \<Rightarrow> if \<not> ContainsChar a (CHR ''@'') then (s1, Some (SMTPError 553))
                           else (s1\<lparr>ts_from := ToLower a\<rparr>, None))
             else (s1, None))"

definition hasRecipient :: "smtp_session \<Rightarrow> string \<Rightarrow> bool" where
  "hasRecipient s address = list_ex (\<lambda>r. EqualFold (rc_address r) address) (ts_recipients s)"

definition addRecipient :: "smtp_session \<Rightarrow> string \<Rightarrow> user option \<Rightarrow> smtp_session" where
  "addRecipient s address u =
     (if hasRecipient s address then s
      else s\<lparr>ts_recipients := ts_recipients s @ [\<lparr>rc_address = address, rc_user = u\<rparr>]\<rparr>)"

definition Rcpt_to :: "smtp_lib \<Rightarrow> db \<Rightarrow> smtp_session \<Rightarrow> string \<Rightarrow> smtp_session \<times> smtp_error option" where
  "Rcpt_to lib db s0 to =
     (case gate db s0 of
        (s, Some e) \<Rightarrow> (s, Some e)
      | (s, None) \<Rightarrow>
          (case ResolveSMTPRecipient (parse_address lib) db to of
             (canonical, Inr u) \<Rightarrow> (addRecipient s canonical (Some u), None)
           | (_, Inl e) \<Rightarrow>
               if e \<noteq> ErrNotFound then (s, Some (SMTPError 451))
               else if ts_mode s = Inbound then (s, Some (SMTPError 550))
               else (case SMTPLocalDomain (parse_address lib) db to of
                   Inl _ \<Rightarrow> (s, Some (SMTPError 451))
                 | Inr (_, True) \<Rightarrow> (s, Some (SMTPError 550))
                 | Inr (_, False) \<Rightarrow>
                     (case parse_address lib to of
                        None \<Rightarrow> (s, Some (SMTPError 501))
                      | Some a \<Rightarrow> if \<not> ContainsChar a (CHR ''@'') then (s, Some (SMTPError 501))
                                  else (addRecipient s (ToLower a) None, None)))))"

definition Reset :: "smtp_session \<Rightarrow> smtp_session" where
  "Reset s = s\<lparr>ts_from := [], ts_recipients := []\<rparr>"

definition Logout :: "smtp_session \<Rightarrow> smtp_session" where
  "Logout s = (Reset s)\<lparr>ts_auth := None\<rparr>"

section \<open>The message\<close>

text \<open>
  A reader is the bytes it gives and whether it fails after them. The limited reader stops one byte
  beyond the limit, so a failure shows only if the bytes before it are within the limit.
\<close>

type_synonym reader = "string \<times> bool"

definition readMessage :: "reader \<Rightarrow> int \<Rightarrow> smtp_error + string" where
  "readMessage reader limit0 =
     (let limit = (if limit0 \<le> 0 then 25 * 1024 * 1024 else limit0);
          data = take (nat (limit + 1)) (fst reader)
      in if snd reader \<and> length (fst reader) < nat (limit + 1) then Inl (SMTPError 451)
         else if int (length data) > limit then Inl (SMTPError 552)
         else Inr data)"

definition rawHeaderValues :: "smtp_lib \<Rightarrow> string \<Rightarrow> string \<Rightarrow> string list option" where
  "rawHeaderValues lib raw name =
     map_option (\<lambda>hs. concat (map snd (filter (\<lambda>kv. EqualFold (fst kv) name) hs))) (read_header lib raw)"

definition validateHeaderFrom :: "smtp_lib \<Rightarrow> db \<Rightarrow> smtp_session \<Rightarrow> string \<Rightarrow> smtp_error option" where
  "validateHeaderFrom lib db s raw =
     (case rawHeaderValues lib raw ''From'' of
        None \<Rightarrow> Some (SMTPError 554)
      | Some [v] \<Rightarrow>
          (case parse_address_list lib v of
             Some [a] \<Rightarrow>
               if (case ts_auth s of None \<Rightarrow> False | Some u \<Rightarrow> SMTPFromAllowed (parse_address lib) db (u_id u) a)
               then None else Some (SMTPError 550)
           | _ \<Rightarrow> Some (SMTPError 550))
      | Some _ \<Rightarrow> Some (SMTPError 550))"

fun rejectLocal :: "smtp_lib \<Rightarrow> db \<Rightarrow> string list \<Rightarrow> smtp_error option" where
  "rejectLocal lib db [] = None"
| "rejectLocal lib db (a # as) =
     (case SMTPLocalDomain (parse_address lib) db a of
        Inl _ \<Rightarrow> Some (SMTPError 451)
      | Inr (_, True) \<Rightarrow> Some (SMTPError 550)
      | Inr (_, False) \<Rightarrow> rejectLocal lib db as)"

definition validateInboundHeaderFrom :: "smtp_lib \<Rightarrow> db \<Rightarrow> string \<Rightarrow> smtp_error option" where
  "validateInboundHeaderFrom lib db raw =
     (case rawHeaderValues lib raw ''From'' of
        None \<Rightarrow> Some (SMTPError 554)
      | Some [v] \<Rightarrow>
          (case parse_address_list lib v of
             None \<Rightarrow> Some (SMTPError 550)
           | Some [] \<Rightarrow> Some (SMTPError 550)
           | Some as \<Rightarrow> rejectLocal lib db as)
      | Some _ \<Rightarrow> Some (SMTPError 550))"

text \<open>
  The loop over the recipients: the keys seen, the deliveries and the queue. A key is the user's ID
  and the mailbox, separated by a zero byte.
\<close>

definition delivery_key :: "string \<Rightarrow> string \<Rightarrow> string" where
  "delivery_key user_id box = user_id @ [CHR 0x00] @ box"

fun route :: "smtp_recipient list \<Rightarrow> string list \<Rightarrow> string list \<times> delivery list \<times> string list" where
  "route [] keys = (keys, [], [])"
| "route (r # rs) keys =
     (case rc_user r of
        Some u \<Rightarrow>
          (let key = delivery_key (u_id u) ''INBOX''
           in if key \<in> set keys then route rs keys
              else (case route rs (key # keys) of
                  (keys', dls, q) \<Rightarrow>
                    (keys', \<lparr>dl_user_id = u_id u, dl_mailbox = ''INBOX'', dl_flags = [Recent]\<rparr> # dls, q)))
      | None \<Rightarrow> (case route rs keys of (keys', dls, q) \<Rightarrow> (keys', dls, rc_address r # q)))"

definition plan :: "smtp_session \<Rightarrow> delivery list \<times> string list" where
  "plan s = (case route (ts_recipients s) [] of
     (keys, dls, queued) \<Rightarrow>
       (case (ts_mode s, ts_auth s) of
          (Submission, Some u) \<Rightarrow>
            if delivery_key (u_id u) ''Sent'' \<in> set keys then (dls, queued)
            else (dls @ [\<lparr>dl_user_id = u_id u, dl_mailbox = ''Sent'', dl_flags = [Seen]\<rparr>], queued)
        | _ \<Rightarrow> (dls, queued)))"

definition data_event :: "smtp_lib \<Rightarrow> smtp_session \<Rightarrow> audit_event" where
  "data_event lib s =
     \<lparr>ev_id = [], ev_actor_id = (case (ts_mode s, ts_auth s) of (Submission, Some u) \<Rightarrow> u_id u | _ \<Rightarrow> []),
      ev_action = (if ts_mode s = Submission then ''message.submit'' else ''message.receive''),
      ev_target_type = ''message'', ev_target_id = [], ev_reason = [],
      ev_metadata = metadata_json lib (ts_endpoint s), ev_ip = ts_remote_ip s, ev_created = zero_time\<rparr>"

text \<open>The content that is stored: on submission without its Bcc fields, and only if From is allowed.\<close>

definition accepted_raw :: "smtp_lib \<Rightarrow> db \<Rightarrow> smtp_session \<Rightarrow> string \<Rightarrow> smtp_error + string" where
  "accepted_raw lib db s raw =
     (if ts_mode s = Submission
      then (case validateHeaderFrom lib db s raw of Some e \<Rightarrow> Inl e | None \<Rightarrow> Inr (stripBccHeader raw))
      else (case validateInboundHeaderFrom lib db raw of Some e \<Rightarrow> Inl e | None \<Rightarrow> Inr raw))"

definition Data :: "store_config \<Rightarrow> sql_lib \<Rightarrow> (int \<times> int) option \<Rightarrow> smtp_lib \<Rightarrow> env \<Rightarrow> smtp_session \<Rightarrow> reader \<Rightarrow> db
    \<Rightarrow> smtp_session \<times> db \<times> smtp_error option" where
  "Data cfg sql statfs lib env s0 reader db =
     (case gate db s0 of
        (s, Some e) \<Rightarrow> (s, db, Some e)
      | (s, None) \<Rightarrow>
          if ts_recipients s = [] then (s, db, Some (SMTPError 554))
          else (case readMessage reader (ts_max_bytes s) of
              Inl e \<Rightarrow> (s, db, Some e)
            | Inr raw0 \<Rightarrow>
                (case accepted_raw lib db s raw0 of
                   Inl e \<Rightarrow> (s, db, Some e)
                 | Inr raw \<Rightarrow>
                     (case parse_mime lib raw (ts_from s) (map rc_address (ts_recipients s))
                         (if ts_mode s = Submission then ''outbound'' else ''inbound'') of
                        None \<Rightarrow> (s, db, Some (SMTPError 554))
                      | Some (message, atts) \<Rightarrow>
                          (case plan s of (deliveries, queued) \<Rightarrow>
                             (case SaveMessageAudited cfg sql statfs env message atts deliveries queued
                                 (data_event lib s) db of
                                Inl ErrQuotaExceeded \<Rightarrow> (s, db, Some (SMTPError 452))
                              | Inl _ \<Rightarrow> (s, db, Some (SMTPError 451))
                              | Inr (db', _) \<Rightarrow> (s, db', None)))))))"

section \<open>Sessions\<close>

record smtp_world =
  w_db :: db
  w_limiter :: limiter
  w_session :: smtp_session

datatype smtp_event =
    EAuth "string \<Rightarrow> string \<Rightarrow> bool" "string \<Rightarrow> string" env time string string string
  | EMail string
  | ERcpt string
  | EData store_config sql_lib "(int \<times> int) option" env reader
  | EReset
  | ELogout
  | EStore store_cmd

text \<open>
  One event. AUTH exists only on the submission port; \<open>EStore\<close> is any operation of the store by
  another part of the program.
\<close>

fun smtp_step :: "netlib \<Rightarrow> smtp_lib \<Rightarrow> smtp_world \<Rightarrow> smtp_event \<Rightarrow> smtp_world" where
  "smtp_step nl lib w (EAuth verify th env now ident name pw) =
     (if ts_mode (w_session w) = Submission
      then (case Auth_plain nl verify th env now ident name pw (w_session w) (w_limiter w) (w_db w) of
          (s, lim, db, _) \<Rightarrow> \<lparr>w_db = db, w_limiter = lim, w_session = s\<rparr>)
      else w)"
| "smtp_step nl lib w (EMail from) = w\<lparr>w_session := fst (Mail_from lib (w_db w) (w_session w) from)\<rparr>"
| "smtp_step nl lib w (ERcpt to) = w\<lparr>w_session := fst (Rcpt_to lib (w_db w) (w_session w) to)\<rparr>"
| "smtp_step nl lib w (EData cfg sql statfs env reader) =
     (case Data cfg sql statfs lib env (w_session w) reader (w_db w) of
        (s, db, _) \<Rightarrow> w\<lparr>w_db := db, w_session := s\<rparr>)"
| "smtp_step nl lib w EReset = w\<lparr>w_session := Reset (w_session w)\<rparr>"
| "smtp_step nl lib w ELogout = w\<lparr>w_session := Logout (w_session w)\<rparr>"
| "smtp_step nl lib w (EStore c) = w\<lparr>w_db := store_step (w_db w) c\<rparr>"

definition session_inv :: "smtp_mode \<Rightarrow> smtp_session \<Rightarrow> bool" where
  "session_inv m s \<longleftrightarrow> ts_mode s = m
     \<and> distinct (map (\<lambda>r. ToLower (rc_address r)) (ts_recipients s))
     \<and> (m = Inbound \<longrightarrow> ts_auth s = None \<and> (\<forall>r \<in> set (ts_recipients s). rc_user r \<noteq> None))"

lemma gate_frame:
  "gate db s = (s', e) \<Longrightarrow> ts_mode s' = ts_mode s \<and> ts_recipients s' = ts_recipients s
     \<and> (ts_auth s' = ts_auth s \<or> ts_auth s' = None)"
  by (auto simp: gate_def requireActiveAuthentication_def split: if_splits option.splits sum.splits store_error.splits)

lemma session_inv_gate: "gate db s = (s', e) \<Longrightarrow> session_inv m s \<Longrightarrow> session_inv m s'"
  using gate_frame [of db s s' e] by (auto simp: session_inv_def)

lemma session_inv_add:
  assumes "session_inv m s" and "m = Inbound \<longrightarrow> u \<noteq> None"
  shows "session_inv m (addRecipient s a u)"
  using assms by (auto simp: session_inv_def addRecipient_def hasRecipient_def list_ex_iff EqualFold_def)

lemma session_inv_from: "session_inv m s \<Longrightarrow> session_inv m (s\<lparr>ts_from := f\<rparr>)"
  by (simp add: session_inv_def)

lemma session_inv_Reset: "session_inv m s \<Longrightarrow> session_inv m (Reset s)"
  by (simp add: session_inv_def Reset_def)

lemma session_inv_Mail:
  assumes inv: "session_inv m s"
  shows "session_inv m (fst (Mail_from lib db s from))"
proof -
  obtain s1 g where g: "gate db (Reset s) = (s1, g)" by (cases "gate db (Reset s)")
  note g' = g [unfolded Reset_def]
  have inv1: "session_inv m s1" by (rule session_inv_gate [OF g session_inv_Reset [OF inv]])
  have "fst (Mail_from lib db s from) = s1 \<or> (\<exists>f. fst (Mail_from lib db s from) = s1\<lparr>ts_from := f\<rparr>)"
    by (cases g; cases "parse_address lib from") (auto simp: Mail_from_def Let_def g')
  then show ?thesis using inv1 session_inv_from [OF inv1] by auto
qed

lemma Rcpt_session:
  "fst (Rcpt_to lib db s to) = fst (gate db s)
   \<or> (\<exists>a u. fst (Rcpt_to lib db s to) = addRecipient (fst (gate db s)) a u
        \<and> (ts_mode (fst (gate db s)) = Inbound \<longrightarrow> u \<noteq> None))"
proof -
  obtain s1 g where g: "gate db s = (s1, g)" by (cases "gate db s")
  obtain c r where r: "ResolveSMTPRecipient (parse_address lib) db to = (c, r)"
    by (cases "ResolveSMTPRecipient (parse_address lib) db to")
  show ?thesis
  proof (cases "g = None \<and> r = Inl ErrNotFound \<and> ts_mode s1 \<noteq> Inbound")
    case True
    then show ?thesis
      by (cases "SMTPLocalDomain (parse_address lib) db to"; cases "parse_address lib to")
        (simp_all add: Rcpt_to_def g r split: prod.split bool.split; blast)+
  next
    case False
    then show ?thesis by (cases g; cases r) (auto simp: Rcpt_to_def g r)
  qed
qed

lemma session_inv_Rcpt:
  assumes "session_inv m s"
  shows "session_inv m (fst (Rcpt_to lib db s to))"
proof -
  have inv1: "session_inv m (fst (gate db s))"
    using session_inv_gate [of db s "fst (gate db s)" "snd (gate db s)" m] assms by simp
  moreover have "ts_mode (fst (gate db s)) = m" using inv1 by (simp add: session_inv_def)
  ultimately show ?thesis using Rcpt_session [of lib db s to] session_inv_add [OF inv1] by auto
qed

text \<open>DATA either refuses and leaves the database alone, or every check passed and the message is stored.\<close>

lemma Data_cases:
  fixes cfg sql statfs lib env s0 reader db
  defines "s \<equiv> fst (gate db s0)" and "D \<equiv> Data cfg sql statfs lib env s0 reader db"
  obtains (refused) e where "D = (s, db, Some e)"
  | (stored) raw0 raw m0 atts m db' where "D = (s, db', None)" "gate db s0 = (s, None)" "ts_recipients s \<noteq> []"
      "readMessage reader (ts_max_bytes s) = Inr raw0" "accepted_raw lib db s raw0 = Inr raw"
      "parse_mime lib raw (ts_from s) (map rc_address (ts_recipients s))
         (if ts_mode s = Submission then ''outbound'' else ''inbound'') = Some (m0, atts)"
      "saveMessage cfg sql statfs env m0 atts (fst (plan s)) (snd (plan s)) None (Some (data_event lib s)) db
         = Inr (db', m)"
proof (cases "gate db s0")
  case (Pair s1 g)
  then have s1: "s1 = s" by (simp add: s_def)
  obtain dls q where plan: "plan s = (dls, q)" by (cases "plan s")
  show ?thesis
  proof (cases "g = None \<and> ts_recipients s \<noteq> []")
    case ok: True
    then have gate: "gate db s0 = (s, None)" using Pair s1 by simp
    show ?thesis
    proof (cases "readMessage reader (ts_max_bytes s)")
      case (Inl e)
      then show ?thesis using ok by (intro refused) (simp add: D_def Data_def gate)
    next
      case read: (Inr raw0)
      show ?thesis
      proof (cases "accepted_raw lib db s raw0")
        case (Inl e)
        then show ?thesis using ok by (intro refused) (simp add: D_def Data_def gate read)
      next
        case acc: (Inr raw)
        let ?parsed = "parse_mime lib raw (ts_from s) (map rc_address (ts_recipients s))
            (if ts_mode s = Submission then ''outbound'' else ''inbound'')"
        show ?thesis
        proof (cases ?parsed)
          case None
          then show ?thesis using ok by (intro refused) (simp add: D_def Data_def gate read acc)
        next
          case (Some p)
          then obtain m0 atts where parsed: "?parsed = Some (m0, atts)" by (cases p) simp
          let ?r = "SaveMessageAudited cfg sql statfs env m0 atts (fst (plan s)) (snd (plan s)) (data_event lib s) db"
          have D: "D = (case ?r of Inl ErrQuotaExceeded \<Rightarrow> (s, db, Some (SMTPError 452))
              | Inl _ \<Rightarrow> (s, db, Some (SMTPError 451)) | Inr (db', _) \<Rightarrow> (s, db', None))"
            using ok by (simp add: D_def Data_def gate read acc parsed plan)
          show ?thesis
          proof (cases ?r)
            case (Inl e)
            have "\<exists>e'. D = (s, db, Some e')" unfolding D Inl by (cases e) auto
            then obtain e' where "D = (s, db, Some e')" by blast
            then show ?thesis by (rule refused)
          next
            case (Inr q)
            then obtain db' m where r: "?r = Inr (db', m)" by (cases q) simp
            then have "D = (s, db', None)" by (simp add: D)
            then show ?thesis using gate ok read acc parsed r [unfolded SaveMessageAudited_def] by (intro stored) auto
          qed
        qed
      qed
    qed
  next
    case False
    have "\<exists>e. D = (s, db, Some e)"
      using False Pair s1 by (cases g) (auto simp: D_def Data_def)
    then obtain e where "D = (s, db, Some e)" by blast
    then show ?thesis by (rule refused)
  qed
qed

lemma Data_session: "fst (Data cfg sql statfs lib env s0 reader db) = fst (gate db s0)"
  by (rule Data_cases [of cfg sql statfs lib env s0 reader db]) simp_all

lemma session_inv_Data: "session_inv m s \<Longrightarrow> session_inv m (fst (Data cfg sql statfs lib env s reader db))"
  using session_inv_gate [of db s "fst (gate db s)" "snd (gate db s)" m] by (simp add: Data_session)

lemma session_inv_Auth:
  assumes inv: "session_inv m s" and mode: "ts_mode s = Submission"
  shows "session_inv m (fst (Auth_plain nl verify th env now ident name pw s lim db))"
proof -
  have "session_inv m (s\<lparr>ts_auth := u\<rparr>)" for u using inv mode by (auto simp: session_inv_def)
  then show ?thesis using inv by (simp add: Auth_plain_def Let_def split: prod.split bool.split sum.split)
qed

interpretation smtp_machine: machine "smtp_step nl lib" "\<lambda>w. session_inv m (w_session w)"
  for nl :: netlib and lib :: smtp_lib and m :: smtp_mode
proof (unfold_locales)
  fix w :: smtp_world and e assume inv: "session_inv m (w_session w)"
  show "session_inv m (w_session (smtp_step nl lib w e))"
  proof (cases e)
    case (EAuth verify th env now ident name pw)
    then show ?thesis
      using inv session_inv_Auth [of m "w_session w" nl verify th env now ident name pw "w_limiter w" "w_db w"]
      by (auto split: prod.split)
  next
    case (EData cfg sql statfs env reader)
    then show ?thesis
      using session_inv_Data [OF inv, of cfg sql statfs lib env reader "w_db w"] by (auto split: prod.split)
  next
    case ELogout
    then show ?thesis using inv by (simp add: Logout_def Reset_def session_inv_def)
  qed (use inv in \<open>simp_all add: session_inv_Mail session_inv_Rcpt session_inv_Reset\<close>)
qed

end
