(* ===== verification/SmtpProperties.thy ===== *)
theory SmtpProperties
  imports SmtpSession
begin

text \<open>
  The properties of SMTP sessions: the inbound port never relays, the submission port stores and
  sends only for the account that is logged in, and the deliveries follow from the recipients.
\<close>

section \<open>Routing\<close>

lemma delivery_key_inj: "delivery_key u b = delivery_key v b \<longleftrightarrow> u = v"
  by (simp add: delivery_key_def)

lemma delivery_key_Sent: "delivery_key u ''Sent'' \<noteq> delivery_key v ''INBOX''"
proof
  assume "delivery_key u ''Sent'' = delivery_key v ''INBOX''"
  then have "last (delivery_key u ''Sent'') = last (delivery_key v ''INBOX'')" by simp
  then show False by (simp add: delivery_key_def)
qed

abbreviation routed :: "smtp_recipient list \<Rightarrow> string list \<Rightarrow> delivery list" where
  "routed rs keys \<equiv> fst (snd (route rs keys))"

text \<open>What the loop adds for one recipient.\<close>

lemma route_external [simp]:
  "rc_user r = None \<Longrightarrow> route (r # rs) keys =
     (fst (route rs keys), routed rs keys, rc_address r # snd (snd (route rs keys)))"
  by (simp add: case_prod_beta)

lemma route_known [simp]:
  "rc_user r = Some u \<Longrightarrow> delivery_key (u_id u) ''INBOX'' \<in> set keys \<Longrightarrow> route (r # rs) keys = route rs keys"
  by (simp add: Let_def)

lemma route_local [simp]:
  "rc_user r = Some u \<Longrightarrow> delivery_key (u_id u) ''INBOX'' \<notin> set keys \<Longrightarrow> route (r # rs) keys =
     (case route rs (delivery_key (u_id u) ''INBOX'' # keys) of (k, d, q) \<Rightarrow>
        (k, \<lparr>dl_user_id = u_id u, dl_mailbox = ''INBOX'', dl_flags = [Recent]\<rparr> # d, q))"
  by (simp add: Let_def)

declare route.simps(2) [simp del]

lemma route_induct [case_names Nil external known local]:
  assumes "\<And>keys. P [] keys"
    and "\<And>r rs keys. rc_user r = None \<Longrightarrow> P rs keys \<Longrightarrow> P (r # rs) keys"
    and "\<And>r rs keys u. rc_user r = Some u \<Longrightarrow> delivery_key (u_id u) ''INBOX'' \<in> set keys \<Longrightarrow> P rs keys \<Longrightarrow> P (r # rs) keys"
    and "\<And>r rs keys u. rc_user r = Some u \<Longrightarrow> delivery_key (u_id u) ''INBOX'' \<notin> set keys
      \<Longrightarrow> P rs (delivery_key (u_id u) ''INBOX'' # keys) \<Longrightarrow> P (r # rs) keys"
  shows "P rs keys"
proof (induction rs arbitrary: keys)
  case (Cons r rs)
  then show ?case using assms(2-4) by (cases "rc_user r") blast+
qed (rule assms(1))

lemma route_queue: "snd (snd (route rs keys)) = map rc_address (filter (\<lambda>r. rc_user r = None) rs)"
  by (induction rs keys rule: route_induct) (simp_all add: case_prod_beta)

lemma route_keys:
  "k \<in> set (fst (route rs keys)) \<longleftrightarrow> k \<in> set keys \<or> (\<exists>r \<in> set rs. \<exists>u. rc_user r = Some u \<and> k = delivery_key (u_id u) ''INBOX'')"
  by (induction rs keys rule: route_induct) (auto simp: case_prod_beta)

lemma route_boxes: "d \<in> set (routed rs keys) \<Longrightarrow> dl_mailbox d = ''INBOX''"
  by (induction rs keys rule: route_induct) (auto simp: case_prod_beta)

lemma route_users:
  "i \<in> dl_user_id ` set (routed rs keys) \<longleftrightarrow>
     (\<exists>r \<in> set rs. \<exists>u. rc_user r = Some u \<and> i = u_id u) \<and> delivery_key i ''INBOX'' \<notin> set keys"
  by (induction rs keys rule: route_induct) (auto simp: case_prod_beta delivery_key_inj)

lemma route_distinct: "distinct (map dl_user_id (routed rs keys))"
  by (induction rs keys rule: route_induct) (auto simp: case_prod_beta route_users)

lemma plan_eq:
  "plan s = (routed (ts_recipients s) [] @ (case (ts_mode s, ts_auth s) of
       (Submission, Some u) \<Rightarrow> [\<lparr>dl_user_id = u_id u, dl_mailbox = ''Sent'', dl_flags = [Seen]\<rparr>] | _ \<Rightarrow> []),
     map rc_address (filter (\<lambda>r. rc_user r = None) (ts_recipients s)))"
proof -
  have "delivery_key i ''Sent'' \<notin> set (fst (route (ts_recipients s) []))" for i
    by (auto simp: route_keys delivery_key_Sent)
  then show ?thesis
    by (simp add: plan_def case_prod_beta route_queue split: smtp_mode.split option.split)
qed

section \<open>Histories of a session\<close>

definition smtp_start :: "netlib \<Rightarrow> smtp_mode \<Rightarrow> int \<Rightarrow> string \<Rightarrow> string option \<Rightarrow> limiter \<Rightarrow> db \<Rightarrow> smtp_world" where
  "smtp_start nl m maxBytes endpoint0 remote lim db =
     \<lparr>w_db = db, w_limiter = lim, w_session = NewSession nl m maxBytes endpoint0 remote\<rparr>"

abbreviation smtp_run :: "netlib \<Rightarrow> smtp_lib \<Rightarrow> smtp_world \<Rightarrow> smtp_event list \<Rightarrow> smtp_world" where
  "smtp_run nl lib w es \<equiv> foldl (smtp_step nl lib) w es"

lemma session_inv_start: "session_inv m (w_session (smtp_start nl m mx ep remote lim db))"
  by (simp add: smtp_start_def NewSession_def session_inv_def)

lemmas session_inv_run = smtp_machine.inv_run [OF session_inv_start]

text \<open>A successful save has checked that every recipient is an active user.\<close>

lemma saved_users_active:
  assumes "saveMessage cfg sql statfs env m0 atts dls rs None event db = Inr (db', m)" and "d \<in> set dls"
  shows "\<exists>u \<in> set (users db). u_id u = dl_user_id d \<and> u_status u = StatusActive"
proof -
  from assms(1) obtain db1 where "removeReplacedDraft None db = Inr db1" "checkQuotas db1 (m_size m) dls = Inr ()"
    by (rule saveMessage_steps)
  then have "checkQuotas db (m_size m) dls = Inr ()" by (simp add: removeReplacedDraft_def)
  then have "fold_res (checkQuota db (m_size m) dls) (remdups (map dl_user_id dls)) () = Inr ()"
    by (simp add: checkQuotas_def)
  from checkQuotas_each [OF this, of "dl_user_id d"]
  have "checkQuota db (m_size m) dls (dl_user_id d) () = Inr ()" using assms(2) by simp
  then show ?thesis by (auto simp: checkQuota_def split: option.splits dest!: find_SomeD)
qed

section \<open>Properties\<close>

text \<open>
  C25. The inbound port is not a relay. In every history of an inbound session, interleaved with
  any operations of other parts of the program on the store, DATA adds nothing to the outgoing
  queue: either it refuses and the database is as before, or every new mailbox entry belongs to
  a user who was a recipient of the session and is active at that moment.
\<close>

theorem inbound_never_relays:
  assumes "w = smtp_run nl lib (smtp_start nl Inbound maxBytes ep remote lim db0) es"
    and "Data cfg sql statfs lib env (w_session w) reader (w_db w) = (s, db', e)"
  shows "queue db' = queue (w_db w) \<and> (e \<noteq> None \<longrightarrow> db' = w_db w)
    \<and> (e = None \<longrightarrow> (\<exists>new. entries db' = entries (w_db w) @ new \<and> (\<forall>x \<in> set new.
        (\<exists>u \<in> set (users (w_db w)). u_id u = e_user_id x \<and> u_status u = StatusActive)
      \<and> (\<exists>r \<in> set (ts_recipients (w_session w)). \<exists>v. rc_user r = Some v \<and> u_id v = e_user_id x))))"
proof -
  have inv: "session_inv Inbound (w_session w)" unfolding assms(1) by (rule session_inv_run)
  then have gate: "gate (w_db w) (w_session w) = (w_session w, None)"
    by (simp add: session_inv_def gate_def)
  have plan: "plan (w_session w) = (routed (ts_recipients (w_session w)) [], [])"
    using inv by (simp add: plan_eq session_inv_def)
  show ?thesis
  proof (rule Data_cases [of cfg sql statfs lib env "w_session w" reader "w_db w"])
    fix e' assume "Data cfg sql statfs lib env (w_session w) reader (w_db w) = (fst (gate (w_db w) (w_session w)), w_db w, Some e')"
    then show ?thesis using assms(2) by simp
  next
    fix m0 atts m db1
    let ?dls = "routed (ts_recipients (w_session w)) []"
    assume D: "Data cfg sql statfs lib env (w_session w) reader (w_db w) = (fst (gate (w_db w) (w_session w)), db1, None)"
      and "saveMessage cfg sql statfs env m0 atts (fst (plan (fst (gate (w_db w) (w_session w)))))
        (snd (plan (fst (gate (w_db w) (w_session w))))) None
        (Some (data_event lib (fst (gate (w_db w) (w_session w))))) (w_db w) = Inr (db1, m)"
    then have save: "saveMessage cfg sql statfs env m0 atts ?dls [] None (Some (data_event lib (w_session w))) (w_db w)
        = Inr (db', m)" and e: "e = None"
      using assms(2) by (simp_all add: gate plan)
    have "queue db' = queue (w_db w)" using saved_rows(3) [OF save] by auto
    moreover obtain new where new: "entries db' = entries (w_db w) @ new" "map e_user_id new = map dl_user_id ?dls"
      using saved_rows(2) [OF save] by blast
    moreover have "(\<exists>u \<in> set (users (w_db w)). u_id u = e_user_id x \<and> u_status u = StatusActive)
        \<and> (\<exists>r \<in> set (ts_recipients (w_session w)). \<exists>v. rc_user r = Some v \<and> u_id v = e_user_id x)"
      if x: "x \<in> set new" for x
    proof -
      have "e_user_id x \<in> set (map dl_user_id ?dls)" using x by (simp flip: new(2))
      then have i: "e_user_id x \<in> dl_user_id ` set ?dls" by simp
      then obtain d where "d \<in> set ?dls" "e_user_id x = dl_user_id d" by blast
      then show ?thesis
        using saved_users_active [OF save] i route_users [of "e_user_id x" "ts_recipients (w_session w)" "[]"]
        by fastforce
    qed
    ultimately show ?thesis using e by blast
  qed
qed

text \<open>The examples: one user with an address, a role alias and two mailboxes, and parsers for plain headers.\<close>

definition mail_lib :: "string \<Rightarrow> smtp_lib" where
  "mail_lib from = \<lparr>parse_address = (\<lambda>s. Some s), parse_address_list = (\<lambda>s. Some [s]),
     read_header = (\<lambda>raw. Some [(''From'', [from])]),
     parse_mime = (\<lambda>raw env_from env_to direction. Some (ex_message\<lparr>m_raw := raw, m_direction := direction\<rparr>, [])),
     metadata_json = (\<lambda>ep. ''{}'')\<rparr>"

definition mail_db :: db where
  "mail_db = example_db\<lparr>mailboxes :=
     [\<lparr>mb_id = ''in'', mb_user_id = ''u1'', mb_name = ''INBOX'', mb_uid_validity = 1, mb_uid_next = 1,
       mb_subscribed = True, mb_created = 1\<rparr>,
      \<lparr>mb_id = ''se'', mb_user_id = ''u1'', mb_name = ''Sent'', mb_uid_validity = 2, mb_uid_next = 1,
       mb_subscribed = True, mb_created = 1\<rparr>]\<rparr>"

definition inbound_events :: "smtp_event list" where
  "inbound_events = [EMail ''x@c.io'', ERcpt ''al@b.io'', ERcpt ''POSTMASTER'', ERcpt ''y@c.io'']"

text \<open>The user is a recipient twice, by address and by role; the foreign address was refused.\<close>

definition inbound_world :: smtp_world where
  "inbound_world = smtp_run plain_net (mail_lib ''x@c.io'')
     (smtp_start plain_net Inbound 1000 [] None NewDefault mail_db) inbound_events"

theorem inbound_never_relays_witness:
  "\<exists>s db'. Data ex_config ex_lib None (mail_lib ''x@c.io'') (ex_env 0) (w_session inbound_world) (''raw'', False)
       (w_db inbound_world) = (s, db', None)
    \<and> queue db' = [] \<and> length (entries db') = 1"
proof -
  let ?D = "Data ex_config ex_lib None (mail_lib ''x@c.io'') (ex_env 0) (w_session inbound_world) (''raw'', False)
       (w_db inbound_world)"
  have "case ?D of (s, db', e) \<Rightarrow> e = None \<and> length (entries db') = 1 \<and> queue db' = []" by code_simp
  then obtain s db' where D: "?D = (s, db', None)" "length (entries db') = 1" "queue db' = []" by (cases ?D) auto
  then show ?thesis
    using inbound_never_relays [OF inbound_world_def D(1)] by blast
qed


definition submission_session :: smtp_session where
  "submission_session = (NewSession plain_net Submission 1000 [] None)
     \<lparr>ts_auth := Some example_user, ts_from := ''al@b.io'',
      ts_recipients := [\<lparr>rc_address = ''al@b.io'', rc_user = Some example_user\<rparr>, \<lparr>rc_address = ''y@c.io'', rc_user = None\<rparr>]\<rparr>"


text \<open>
  One copy per mailbox. In every history of a session the deliveries that DATA would make are
  to distinct mailboxes: to INBOX exactly of the users among the recipients, however often an
  address or an alias of theirs was named, and on submission to Sent of the account that is logged
  in; exactly the recipients that are not local are queued, and no two of these differ only in case.
\<close>

theorem deliveries_planned:
  assumes "w = smtp_run nl lib (smtp_start nl m maxBytes ep remote lim db0) es"
    and "plan (w_session w) = (dls, q)"
  shows "distinct (map (\<lambda>d. (dl_user_id d, dl_mailbox d)) dls) \<and> distinct (map ToLower q)
    \<and> (\<forall>i box. (i, box) \<in> (\<lambda>d. (dl_user_id d, dl_mailbox d)) ` set dls \<longleftrightarrow>
          box = ''INBOX'' \<and> (\<exists>r \<in> set (ts_recipients (w_session w)). \<exists>u. rc_user r = Some u \<and> i = u_id u)
        \<or> box = ''Sent'' \<and> m = Submission \<and> (\<exists>u. ts_auth (w_session w) = Some u \<and> i = u_id u))
    \<and> set q = rc_address ` {r \<in> set (ts_recipients (w_session w)). rc_user r = None}"
proof -
  let ?rs = "ts_recipients (w_session w)"
  have inv: "session_inv m (w_session w)" unfolding assms(1) by (rule session_inv_run)
  define sent where "sent = (case (ts_mode (w_session w), ts_auth (w_session w)) of
      (Submission, Some u) \<Rightarrow> [\<lparr>dl_user_id = u_id u, dl_mailbox = ''Sent'', dl_flags = [Seen]\<rparr>] | _ \<Rightarrow> [])"
  have dls: "dls = routed ?rs [] @ sent" and q: "q = map rc_address (filter (\<lambda>r. rc_user r = None) ?rs)"
    using assms(2) by (simp_all add: plan_eq sent_def)
  have sent: "length sent \<le> 1" "\<forall>d \<in> set sent. dl_mailbox d = ''Sent''"
    "(i, box) \<in> (\<lambda>d. (dl_user_id d, dl_mailbox d)) ` set sent \<longleftrightarrow>
       box = ''Sent'' \<and> m = Submission \<and> (\<exists>u. ts_auth (w_session w) = Some u \<and> i = u_id u)" for i box
    using inv by (cases "ts_mode (w_session w)"; cases "ts_auth (w_session w)";
        auto simp: sent_def session_inv_def)+
  have boxes: "(i, box) \<in> (\<lambda>d. (dl_user_id d, dl_mailbox d)) ` set (routed ?rs []) \<longleftrightarrow>
       box = ''INBOX'' \<and> (\<exists>r \<in> set ?rs. \<exists>u. rc_user r = Some u \<and> i = u_id u)" for i box
    using route_users [of i ?rs "[]"] route_boxes [of _ ?rs "[]"] by (auto simp: image_iff)
  have "distinct (map (\<lambda>d. (dl_user_id d, dl_mailbox d)) (routed ?rs []))"
    using route_distinct [of ?rs "[]"] by (auto simp: distinct_map inj_on_def)
  moreover have "distinct (map (\<lambda>d. (dl_user_id d, dl_mailbox d)) sent)"
    using sent(1) by (cases sent) auto
  ultimately have "distinct (map (\<lambda>d. (dl_user_id d, dl_mailbox d)) dls)"
    using sent(2) route_boxes [of _ ?rs "[]"] by (fastforce simp: dls)
  moreover have "distinct (map ToLower q)"
    using inv by (auto simp: q session_inv_def distinct_map inj_on_def)
  ultimately show ?thesis using boxes sent(3) by (auto simp: dls q image_Un)
qed

theorem deliveries_planned_witness:
  "distinct (map (\<lambda>d. (dl_user_id d, dl_mailbox d)) (fst (plan (w_session inbound_world))))"
  using deliveries_planned [OF inbound_world_def, of "fst (plan (w_session inbound_world))" "snd (plan (w_session inbound_world))"]
  by simp

end
