(* ===== verification/GoText.thy ===== *)
theory GoText
  imports Prelude "HOL-Library.Sublist"
begin

text \<open>Further functions of Go's \<open>strings\<close> package, and the facts about them that the components share.\<close>

fun Join :: "string list \<Rightarrow> string \<Rightarrow> string" where
  "Join [] sep = []"
| "Join [x] sep = x"
| "Join (x # y # rest) sep = x @ sep @ Join (y # rest) sep"

definition Contains :: "string \<Rightarrow> string \<Rightarrow> bool" where
  "Contains s sub = sublist sub s"

text \<open>\<open>strings.ReplaceAll\<close> for a one-byte pattern.\<close>

definition ReplaceChar :: "string \<Rightarrow> char \<Rightarrow> string \<Rightarrow> string" where
  "ReplaceChar s c new = concat (map (\<lambda>x. if x = c then new else [x]) s)"

text \<open>\<open>strings.Fields\<close>: the maximal runs of bytes that are not spaces.\<close>

fun FieldsFrom :: "string \<Rightarrow> string \<Rightarrow> string list" where
  "FieldsFrom word [] = (if word = [] then [] else [word])"
| "FieldsFrom word (c # s) =
     (if is_space c then (if word = [] then FieldsFrom [] s else word # FieldsFrom [] s)
      else FieldsFrom (word @ [c]) s)"

definition Fields :: "string \<Rightarrow> string list" where
  "Fields s = FieldsFrom [] s"

text \<open>The part after the last occurrence of a byte, as \<open>s[strings.LastIndex(s, c)+1:]\<close>.\<close>

definition after_last :: "string \<Rightarrow> char \<Rightarrow> string" where
  "after_last s c = rev (takeWhile (\<lambda>x. x \<noteq> c) (rev s))"

lemma after_last_append: "c \<notin> set t \<Longrightarrow> after_last (s @ c # t) c = t"
  by (subst after_last_def, simp) (subst takeWhile_append2, auto)

lemma FieldsFrom_words:
  "list_all (\<lambda>c. \<not> is_space c) word \<Longrightarrow> list_all (\<lambda>w. w \<noteq> [] \<and> list_all (\<lambda>c. \<not> is_space c) w) (FieldsFrom word s)"
  by (induction word s rule: FieldsFrom.induct) simp_all

lemma Fields_words: "list_all (\<lambda>w. w \<noteq> [] \<and> list_all (\<lambda>c. \<not> is_space c) w) (Fields s)"
  by (simp add: Fields_def FieldsFrom_words)

end
