(* ===== verification/QueueWorker.thy ===== *)
theory QueueWorker
  imports QueueStore MailboxOps StoreMachine GoText
begin

text \<open>
  \<open>internal/queue/worker.go\<close>: the worker that takes ready items from the outgoing queue, and the
  delivery of one message over a relay or the MX hosts of its recipient. \<open>runBatch\<close> is the function of
  the code; the relation \<open>worker_step\<close> of theory \<open>QueueMachine\<close> has its statements as single steps, so
  that other parts of the program, cancellation and crashes can come between them.
\<close>

section \<open>Options and text\<close>

record worker_options =
  wo_hostname :: string
  wo_poll_interval :: duration
  wo_max_attempts :: int
  wo_relay_addr :: string
  wo_relay_username :: string
  wo_relay_implicit_tls :: bool
  wo_direct_delivery :: bool
  wo_batch_size :: int

definition new_worker :: "worker_options \<Rightarrow> worker_options" where
  "new_worker o0 =
     (let o1 = (if wo_poll_interval o0 \<le> 0 then o0\<lparr>wo_poll_interval := 30 * second\<rparr> else o0);
          o2 = (if wo_max_attempts o1 < 1 then o1\<lparr>wo_max_attempts := 12\<rparr> else o1)
      in (if wo_batch_size o2 < 1 then o2\<lparr>wo_batch_size := 20\<rparr> else o2))"

definition safeError :: "string \<Rightarrow> string" where
  "safeError value = (if length value > 500 then take 500 value else value)"

definition domainOf :: "string \<Rightarrow> string" where
  "domainOf address =
     (if ContainsChar address (CHR ''@'')
      then ToLower (after_last address (CHR ''@''))
      else [])"

section \<open>One batch\<close>

text \<open>
  What surrounds one batch: the clock of each call of the store, whether the context is cancelled
  when the \<open>i\<close>-th item is reached, the text of a store error, and the deliverer.
\<close>

record batch_env =
  be_recover :: env
  be_ready :: env
  be_claim :: "nat \<Rightarrow> env"
  be_finish :: "nat \<Rightarrow> env"
  be_now :: time
  be_cancelled :: "nat \<Rightarrow> bool"
  be_error_text :: "store_error \<Rightarrow> string"
  be_deliver :: "nat \<Rightarrow> user_message \<Rightarrow> string \<Rightarrow> string option"

definition attempt :: "batch_env \<Rightarrow> nat \<Rightarrow> queue_item \<Rightarrow> db \<Rightarrow> string option" where
  "attempt be i item db =
     (case MessageRaw db (q_message_id item) of
        Inl e \<Rightarrow> Some (be_error_text be e)
      | Inr message \<Rightarrow> be_deliver be i message (q_recipient item))"

definition finish_item :: "worker_options \<Rightarrow> env \<Rightarrow> queue_item \<Rightarrow> string option \<Rightarrow> db \<Rightarrow> db" where
  "finish_item opts env item result db =
     (case result of
        None \<Rightarrow> CompleteQueue env db (q_id item)
      | Some e \<Rightarrow> RetryQueue env db (q_id item) (q_attempts item) (wo_max_attempts opts) (safeError e))"

definition process_item :: "worker_options \<Rightarrow> batch_env \<Rightarrow> nat \<Rightarrow> queue_item \<Rightarrow> db \<Rightarrow> db" where
  "process_item opts be i item0 db =
     (case ClaimQueue (be_claim be i) db (q_id item0) of
        (db1, False) \<Rightarrow> db1
      | (db1, True) \<Rightarrow>
          (let item = item0\<lparr>q_attempts := q_attempts item0 + 1\<rparr>;
               db2 = finish_item opts (be_finish be i) item (attempt be i item db1) db1
           in RefreshMessageTransportStatus db2 (q_message_id item)))"

fun process_items :: "worker_options \<Rightarrow> batch_env \<Rightarrow> nat \<Rightarrow> queue_item list \<Rightarrow> db \<Rightarrow> db" where
  "process_items opts be i [] db = db"
| "process_items opts be i (item # rest) db =
     (if be_cancelled be i then db
      else process_items opts be (i + 1) rest (process_item opts be i item db))"

definition runBatch :: "worker_options \<Rightarrow> batch_env \<Rightarrow> db \<Rightarrow> db" where
  "runBatch opts be db =
     (let db1 = fst (RecoverStaleQueue (be_recover be) db (be_now be - 30 * minute))
      in process_items opts be 0 (QueueReady (be_ready be) db1 (wo_batch_size opts)) db1)"

section \<open>Delivery of one message\<close>

definition JoinHostPort :: "string \<Rightarrow> string \<Rightarrow> string" where
  "JoinHostPort host port =
     (if ContainsChar host (CHR '':'') then ''['' @ host @ '']:'' @ port else host @ '':'' @ port)"

text \<open>
  The network during one delivery: every operation gives the text of its error, if it fails. Dialling
  gives a connection, which is the host it leads to; \<open>nt_accept\<close> is the SMTP transaction \<open>SendMail\<close>.
\<close>

record network =
  nt_dial_tls :: "string \<Rightarrow> string option"
  nt_dial_starttls :: "string \<Rightarrow> string option"
  nt_dial_plain :: "string \<Rightarrow> string option"
  nt_hello :: "string \<Rightarrow> string option"
  nt_auth :: "string \<Rightarrow> string option"
  nt_accept :: "string \<Rightarrow> string \<Rightarrow> string \<Rightarrow> string \<Rightarrow> string option"
  nt_quit :: "string \<Rightarrow> string option"
  nt_lookup_mx :: "string \<Rightarrow> string + (string \<times> int) list"
  nt_lookup_host :: "string \<Rightarrow> bool"

text \<open>What signing uses: the parser of the sender, and the signature with the private key of a domain.\<close>

record signer =
  sg_parse_address :: "string \<Rightarrow> string + string"
  sg_key :: "string \<Rightarrow> string + string"
  sg_sign :: "string \<Rightarrow> string \<Rightarrow> string \<Rightarrow> string \<Rightarrow> string + string"

definition sign :: "signer \<Rightarrow> (store_error \<Rightarrow> string) \<Rightarrow> db \<Rightarrow> user_message \<Rightarrow> string + string" where
  "sign sg err db message =
     (case sg_parse_address sg (m_envelope_from message) of
        Inl e \<Rightarrow> Inl (''invalid envelope sender: '' @ e)
      | Inr address \<Rightarrow>
          (case GetDomainByName db (domainOf address) of
             Inl e \<Rightarrow> Inl (''load DKIM domain: '' @ err e)
           | Inr d \<Rightarrow>
               (case sg_key sg (d_private_key d) of
                  Inl e \<Rightarrow> Inl e
                | Inr key \<Rightarrow>
                    (case sg_sign sg (d_name d) (d_selector d) key (m_raw message) of
                       Inl e \<Rightarrow> Inl (''sign DKIM: '' @ e)
                     | Inr signed \<Rightarrow> Inr signed))))"

text \<open>
  Both deliveries also give the hosts that accepted the message, in order. A host that has accepted
  it but fails at \<open>QUIT\<close> counts as an error.
\<close>

definition deliverRelay :: "network \<Rightarrow> worker_options \<Rightarrow> (string \<Rightarrow> (string \<times> string) option) \<Rightarrow> string \<Rightarrow> string \<Rightarrow> string
    \<Rightarrow> string option \<times> string list" where
  "deliverRelay nt opts split_host_port sender recipient raw =
     (let relay = wo_relay_addr opts in
      case split_host_port relay of
        None \<Rightarrow> (Some ''invalid relay address'', [])
      | Some _ \<Rightarrow>
          (case (if wo_relay_implicit_tls opts then nt_dial_tls nt relay else nt_dial_starttls nt relay) of
             Some e \<Rightarrow> (Some (''connect relay: '' @ e), [])
           | None \<Rightarrow>
               (case (if wo_hostname opts \<noteq> [] then nt_hello nt relay else None) of
                  Some e \<Rightarrow> (Some e, [])
                | None \<Rightarrow>
                    (case (if wo_relay_username opts \<noteq> [] then nt_auth nt relay else None) of
                       Some e \<Rightarrow> (Some (''authenticate relay: '' @ e), [])
                     | None \<Rightarrow>
                         (case nt_accept nt relay sender recipient raw of
                            Some e \<Rightarrow> (Some e, [])
                          | None \<Rightarrow> (nt_quit nt relay, [relay]))))))"

definition mx_connect :: "network \<Rightarrow> string \<Rightarrow> string option" where
  "mx_connect nt host =
     (let addr = JoinHostPort host ''25'' in
      case nt_dial_starttls nt addr of
        None \<Rightarrow> None
      | Some e \<Rightarrow> if Contains e ''doesn't support STARTTLS'' then nt_dial_plain nt addr else Some e)"

fun try_mx :: "network \<Rightarrow> string \<Rightarrow> string \<Rightarrow> string \<Rightarrow> string list \<Rightarrow> string list \<Rightarrow> string option \<times> string list" where
  "try_mx nt sender recipient raw failures [] =
     (Some (''all MX deliveries failed: '' @ Join failures ''; ''), [])"
| "try_mx nt sender recipient raw failures (record_host # rest) =
     (let host = TrimSuffix record_host ''.'' in
      case mx_connect nt host of
        Some e \<Rightarrow> try_mx nt sender recipient raw (failures @ [host @ '': '' @ safeError e]) rest
      | None \<Rightarrow>
          (case nt_accept nt host sender recipient raw of
             Some e \<Rightarrow> try_mx nt sender recipient raw (failures @ [host @ '': '' @ safeError e]) rest
           | None \<Rightarrow>
               (case nt_quit nt host of
                  None \<Rightarrow> (None, [host])
                | Some e \<Rightarrow>
                    (case try_mx nt sender recipient raw (failures @ [host @ '': '' @ safeError e]) rest of
                       (r, accepted) \<Rightarrow> (r, host # accepted)))))"

definition mx_records :: "network \<Rightarrow> string \<Rightarrow> string + (string \<times> int) list" where
  "mx_records nt name =
     (case nt_lookup_mx nt name of
        Inl e \<Rightarrow> if nt_lookup_host nt name then Inr [(name @ ''.'', 0)] else Inl (''lookup MX: '' @ e)
      | Inr mx \<Rightarrow> Inr mx)"

definition deliverMX :: "network \<Rightarrow> string \<Rightarrow> string \<Rightarrow> string \<Rightarrow> string option \<times> string list" where
  "deliverMX nt sender recipient raw =
     (case mx_records nt (domainOf recipient) of
        Inl e \<Rightarrow> (Some e, [])
      | Inr mx \<Rightarrow> try_mx nt sender recipient raw [] (map fst (sort_key snd mx)))"

definition Deliver :: "network \<Rightarrow> signer \<Rightarrow> (store_error \<Rightarrow> string) \<Rightarrow> (string \<Rightarrow> (string \<times> string) option) \<Rightarrow> worker_options \<Rightarrow> db
    \<Rightarrow> user_message \<Rightarrow> string \<Rightarrow> string option \<times> string list" where
  "Deliver nt sg err shp opts db message recipient =
     (case sign sg err db message of
        Inl e \<Rightarrow> (Some e, [])
      | Inr signed \<Rightarrow>
          if wo_relay_addr opts \<noteq> [] then deliverRelay nt opts shp (m_envelope_from message) recipient signed
          else if \<not> wo_direct_delivery opts
          then (Some ''no smarthost configured and direct MX delivery is disabled'', [])
          else deliverMX nt (m_envelope_from message) recipient signed)"

end
