(* ===== verification/StoreRelation.thy ===== *)
theory StoreRelation
  imports StoreMachine
begin

text \<open>
  Relations that every operation of the store except the queue worker's respects: the locale
  \<open>quiet_store\<close> adds the primitive changes of the account tables to those of \<open>quiet_relation\<close>, and
  \<open>store_relation\<close> the new queue item. The locale
  \<open>store_frame\<close> is the case of tables that neither the mail nor the account operations touch.
\<close>

section \<open>Columns\<close>

text \<open>The \<open>CHECK\<close> constraints of a user, and the columns that updates of a row never write.\<close>

definition user_columns :: "user \<Rightarrow> bool" where
  "user_columns u \<longleftrightarrow> u_role u \<in> {RoleAdmin, RoleUser} \<and> u_status u \<in> {StatusActive, StatusSuspended}
     \<and> 0 \<le> u_quota_bytes u \<and> 1 \<le> u_auth_version u \<and> 1 \<le> u_protocol_auth_version u"

definition same_user :: "user \<Rightarrow> user \<Rightarrow> bool" where
  "same_user u u' \<longleftrightarrow> u_id u' = u_id u \<and> u_domain_id u' = u_domain_id u \<and> u_local_part u' = u_local_part u
     \<and> u_email u' = u_email u \<and> (user_columns u \<longrightarrow> user_columns u')"

definition same_domain :: "domain \<Rightarrow> domain \<Rightarrow> bool" where
  "same_domain d d' \<longleftrightarrow> d_id d' = d_id d \<and> d_name d' = d_name d"

definition same_secret :: "app_password \<Rightarrow> app_password \<Rightarrow> bool" where
  "same_secret p p' \<longleftrightarrow> p_id p' = p_id p \<and> p_user_id p' = p_user_id p"

locale quiet_store = quiet_relation +
  assumes domain: "insert_domain db dm = Inr db' \<Longrightarrow> R db db'"
    and user: "insert_user db us = Inr db' \<Longrightarrow> R db db'"
    and alias_added: "insert_alias db al = Inr db' \<Longrightarrow> R db db'"
    and session: "insert_session db ss = Inr db' \<Longrightarrow> R db db'"
    and app_password: "insert_app_password db ap = Inr db' \<Longrightarrow> R db db'"
    and domains: "(\<And>x. same_domain x (fd x)) \<Longrightarrow> R db (db\<lparr>domains := update_where Pd fd (domains db)\<rparr>)"
    and users: "(\<And>x. same_user x (fu x)) \<Longrightarrow> R db (db\<lparr>users := update_where Pu fu (users db)\<rparr>)"
    and ended: "R db (db\<lparr>sessions := filter Q (sessions db)\<rparr>)"
    and seen: "R db (db\<lparr>sessions := update_where Q (\<lambda>x. x\<lparr>s_last_seen := t\<rparr>) (sessions db)\<rparr>)"
    and app_passwords: "(\<And>x. same_secret x (fp x)) \<Longrightarrow> R db (db\<lparr>app_passwords := update_where Pp fp (app_passwords db)\<rparr>)"
begin

lemma touch: "(\<And>x. same_user x (f x)) \<Longrightarrow> R db (touch_user i f db)"
  unfolding touch_user_def by (rule users)

lemma saveSystemMailboxes:
  assumes "fold_res (saveSystemMailbox env i) names db = Inr db'"
  shows "R db db'"
  using assms by (rule fold_R [where p = "\<lambda>d. d"]) (auto simp: saveSystemMailbox_def intro: mailbox)

lemma createUser:
  assumes "createUser env email dn h role q ev db = Inr (db', u)"
  shows "R db db'"
proof -
  obtain db1 db2 where s1: "insert_user db u = Inr db1"
    and s2: "fold_res (saveSystemMailbox env (u_id u)) (enumerate 0 SystemMailboxes) db1 = Inr db2"
    and s3: "audit_if env 1 db2 ''user'' (u_id u) ev = Inr db'"
    using assms by (auto simp: createUser_def Let_def split: option.splits)
  show ?thesis by (rule trans [OF user [OF s1] trans [OF saveSystemMailboxes [OF s2] audit(2) [OF s3]]])
qed

lemma revokeAccess: "R db (revokeAccess env i up db)"
proof -
  let ?d = "db\<lparr>sessions := filter (\<lambda>s. s_user_id s \<noteq> i) (sessions db)\<rparr>"
  have "R ?d (?d\<lparr>app_passwords := update_where (\<lambda>p. p_user_id p = i)
      (\<lambda>p. p\<lparr>p_revoked := (case p_revoked p of None \<Rightarrow> Some (clock env 1) | Some t \<Rightarrow> Some t)\<rparr>) (app_passwords ?d)\<rparr>)"
    by (rule app_passwords) (simp add: same_secret_def)
  from trans [OF ended this] show ?thesis by (simp add: revokeAccess_def refl)
qed

lemma updateUser:
  assumes "updateUser env i up event db = Inr db'"
  shows "R db db'"
proof -
  let ?db1 = "db\<lparr>users := update_where (\<lambda>u. u_id u = i) (update_columns env up) (users db)\<rparr>"
  have audit_row: "audit_if env 2 (revokeAccess env i up ?db1) ''user'' i event = Inr db'"
    and ok: "\<forall>s. up_status up = Some s \<longrightarrow> s \<in> {StatusActive, StatusSuspended}"
      "\<forall>r. up_role up = Some r \<longrightarrow> r \<in> {RoleAdmin, RoleUser}" "\<forall>q. up_quota_bytes up = Some q \<longrightarrow> 0 \<le> q"
    using assms unfolding updateUser_def Let_def guard_err_Inr_iff bind_res_Inr_iff by (auto simp: not_less)
  have "same_user x (update_columns env up x)" for x
    using ok by (auto simp: same_user_def user_columns_def update_columns_def Let_def split: option.splits)
  then have "R db ?db1" by (rule users)
  then show ?thesis using audit(2) [OF audit_row] by (blast intro: trans revokeAccess)
qed

lemma saveRoleAliases:
  assumes "fold_res (saveRoleAlias env u n) roles (db, k) = Inr (db', k')"
  shows "R db db'"
proof -
  have "R (fst (db, k)) (fst (db', k'))"
    using assms by (rule fold_R) (auto simp: saveRoleAlias_def Let_def intro: refl alias_added split: if_splits prod.splits)
  then show ?thesis by simp
qed

lemma Initialize:
  assumes "Initialize pa env token inp db = Inr (db', u, d)"
  shows "R db db'"
proof -
  obtain db1 db2 db3 db4 k dn ev where s1: "insert_domain db d = Inr db1" and s2: "insert_user db1 u = Inr db2"
    and s3: "fold_res (saveSystemMailbox env (u_id u)) (enumerate 0 SystemMailboxes) db2 = Inr db3"
    and s4: "fold_res (saveRoleAlias env u dn) role_aliases (db3, 0) = Inr (db4, k)"
    and s5: "insert_audit_row db4 ev = Inr db'"
    using assms by (auto simp: Initialize_def Let_def split: option.splits)
  have "R db1 db3" by (rule trans [OF user [OF s2] saveSystemMailboxes [OF s3]])
  moreover have "R db3 db'" by (rule trans [OF saveRoleAliases [OF s4] audit_row [OF s5]])
  ultimately show ?thesis using domain [OF s1] trans by blast
qed

lemma domains_aliases:
  "createDomain env token n sel pub priv event db = Inr (db', d) \<Longrightarrow> R db db'"
  "createAlias env adr tgt event db = Inr (db', al) \<Longrightarrow> R db db'"
  by (auto simp: createDomain_def createAlias_def Let_def split: option.splits)
    (drule domain, erule trans, erule audit, drule alias_added, erule trans, erule audit)

lemma setDomainVerification:
  assumes "setDomainVerification env i v event db = Inr db'"
  shows "R db db'"
proof -
  let ?f = "\<lambda>d. d\<lparr>d_status := (if v then ''verified'' else ''pending''), d_verified := (if v then Some (clock env 0) else None)\<rparr>"
  have audit_row: "audit_if env (if v then 1 else 0) (db\<lparr>domains := update_where (\<lambda>d. d_id d = i) ?f (domains db)\<rparr>)
      ''domain'' i event = Inr db'"
    using assms unfolding setDomainVerification_def Let_def guard_err_Inr_iff by blast
  have "R db (db\<lparr>domains := update_where (\<lambda>d. d_id d = i) ?f (domains db)\<rparr>)"
    by (rule domains) (simp add: same_domain_def)
  then show ?thesis by (rule trans [OF _ audit(2) [OF audit_row]])
qed

lemma signing_in:
  "R db (fst (Authenticate verify th env email pw app db))"
  "R db (fst (UserForSession env tok db))"
proof -
  have stamp: "R db (d\<lparr>users := update_where (\<lambda>x. u_id x = i) (\<lambda>x. x\<lparr>u_last_login := t\<rparr>) (users d)\<rparr>)" if "R db d" for d i t
    by (rule trans [OF that users]) (simp add: same_user_def user_columns_def)
  have used: "R db (db\<lparr>app_passwords := update_where P (\<lambda>x. x\<lparr>p_last_used := t\<rparr>) (app_passwords db)\<rparr>)" for P t
    by (rule app_passwords) (simp add: same_secret_def)
  show "R db (fst (Authenticate verify th env email pw app db))"
    using stamp [OF refl] stamp [OF used] by (auto simp: Authenticate_def Let_def intro: refl split: sum.splits option.splits)
  show "R db (fst (UserForSession env tok db))"
    by (auto simp: UserForSession_def intro: refl seen split: option.splits)
qed

lemma CreateSession:
  assumes "CreateSession v env uid ver tok ip ua expire db = Inr (db', s)"
  shows "R db db'"
proof -
  let ?d = "db\<lparr>sessions := filter (\<lambda>s. \<not> s_expires s \<le> clock env 0) (sessions db)\<rparr>"
  have evict: "R ?d (?d\<lparr>sessions := evict_sessions uid (sessions ?d)\<rparr>)"
    unfolding evict_sessions_def Let_def by (rule ended)
  have "insert_session (?d\<lparr>sessions := evict_sessions uid (sessions ?d)\<rparr>) s = Inr db'"
    using assms by (auto simp: CreateSession_def Let_def split: option.splits)
  then show ?thesis using trans [OF trans [OF ended evict] session] by blast
qed

lemma app_password_ops:
  "CreateAppPassword env uid n h db = Inr (db', p) \<Longrightarrow> R db db'"
  "RevokeAppPassword env uid i db = Inr db' \<Longrightarrow> R db db'"
proof -
  have touched: "R db (touch_user i (\<lambda>u. u\<lparr>u_updated := t\<rparr>) d)"
    "R db (touch_user i (\<lambda>u. u\<lparr>u_protocol_auth_version := u_protocol_auth_version u + 1, u_updated := t\<rparr>) d)"
    if "R db d" for i t d
    by (auto intro!: trans [OF that touch] simp: same_user_def user_columns_def)
  have revoked: "R db (db\<lparr>app_passwords := update_where P (\<lambda>p. p\<lparr>p_revoked := t\<rparr>) (app_passwords db)\<rparr>)" for P t
    by (rule app_passwords) (simp add: same_secret_def)
  show "CreateAppPassword env uid n h db = Inr (db', p) \<Longrightarrow> R db db'"
    by (auto simp: CreateAppPassword_def Let_def intro: touched(1) [OF app_password])
  show "RevokeAppPassword env uid i db = Inr db' \<Longrightarrow> R db db'"
    by (auto simp: RevokeAppPassword_def Let_def intro: touched(2) revoked)
qed

lemma EnsurePostmaster: "EnsurePostmaster env dn h q db = Inr (db', u) \<Longrightarrow> R db db'"
  by (auto simp: EnsurePostmaster_def Let_def intro: refl createUser split: sum.splits if_splits)

lemma store_step_mail:
  assumes "\<And>x. c = Mail x \<Longrightarrow> R db (mail_step db x)"
  shows "R db (store_step db c)"
proof (cases c)
  case (Mail x)
  then show ?thesis using assms by simp
qed (auto simp: DeleteSession_def DeleteExpiredSessions_def signing_in ended
    intro!: commit_R commit_fst_R intro: Initialize domains_aliases setDomainVerification createUser EnsurePostmaster
      updateUser CreateSession app_password_ops)

lemma store_step_quiet: "(\<And>x. c = Mail x \<Longrightarrow> quiet_cmd x) \<Longrightarrow> R db (store_step db c)"
  by (rule store_step_mail) (rule mail_step_quiet)

end

locale store_relation = quiet_store + mail_relation
begin

lemma store_step: "(\<And>x. c = Mail x \<Longrightarrow> \<not> worker_cmd x) \<Longrightarrow> R db (store_step db c)"
  by (rule store_step_mail) (rule mail_step)

end

text \<open>What queues nothing leaves the queue as it is.\<close>

interpretation quiet_queue: quiet_store "\<lambda>db db'. queue db' = queue db"
  by unfold_locales (auto simp: insert_message_def insert_attachment_def insert_mailbox_def insert_audit_row_def
      delete_messages_def RenameMailbox_def delete_mailbox_def insert_domain_def insert_user_def insert_alias_def
      insert_session_def insert_app_password_def Let_def)

locale store_frame = row_frame keep R
  for keep :: "db \<Rightarrow> 'k" and R :: "db \<Rightarrow> db \<Rightarrow> bool" +
  assumes keep_accounts: "keep (db\<lparr>domains := ds\<rparr>) = keep db" "keep (db\<lparr>users := us\<rparr>) = keep db"
    "keep (db\<lparr>aliases := as\<rparr>) = keep db" "keep (db\<lparr>sessions := ss\<rparr>) = keep db"
    "keep (db\<lparr>app_passwords := ps\<rparr>) = keep db"

sublocale store_frame \<subseteq> store_relation R
  by unfold_locales (auto simp: insert_domain_def insert_user_def insert_alias_def insert_session_def
      insert_app_password_def keep_accounts intro!: same)

end
