(* ===== verification/QueueMachine.thy ===== *)
theory QueueMachine
  imports QueueWorker StoreRelation
begin

text \<open>
  The queue worker as a step relation, with the other parts of the program, cancellation, failing
  statements and crashes between its statements. One worker runs at a time, as in the program.
\<close>

section \<open>Other operations and the queue\<close>

text \<open>For the queue: rows are only added, queued and not yet tried, and IDs stay unique.\<close>

definition queue_grows :: "db \<Rightarrow> db \<Rightarrow> bool" where
  "queue_grows db db' \<longleftrightarrow> (\<exists>new. queue db' = queue db @ new \<and> (\<forall>q \<in> set new. q_status q = Queued \<and> q_attempts q = 0)
     \<and> distinct (map q_id new) \<and> set (map q_id new) \<inter> set (map q_id (queue db)) = {})"

interpretation queue_frame: store_frame queue queue_grows
proof (unfold_locales)
  show "queue db' = queue db \<Longrightarrow> queue_grows db db'" for db db' by (simp add: queue_grows_def)
  show "queue_grows a b \<Longrightarrow> queue_grows b c \<Longrightarrow> queue_grows a c" for a b c
    unfolding queue_grows_def by (elim exE conjE, rule_tac x = "new @ newa" in exI) auto
  show "insert_queue db q = Inr db' \<Longrightarrow> q_status q = Queued \<Longrightarrow> q_attempts q = 0 \<Longrightarrow> queue_grows db db'" for db q db'
    unfolding queue_grows_def by (rule exI [of _ "[q]"]) (auto simp: insert_queue_def list_ex_iff)
qed simp_all

section \<open>The worker as a machine\<close>

text \<open>
  Where the worker is: between batches, after recovering, before the next item, after claiming an item
  (with its attempts counted up), after trying it, and after recording the result.
\<close>

datatype worker_pc =
    Idle
  | Scanned
  | Batch "queue_item list"
  | Claimed queue_item "queue_item list"
  | Tried queue_item "string option" "queue_item list"
  | Finished queue_item "queue_item list"

text \<open>
  Beside the database and the worker's place, the world keeps three histories of item IDs: the items
  handed to the deliverer, those it reported as delivered, and those whose claim or result was lost to
  a crash or a failing statement.
\<close>

record worker_world =
  ww_db :: db
  ww_pc :: worker_pc
  ww_tries :: "string list"
  ww_accepted :: "string list"
  ww_lost :: "string list"

fun held :: "worker_pc \<Rightarrow> queue_item list" where
  "held (Claimed item rest) = [item]"
| "held (Tried item r rest) = [item]"
| "held pc = []"

fun pending :: "worker_pc \<Rightarrow> queue_item list" where
  "pending (Batch items) = items"
| "pending (Claimed item rest) = rest"
| "pending (Tried item r rest) = rest"
| "pending (Finished item rest) = rest"
| "pending pc = []"

inductive worker_step :: "worker_options \<Rightarrow> worker_world \<Rightarrow> worker_world \<Rightarrow> bool" for opts where
  recover: "ww_pc w = Idle \<Longrightarrow>
    worker_step opts w (w\<lparr>ww_db := fst (RecoverStaleQueue env (ww_db w) (now - 30 * minute)), ww_pc := Scanned\<rparr>)"
| ready: "ww_pc w = Scanned \<Longrightarrow>
    worker_step opts w (w\<lparr>ww_pc := Batch (QueueReady env (ww_db w) (wo_batch_size opts))\<rparr>)"
| skip: "ww_pc w = Batch (item # rest) \<Longrightarrow> ClaimQueue env (ww_db w) (q_id item) = (db', False) \<Longrightarrow>
    worker_step opts w (w\<lparr>ww_db := db', ww_pc := Batch rest\<rparr>)"
| claim_fails: "ww_pc w = Batch (item # rest) \<Longrightarrow> worker_step opts w (w\<lparr>ww_pc := Batch rest\<rparr>)"
| claim: "ww_pc w = Batch (item # rest) \<Longrightarrow> ClaimQueue env (ww_db w) (q_id item) = (db', True) \<Longrightarrow>
    worker_step opts w (w\<lparr>ww_db := db', ww_pc := Claimed (item\<lparr>q_attempts := q_attempts item + 1\<rparr>) rest\<rparr>)"
| claim_lost: "ww_pc w = Batch (item # rest) \<Longrightarrow> ClaimQueue env (ww_db w) (q_id item) = (db', True) \<Longrightarrow>
    worker_step opts w (w\<lparr>ww_db := db', ww_pc := Batch rest, ww_lost := ww_lost w @ [q_id item]\<rparr>)"
| tries: "ww_pc w = Claimed item rest \<Longrightarrow> r = attempt be i item (ww_db w) \<Longrightarrow>
    worker_step opts w (w\<lparr>ww_pc := Tried item r rest, ww_tries := ww_tries w @ [q_id item],
      ww_accepted := (if r = None then ww_accepted w @ [q_id item] else ww_accepted w)\<rparr>)"
| finish: "ww_pc w = Tried item r rest \<Longrightarrow>
    worker_step opts w (w\<lparr>ww_db := finish_item opts env item r (ww_db w), ww_pc := Finished item rest\<rparr>)"
| finish_lost: "ww_pc w = Tried item r rest \<Longrightarrow>
    worker_step opts w (w\<lparr>ww_pc := Finished item rest, ww_lost := ww_lost w @ [q_id item]\<rparr>)"
| refresh: "ww_pc w = Finished item rest \<Longrightarrow>
    worker_step opts w (w\<lparr>ww_db := RefreshMessageTransportStatus (ww_db w) (q_message_id item), ww_pc := Batch rest\<rparr>)"
| refresh_fails: "ww_pc w = Finished item rest \<Longrightarrow> worker_step opts w (w\<lparr>ww_pc := Batch rest\<rparr>)"
| stop: "ww_pc w = Batch items \<Longrightarrow> worker_step opts w (w\<lparr>ww_pc := Idle\<rparr>)"
| crash: "worker_step opts w (w\<lparr>ww_pc := Idle, ww_lost := ww_lost w @ map q_id (held (ww_pc w))\<rparr>)"
| other: "(\<And>x. c = Mail x \<Longrightarrow> \<not> worker_cmd x) \<Longrightarrow> worker_step opts w (w\<lparr>ww_db := store_step (ww_db w) c\<rparr>)"

definition worker_start :: "db \<Rightarrow> worker_world" where
  "worker_start db = \<lparr>ww_db = db, ww_pc = Idle, ww_tries = [], ww_accepted = [], ww_lost = []\<rparr>"

definition fresh_queue :: "db \<Rightarrow> bool" where
  "fresh_queue db \<longleftrightarrow> distinct (map q_id (queue db))
     \<and> list_all (\<lambda>q. q_status q = Queued \<and> q_attempts q = 0) (queue db)"

text \<open>All worlds the worker can be in, on any database whose queue had not been worked on.\<close>

definition worker_reachable :: "worker_options \<Rightarrow> worker_world \<Rightarrow> bool" where
  "worker_reachable opts w \<longleftrightarrow> (\<exists>db. fresh_queue db \<and> (worker_step opts)\<^sup>*\<^sup>* (worker_start db) w)"

section \<open>The invariant\<close>

text \<open>
  Each row of the queue against the histories: attempts are counted before they are made; a claim that
  was not lost leads to one attempt; an item can be claimed beyond the maximum only as often as a claim
  of it was lost; a delivery can be repeated only as often as its result was lost.
\<close>

fun claimed :: "worker_pc \<Rightarrow> string \<Rightarrow> bool" where
  "claimed (Claimed item rest) i = (q_id item = i)"
| "claimed pc i = False"

fun succeeded :: "worker_pc \<Rightarrow> string \<Rightarrow> bool" where
  "succeeded (Tried item r rest) i = (q_id item = i \<and> r = None)"
| "succeeded pc i = False"

definition times :: "string list \<Rightarrow> string \<Rightarrow> int" where
  "times xs i = int (count_list xs i)"

definition row_ok :: "int \<Rightarrow> worker_world \<Rightarrow> queue_item \<Rightarrow> bool" where
  "row_ok n w q \<longleftrightarrow>
     (let i = q_id q; open = of_bool (claimed (ww_pc w) i); lost = times (ww_lost w) i in
      times (ww_tries w) i + open \<le> q_attempts q
      \<and> q_attempts q \<le> times (ww_tries w) i + open + lost
      \<and> q_attempts q \<le> n + lost
      \<and> (q_status q = Queued \<or> q_status q = Delivering \<and> i \<notin> q_id ` set (held (ww_pc w)) \<longrightarrow> q_attempts q < n + lost)
      \<and> (q_status q = Failed \<longrightarrow> n \<le> q_attempts q)
      \<and> times (ww_accepted w) i \<le> lost + of_bool (q_status q = Delivered \<or> succeeded (ww_pc w) i)
      \<and> (q_status q = Delivered \<or> succeeded (ww_pc w) i \<longrightarrow> 1 \<le> times (ww_accepted w) i))"

definition same_row :: "queue_status \<Rightarrow> queue_item \<Rightarrow> queue_item \<Rightarrow> bool" where
  "same_row s item q \<longleftrightarrow> q_id q = q_id item \<and> q_attempts q = q_attempts item \<and> q_status q = s"

definition worker_inv :: "int \<Rightarrow> worker_world \<Rightarrow> bool" where
  "worker_inv n w \<longleftrightarrow> distinct (map q_id (queue (ww_db w)))
     \<and> set (ww_tries w) \<union> set (ww_accepted w) \<subseteq> q_id ` set (queue (ww_db w))
     \<and> distinct (map q_id (held (ww_pc w) @ pending (ww_pc w)))
     \<and> (\<forall>item \<in> set (held (ww_pc w)). \<exists>q \<in> set (queue (ww_db w)). same_row Delivering item q)
     \<and> (\<forall>item \<in> set (pending (ww_pc w)). \<exists>q \<in> set (queue (ww_db w)). same_row Queued item q)
     \<and> (\<forall>q \<in> set (queue (ww_db w)). row_ok n w q)"

lemma unique_row:
  assumes "distinct (map q_id (queue db))" and "\<exists>q' \<in> set (queue db). same_row s item q'"
    and "q \<in> set (queue db)" and "q_id q = q_id item"
  shows "same_row s item q"
proof -
  obtain q' where q': "q' \<in> set (queue db)" "same_row s item q'" using assms(2) by blast
  then have "q' = q" using assms by (auto simp: same_row_def distinct_map intro: inj_onD)
  then show ?thesis using q'(2) by simp
qed

lemma worker_inv_rows:
  assumes "worker_inv n w"
  shows "distinct (map q_id (queue (ww_db w)))"
    and "set (ww_tries w) \<union> set (ww_accepted w) \<subseteq> q_id ` set (queue (ww_db w))"
    and "distinct (map q_id (held (ww_pc w) @ pending (ww_pc w)))"
    and "item \<in> set (held (ww_pc w)) \<Longrightarrow> \<exists>q \<in> set (queue (ww_db w)). same_row Delivering item q"
    and "item \<in> set (pending (ww_pc w)) \<Longrightarrow> \<exists>q \<in> set (queue (ww_db w)). same_row Queued item q"
    and "q \<in> set (queue (ww_db w)) \<Longrightarrow> row_ok n w q"
    and "item \<in> set (held (ww_pc w)) \<Longrightarrow> q \<in> set (queue (ww_db w)) \<Longrightarrow> q_id q = q_id item \<Longrightarrow> same_row Delivering item q"
    and "item \<in> set (pending (ww_pc w)) \<Longrightarrow> q \<in> set (queue (ww_db w)) \<Longrightarrow> q_id q = q_id item \<Longrightarrow> same_row Queued item q"
  using assms unique_row unfolding worker_inv_def by blast+

text \<open>A step that rewrites rows one by one keeps the invariant if it keeps it for each row.\<close>

lemma worker_invI:
  assumes inv: "worker_inv n w"
    and queue: "queue (ww_db w') = map g (queue (ww_db w))" and ids: "\<And>q. q_id (g q) = q_id q"
    and hist: "set (ww_tries w') \<union> set (ww_accepted w') \<subseteq> q_id ` set (queue (ww_db w))"
    and dist: "distinct (map q_id (held (ww_pc w') @ pending (ww_pc w')))"
    and held: "\<And>item. item \<in> set (held (ww_pc w')) \<Longrightarrow> \<exists>q \<in> set (queue (ww_db w)). same_row Delivering item (g q)"
    and pend: "\<And>item. item \<in> set (pending (ww_pc w')) \<Longrightarrow> \<exists>q \<in> set (queue (ww_db w)). same_row Queued item (g q)"
    and rows: "\<And>q. q \<in> set (queue (ww_db w)) \<Longrightarrow> row_ok n w q \<Longrightarrow> row_ok n w' (g q)"
  shows "worker_inv n w'"
proof -
  have "q_id ` g ` set (queue (ww_db w)) = q_id ` set (queue (ww_db w))"
    by (simp add: image_image ids)
  moreover have "distinct (map q_id (map g (queue (ww_db w))))"
    using worker_inv_rows(1) [OF inv] by (simp add: comp_def ids)
  ultimately show ?thesis
    using hist dist held pend rows worker_inv_rows(6) [OF inv] unfolding worker_inv_def queue by auto
qed

text \<open>The case of no rewriting.\<close>

lemma worker_invI_same:
  assumes inv: "worker_inv n w" and queue: "queue (ww_db w') = queue (ww_db w)"
    and hist: "set (ww_tries w') \<union> set (ww_accepted w') \<subseteq> q_id ` set (queue (ww_db w))"
    and dist: "distinct (map q_id (held (ww_pc w') @ pending (ww_pc w')))"
    and held: "set (held (ww_pc w')) \<subseteq> set (held (ww_pc w))"
    and pend: "\<And>item. item \<in> set (pending (ww_pc w')) \<Longrightarrow> \<exists>q \<in> set (queue (ww_db w)). same_row Queued item q"
    and rows: "\<And>q. q \<in> set (queue (ww_db w)) \<Longrightarrow> row_ok n w q \<Longrightarrow> row_ok n w' q"
  shows "worker_inv n w'"
  by (rule worker_invI [where g = "\<lambda>q. q", OF inv])
    (use assms worker_inv_rows(4) [OF inv] in auto)

lemma update_queue_map [simp]: "queue (update_queue P f db) = map (\<lambda>q. if P q then f q else q) (queue db)"
  by (simp add: update_queue_def update_where_def)

lemma times_simps [simp]:
  "times [] i = 0" "times (xs @ ys) i = times xs i + times ys i" "times [j] i = of_bool (j = i)" "0 \<le> times xs i"
  by (simp_all add: times_def)

lemma times_notin: "i \<notin> set xs \<Longrightarrow> times xs i = 0"
  by (simp add: times_def count_list_0_iff)

lemma ClaimQueue_True:
  assumes "ClaimQueue env db i = (db', True)"
  shows "queue db' = map (\<lambda>q. if q_id q = i \<and> q_status q = Queued then
      q\<lparr>q_status := Delivering, q_attempts := q_attempts q + 1, q_updated := clock env 0\<rparr> else q) (queue db)"
    and "messages db' = messages db"
  using assms by (auto simp: ClaimQueue_def Let_def update_queue_def update_where_def)

lemma ClaimQueue_False:
  assumes "ClaimQueue env db i = (db', False)" and "distinct (map q_id (queue db))"
  shows "queue db' = queue db"
proof -
  let ?P = "\<lambda>q. q_id q = i \<and> q_status q = Queued"
  have no: "count_where ?P (queue db) \<noteq> 1" and db': "db' = update_queue ?P (\<lambda>q. q\<lparr>q_status := Delivering,
      q_attempts := q_attempts q + 1, q_updated := clock env 0\<rparr>) db"
    using assms(1) by (auto simp: ClaimQueue_def Let_def)
  have "\<not> ?P q" if q: "q \<in> set (queue db)" for q
  proof
    assume P: "?P q"
    have "count_where ?P (queue db) \<le> 1"
      by (rule count_where_unique [where u = q])
        (use assms(2) q P in \<open>auto simp: distinct_map dest: inj_onD\<close>)
    moreover have "0 < count_where ?P (queue db)" using q P by (auto simp: count_where_pos)
    ultimately show False using no by simp
  qed
  then have "map (\<lambda>q. if ?P q then f q else q) (queue db) = queue db" for f
    by (intro map_idI) auto
  then show ?thesis by (simp only: db' update_queue_map)
qed

lemma QueueReady_rows:
  "set (QueueReady env db limit) \<subseteq> {q \<in> set (queue db). q_status q = Queued \<and> q_next_attempt q \<le> clock env 0}"
  by (auto simp: QueueReady_def Let_def dest: in_set_takeD)

lemma QueueReady_distinct:
  assumes "distinct (map q_id (queue db))"
  shows "distinct (map q_id (QueueReady env db limit))"
proof -
  let ?s = "sort_key q_next_attempt (filter (\<lambda>q. q_status q = Queued \<and> q_next_attempt q \<le> clock env 0) (queue db))"
  have "distinct (map q_id ?s)"
    using distinct_map_filter_key [OF assms] by (simp add: distinct_map)
  then show ?thesis by (simp add: QueueReady_def Let_def take_map [symmetric])
qed

section \<open>Every step keeps the invariant\<close>

lemma inv_recover:
  assumes inv: "worker_inv n w" and pc: "ww_pc w = Idle"
  shows "worker_inv n (w\<lparr>ww_db := fst (RecoverStaleQueue env (ww_db w) t), ww_pc := Scanned\<rparr>)"
  by (rule worker_invI [OF inv, where g = "\<lambda>q. if q_status q = Delivering \<and> q_updated q < t
        then q\<lparr>q_status := Queued, q_next_attempt := clock env 0,
              q_last_error := ''previous delivery worker stopped before completion'',
              q_updated := clock env 0\<rparr> else q"])
    (use worker_inv_rows(2) [OF inv] in \<open>auto simp: RecoverStaleQueue_def Let_def row_ok_def pc\<close>)

lemma inv_ready:
  assumes inv: "worker_inv n w" and pc: "ww_pc w = Scanned"
  shows "worker_inv n (w\<lparr>ww_pc := Batch (QueueReady env (ww_db w) limit)\<rparr>)"
  by (rule worker_invI_same [OF inv])
    (use worker_inv_rows(1,2) [OF inv] QueueReady_rows [of env "ww_db w" limit] in
      \<open>auto simp: row_ok_def pc same_row_def intro: QueueReady_distinct\<close>)

lemma inv_claim:
  assumes inv: "worker_inv n w" and pc: "ww_pc w = Batch (item # rest)"
    and claim: "ClaimQueue env (ww_db w) (q_id item) = (db', True)"
    and w': "w' = w\<lparr>ww_db := db', ww_pc := Claimed (item\<lparr>q_attempts := q_attempts item + 1\<rparr>) rest\<rparr>
      \<or> w' = w\<lparr>ww_db := db', ww_pc := Batch rest, ww_lost := ww_lost w @ [q_id item]\<rparr>"
  shows "worker_inv n w'"
proof -
  let ?g = "\<lambda>q. if q_id q = q_id item \<and> q_status q = Queued then
      q\<lparr>q_status := Delivering, q_attempts := q_attempts q + 1, q_updated := clock env 0\<rparr> else q"
  have row: "same_row Queued item q" if "q \<in> set (queue (ww_db w))" "q_id q = q_id item" for q
    using worker_inv_rows(8) [OF inv, of item q] that by (simp add: pc)
  have dist: "q_id item \<notin> q_id ` set rest" "distinct (map q_id rest)"
    using worker_inv_rows(3) [OF inv] by (simp_all add: pc)
  obtain q where q: "q \<in> set (queue (ww_db w))" "same_row Queued item q"
    using worker_inv_rows(5) [OF inv, of item] by (auto simp: pc)
  have rest: "\<exists>q \<in> set (queue (ww_db w)). same_row Queued x (?g q)" if x: "x \<in> set rest" for x
  proof -
    obtain p where p: "p \<in> set (queue (ww_db w))" "same_row Queued x p"
      using worker_inv_rows(5) [OF inv, of x] x by (auto simp: pc)
    moreover have "q_id p \<noteq> q_id item" using p(2) dist(1) x by (force simp: same_row_def)
    ultimately show ?thesis by (intro bexI [of _ p]) auto
  qed
  show ?thesis
  proof (rule worker_invI [OF inv, where g = ?g])
    show "queue (ww_db w') = map ?g (queue (ww_db w))" using w' by (auto simp: ClaimQueue_True(1) [OF claim])
    show "set (ww_tries w') \<union> set (ww_accepted w') \<subseteq> q_id ` set (queue (ww_db w))"
      using w' worker_inv_rows(2) [OF inv] by auto
    show "distinct (map q_id (held (ww_pc w') @ pending (ww_pc w')))" using w' dist by auto
    show "\<exists>q \<in> set (queue (ww_db w)). same_row Delivering x (?g q)" if "x \<in> set (held (ww_pc w'))" for x
      using w' that q by (intro bexI [of _ q]) (auto simp: same_row_def)
    show "\<exists>q \<in> set (queue (ww_db w)). same_row Queued x (?g q)" if "x \<in> set (pending (ww_pc w'))" for x
      by (rule rest) (use w' that in auto)
    show "row_ok n w' (?g q)" if "q \<in> set (queue (ww_db w))" "row_ok n w q" for q
    proof (cases "q_id q = q_id item")
      case True
      then have "q_status q = Queued" using row [OF that(1)] by (simp add: same_row_def)
      from w' show ?thesis
      proof
        assume "w' = w\<lparr>ww_db := db', ww_pc := Claimed (item\<lparr>q_attempts := q_attempts item + 1\<rparr>) rest\<rparr>"
        then show ?thesis using that(2) True \<open>q_status q = Queued\<close> by (simp add: row_ok_def pc Let_def)
      next
        assume "w' = w\<lparr>ww_db := db', ww_pc := Batch rest, ww_lost := ww_lost w @ [q_id item]\<rparr>"
        then show ?thesis using that(2) True \<open>q_status q = Queued\<close> by (simp add: row_ok_def pc Let_def)
      qed
    next
      case False
      with w' that(2) show ?thesis by (elim disjE) (simp_all add: row_ok_def pc)
    qed
  qed simp
qed

lemma inv_try:
  assumes inv: "worker_inv n w" and pc: "ww_pc w = Claimed item rest"
    and w': "w' = w\<lparr>ww_pc := Tried item r rest, ww_tries := ww_tries w @ [q_id item],
      ww_accepted := (if r = None then ww_accepted w @ [q_id item] else ww_accepted w)\<rparr>"
  shows "worker_inv n w'"
proof (rule worker_invI_same [OF inv])
  obtain q where "q \<in> set (queue (ww_db w))" "same_row Delivering item q"
    using worker_inv_rows(4) [OF inv, of item] by (auto simp: pc)
  then have p: "q_id item \<in> q_id ` set (queue (ww_db w))" unfolding same_row_def by (metis imageI)
  show "set (ww_tries w') \<union> set (ww_accepted w') \<subseteq> q_id ` set (queue (ww_db w))"
    using worker_inv_rows(2) [OF inv] p by (auto simp: w')
  show "row_ok n w' q" if "q \<in> set (queue (ww_db w))" "row_ok n w q" for q
  proof (cases "q_id q = q_id item")
    case True
    moreover have "q_status q = Delivering"
      using worker_inv_rows(7) [OF inv, of item q] that(1) True by (simp add: pc same_row_def)
    ultimately show ?thesis using that(2) by (cases r) (simp_all add: row_ok_def pc w' Let_def)
  next
    case False
    then show ?thesis using that(2) by (cases r) (simp_all add: row_ok_def pc w')
  qed
  show "\<exists>q \<in> set (queue (ww_db w)). same_row Queued x q" if "x \<in> set (pending (ww_pc w'))" for x
    using worker_inv_rows(5) [OF inv, of x] that by (simp add: pc w')
qed (use worker_inv_rows(3) [OF inv] pc w' in simp_all)

lemma inv_finish:
  assumes inv: "worker_inv (wo_max_attempts opts) w" and pc: "ww_pc w = Tried item r rest"
  shows "worker_inv (wo_max_attempts opts)
    (w\<lparr>ww_db := finish_item opts env item r (ww_db w), ww_pc := Finished item rest\<rparr>)"
proof -
  let ?g = "\<lambda>q. if q_id q = q_id item then (case r of
        None \<Rightarrow> q\<lparr>q_status := Delivered, q_delivered := Some (clock env 0), q_updated := clock env 0, q_last_error := []\<rparr>
      | Some e \<Rightarrow> q\<lparr>q_status := (if q_attempts item \<ge> wo_max_attempts opts then Failed else Queued),
          q_next_attempt := clock env 0 + retry_delay (q_attempts item),
          q_last_error := QueueStore.truncate (safeError e) 2000, q_updated := clock env 1\<rparr>) else q"
  have dist: "q_id item \<notin> q_id ` set rest" "distinct (map q_id rest)"
    using worker_inv_rows(3) [OF inv] by (simp_all add: pc)
  have row: "same_row Delivering item q" if "q \<in> set (queue (ww_db w))" "q_id q = q_id item" for q
    using worker_inv_rows(7) [OF inv, of item q] that by (simp add: pc)
  have rest: "\<exists>q \<in> set (queue (ww_db w)). same_row Queued x (?g q)" if x: "x \<in> set rest" for x
  proof -
    obtain p where p: "p \<in> set (queue (ww_db w))" "same_row Queued x p"
      using worker_inv_rows(5) [OF inv, of x] x by (auto simp: pc)
    moreover have "q_id p \<noteq> q_id item" using p(2) dist(1) x by (force simp: same_row_def)
    ultimately show ?thesis by (intro bexI [of _ p]) auto
  qed
  show ?thesis
  proof (rule worker_invI [OF inv, where g = ?g])
    show "\<exists>q \<in> set (queue (ww_db w)). same_row Queued x (?g q)"
      if "x \<in> set (pending (ww_pc (w\<lparr>ww_db := finish_item opts env item r (ww_db w), ww_pc := Finished item rest\<rparr>)))" for x
      by (rule rest) (use that in simp)
    show "row_ok (wo_max_attempts opts)
        (w\<lparr>ww_db := finish_item opts env item r (ww_db w), ww_pc := Finished item rest\<rparr>) (?g q)"
      if "q \<in> set (queue (ww_db w))" "row_ok (wo_max_attempts opts) w q" for q
    proof (cases "q_id q = q_id item")
      case True
      then have "q_attempts q = q_attempts item" "q_status q = Delivering"
        using row [OF that(1)] by (simp_all add: same_row_def)
      then show ?thesis using that(2) True by (cases r) (simp_all add: row_ok_def pc Let_def)
    next
      case False
      then show ?thesis using that(2) by (simp add: row_ok_def pc)
    qed
  qed (use dist worker_inv_rows(2) [OF inv] in
      \<open>auto simp: finish_item_def CompleteQueue_def RetryQueue_def Let_def split: option.splits\<close>)
qed

lemma inv_lost:
  assumes inv: "worker_inv n w" and pc': "held pc' = []" "pending pc' = [] \<or> pending pc' = pending (ww_pc w)"
    and "\<And>i. \<not> claimed pc' i \<and> \<not> succeeded pc' i"
  shows "worker_inv n (w\<lparr>ww_pc := pc', ww_lost := ww_lost w @ map q_id (held (ww_pc w))\<rparr>)"
proof (rule worker_invI_same [OF inv])
  show "row_ok n (w\<lparr>ww_pc := pc', ww_lost := ww_lost w @ map q_id (held (ww_pc w))\<rparr>) q"
    if "q \<in> set (queue (ww_db w))" "row_ok n w q" for q
  proof (cases "\<exists>item \<in> set (held (ww_pc w)). q_id q = q_id item")
    case True
    then obtain item where item: "held (ww_pc w) = [item]" "q_id q = q_id item" by (cases "ww_pc w") auto
    have "q_status q = Delivering"
      using worker_inv_rows(7) [OF inv, of item q] that(1) item by (simp add: same_row_def)
    then show ?thesis using that(2) assms(2,4) item
      by (cases "ww_pc w") (auto simp: row_ok_def Let_def of_bool_def split: if_splits)
  next
    case False
    then show ?thesis using that(2) assms(2,4) by (cases "ww_pc w") (auto simp: row_ok_def Let_def)
  qed
  show "distinct (map q_id (held (ww_pc (w\<lparr>ww_pc := pc', ww_lost := ww_lost w @ map q_id (held (ww_pc w))\<rparr>)) @
      pending (ww_pc (w\<lparr>ww_pc := pc', ww_lost := ww_lost w @ map q_id (held (ww_pc w))\<rparr>))))"
    using worker_inv_rows(3) [OF inv] pc' by auto
  show "\<exists>q \<in> set (queue (ww_db w)). same_row Queued x q"
    if "x \<in> set (pending (ww_pc (w\<lparr>ww_pc := pc', ww_lost := ww_lost w @ map q_id (held (ww_pc w))\<rparr>)))" for x
    using worker_inv_rows(5) [OF inv, of x] that pc'(2) by auto
qed (use worker_inv_rows(2) [OF inv] pc' in simp_all)

lemma inv_other:
  assumes inv: "worker_inv n w" and "0 < n" and grows: "queue_grows (ww_db w) db'"
  shows "worker_inv n (w\<lparr>ww_db := db'\<rparr>)"
proof -
  obtain new where new: "queue db' = queue (ww_db w) @ new"
      "\<forall>q \<in> set new. q_status q = Queued \<and> q_attempts q = 0" "distinct (map q_id new)"
      "set (map q_id new) \<inter> set (map q_id (queue (ww_db w))) = {}"
    using grows unfolding queue_grows_def by blast
  have held_rows: "\<exists>q \<in> set (queue (ww_db w)). q_id q = q_id item" if "item \<in> set (held (ww_pc w))" for item
    using worker_inv_rows(4) [OF inv that] by (auto simp: same_row_def)
  have "row_ok n (w\<lparr>ww_db := db'\<rparr>) q" if q: "q \<in> set new" for q
  proof -
    have fresh: "q_id q \<notin> q_id ` set (queue (ww_db w))" using new(4) q by auto
    then have "times (ww_tries w) (q_id q) = 0" "times (ww_accepted w) (q_id q) = 0"
      using worker_inv_rows(2) [OF inv] by (blast intro: times_notin)+
    moreover have "\<not> claimed (ww_pc w) (q_id q)" "\<not> succeeded (ww_pc w) (q_id q)"
      using fresh held_rows by (cases "ww_pc w"; auto simp: image_iff)+
    moreover have "0 \<le> times (ww_lost w) (q_id q)" by simp
    moreover have "q_status q = Queued" "q_attempts q = 0" using new(2) q by simp_all
    ultimately show ?thesis using \<open>0 < n\<close> by (simp add: row_ok_def Let_def add_pos_nonneg)
  qed
  moreover have "row_ok n (w\<lparr>ww_db := db'\<rparr>) q = row_ok n w q" for q by (simp add: row_ok_def)
  ultimately show ?thesis
    using inv new unfolding worker_inv_def by (auto 0 3 simp: image_Un)
qed

lemma store_step_grows: "(\<And>x. c = Mail x \<Longrightarrow> \<not> worker_cmd x) \<Longrightarrow> queue_grows db (store_step db c)"
  by (rule queue_frame.store_step)

lemma worker_step_inv:
  assumes "worker_step opts w w'" and inv: "worker_inv (wo_max_attempts opts) w" and "0 < wo_max_attempts opts"
  shows "worker_inv (wo_max_attempts opts) w'"
  using assms(1)
proof cases
  case (recover env now)
  then show ?thesis using inv_recover [OF inv] by simp
next
  case (ready env)
  then show ?thesis using inv_ready [OF inv] by simp
next
  case (skip item rest env db')
  have "queue db' = queue (ww_db w)" by (rule ClaimQueue_False [OF skip(3) worker_inv_rows(1) [OF inv]])
  with skip show ?thesis
    by (intro worker_invI_same [OF inv]) (use worker_inv_rows(2,3,5) [OF inv] in \<open>auto simp: row_ok_def\<close>)
next
  case (claim_fails item rest)
  then show ?thesis
    by (intro worker_invI_same [OF inv]) (use worker_inv_rows(2,3,5) [OF inv] in \<open>auto simp: row_ok_def\<close>)
next
  case (claim item rest env db')
  then show ?thesis by (intro inv_claim [OF inv claim(2,3)]) simp
next
  case (claim_lost item rest env db')
  then show ?thesis by (intro inv_claim [OF inv claim_lost(2,3)]) simp
next
  case (tries item rest r be i)
  then show ?thesis by (intro inv_try [OF inv tries(2)]) simp
next
  case (finish item r rest env)
  then show ?thesis using inv_finish [OF inv] by simp
next
  case (finish_lost item r rest)
  then show ?thesis using inv_lost [OF inv, of "Finished item rest"] by simp
next
  case (refresh item rest)
  then show ?thesis
    by (intro worker_invI_same [OF inv])
      (use worker_inv_rows(2,3,5) [OF inv] in \<open>auto simp: row_ok_def RefreshMessageTransportStatus_def\<close>)
next
  case (refresh_fails item rest)
  then show ?thesis
    by (intro worker_invI_same [OF inv]) (use worker_inv_rows(2,3,5) [OF inv] in \<open>auto simp: row_ok_def\<close>)
next
  case (stop items)
  then show ?thesis
    by (intro worker_invI_same [OF inv]) (use worker_inv_rows(2) [OF inv] in \<open>auto simp: row_ok_def\<close>)
next
  case crash
  then show ?thesis using inv_lost [OF inv, of Idle] by simp
next
  case (other c)
  then show ?thesis using inv_other [OF inv assms(3) store_step_grows] by simp
qed

lemma new_worker_attempts: "0 < wo_max_attempts (new_worker o0)"
  by (simp add: new_worker_def Let_def)

lemma worker_start_inv: "fresh_queue db \<Longrightarrow> 0 < n \<Longrightarrow> worker_inv n (worker_start db)"
  by (auto simp: worker_start_def worker_inv_def fresh_queue_def row_ok_def Let_def list_all_iff)

lemma worker_reachable_inv:
  assumes "worker_reachable opts w" and "0 < wo_max_attempts opts"
  shows "worker_inv (wo_max_attempts opts) w"
proof -
  obtain db where db: "fresh_queue db" and run: "(worker_step opts)\<^sup>*\<^sup>* (worker_start db) w"
    using assms(1) unfolding worker_reachable_def by blast
  from run show ?thesis
    by (induction rule: rtranclp_induct)
      (use db assms(2) in \<open>auto intro: worker_start_inv worker_step_inv\<close>)
qed

lemma worker_reachable_step: "worker_reachable opts w \<Longrightarrow> worker_step opts w w' \<Longrightarrow> worker_reachable opts w'"
  unfolding worker_reachable_def by (meson rtranclp.rtrancl_into_rtrancl)

text \<open>A row that is delivered or failed is never written again.\<close>

definition finished_row :: "queue_item \<Rightarrow> bool" where
  "finished_row q \<longleftrightarrow> q_status q = Delivered \<or> q_status q = Failed"

lemma finished_row_step:
  assumes step: "worker_step opts w w'" and inv: "worker_inv n w"
    and q: "q \<in> set (queue (ww_db w))" "finished_row q"
  shows "q \<in> set (queue (ww_db w'))"
proof -
  have mapI: "q \<in> g ` set (queue (ww_db w))" if "g q = q" for g using that q(1) by (metis imageI)
  from step show ?thesis
  proof cases
    case (recover env now)
    then show ?thesis using q by (auto simp: RecoverStaleQueue_def Let_def finished_row_def intro!: mapI)
  next
    case (skip item rest env db')
    then show ?thesis using q ClaimQueue_False [OF skip(3) worker_inv_rows(1) [OF inv]] by simp
  next
    case (claim item rest env db')
    then show ?thesis using q by (auto simp: ClaimQueue_True(1) [OF claim(3)] finished_row_def intro!: mapI)
  next
    case (claim_lost item rest env db')
    then show ?thesis using q by (auto simp: ClaimQueue_True(1) [OF claim_lost(3)] finished_row_def intro!: mapI)
  next
    case (finish item r rest env)
    have "q_id q \<noteq> q_id item"
      using worker_inv_rows(7) [OF inv, of item q] q finish(2) by (auto simp: same_row_def finished_row_def)
    then show ?thesis using finish q
      by (auto simp: finish_item_def CompleteQueue_def RetryQueue_def Let_def intro!: mapI split: option.split)
  next
    case (other c)
    then show ?thesis using q store_step_grows [of c "ww_db w"] by (auto simp: queue_grows_def)
  qed (use q in \<open>auto simp: RefreshMessageTransportStatus_def\<close>)
qed

lemma finished_row_run:
  assumes "(worker_step opts)\<^sup>*\<^sup>* w w'" and "worker_inv (wo_max_attempts opts) w" and "0 < wo_max_attempts opts"
    and "q \<in> set (queue (ww_db w))" and "finished_row q"
  shows "q \<in> set (queue (ww_db w'))"
proof -
  from assms(1) have "q \<in> set (queue (ww_db w')) \<and> worker_inv (wo_max_attempts opts) w'"
    by (induction rule: rtranclp_induct) (use assms(2-) in \<open>auto intro: finished_row_step worker_step_inv\<close>)
  then show ?thesis by simp
qed

section \<open>A batch is a run of the machine\<close>

lemma four_steps: "R a b \<Longrightarrow> R b c \<Longrightarrow> R c d \<Longrightarrow> R d e \<Longrightarrow> R\<^sup>*\<^sup>* a e"
  by (meson converse_rtranclp_into_rtranclp rtranclp.rtrancl_refl)

lemma process_item_run:
  assumes pc: "ww_pc w = Batch (item # rest)"
  obtains w' where "(worker_step opts)\<^sup>*\<^sup>* w w'" and "ww_pc w' = Batch rest" and "ww_lost w' = ww_lost w"
    and "ww_db w' = process_item opts be i item (ww_db w)"
proof (cases "ClaimQueue (be_claim be i) (ww_db w) (q_id item)")
  case (Pair db1 claimed)
  show ?thesis
  proof (cases claimed)
    case False
    let ?w = "w\<lparr>ww_db := db1, ww_pc := Batch rest\<rparr>"
    have "worker_step opts w ?w"
      by (rule worker_step.skip [OF pc]) (use Pair False in simp)
    then show ?thesis by (intro that [of ?w]) (simp_all add: process_item_def Pair False)
  next
    case True
    let ?item = "item\<lparr>q_attempts := q_attempts item + 1\<rparr>"
    let ?r = "attempt be i ?item db1"
    let ?w1 = "w\<lparr>ww_db := db1, ww_pc := Claimed ?item rest\<rparr>"
    let ?w2 = "?w1\<lparr>ww_pc := Tried ?item ?r rest, ww_tries := ww_tries ?w1 @ [q_id ?item],
      ww_accepted := (if ?r = None then ww_accepted ?w1 @ [q_id ?item] else ww_accepted ?w1)\<rparr>"
    let ?w3 = "?w2\<lparr>ww_db := finish_item opts (be_finish be i) ?item ?r (ww_db ?w2), ww_pc := Finished ?item rest\<rparr>"
    let ?w4 = "?w3\<lparr>ww_db := RefreshMessageTransportStatus (ww_db ?w3) (q_message_id ?item), ww_pc := Batch rest\<rparr>"
    have s1: "worker_step opts w ?w1" by (rule worker_step.claim [OF pc]) (use Pair True in simp)
    have s2: "worker_step opts ?w1 ?w2" by (rule worker_step.tries) simp_all
    have s3: "worker_step opts ?w2 ?w3" by (rule worker_step.finish [of ?w2 ?item ?r rest opts "be_finish be i"]) simp
    have s4: "worker_step opts ?w3 ?w4" by (rule worker_step.refresh [of ?w3 ?item rest opts]) simp
    have "(worker_step opts)\<^sup>*\<^sup>* w ?w4"
      by (rule four_steps [of "worker_step opts", OF s1 s2 s3 s4])
    then show ?thesis by (intro that [of ?w4]) (simp_all add: process_item_def Pair True Let_def)
  qed
qed

lemma process_items_run:
  assumes "ww_pc w = Batch items"
  shows "\<exists>w'. (worker_step opts)\<^sup>*\<^sup>* w w' \<and> ww_pc w' = Idle \<and> ww_lost w' = ww_lost w
    \<and> ww_db w' = process_items opts be i items (ww_db w)"
  using assms
proof (induction items arbitrary: w i)
  case Nil
  then have "worker_step opts w (w\<lparr>ww_pc := Idle\<rparr>)" by (rule worker_step.stop)
  then show ?case by (intro exI [of _ "w\<lparr>ww_pc := Idle\<rparr>"]) auto
next
  case (Cons item rest)
  show ?case
  proof (cases "be_cancelled be i")
    case True
    have "worker_step opts w (w\<lparr>ww_pc := Idle\<rparr>)" by (rule worker_step.stop [OF Cons.prems])
    then show ?thesis using True by (intro exI [of _ "w\<lparr>ww_pc := Idle\<rparr>"]) auto
  next
    case False
    obtain w1 where w1: "(worker_step opts)\<^sup>*\<^sup>* w w1" "ww_pc w1 = Batch rest" "ww_lost w1 = ww_lost w"
        "ww_db w1 = process_item opts be i item (ww_db w)"
      by (rule process_item_run [OF Cons.prems])
    obtain w' where "(worker_step opts)\<^sup>*\<^sup>* w1 w'" "ww_pc w' = Idle" "ww_lost w' = ww_lost w1"
        "ww_db w' = process_items opts be (i + 1) rest (ww_db w1)"
      using Cons.IH [OF w1(2)] by blast
    then show ?thesis using w1 False by (intro exI [of _ w']) (auto intro: rtranclp_trans)
  qed
qed

lemma runBatch_run:
  assumes "ww_pc w = Idle"
  shows "\<exists>w'. (worker_step opts)\<^sup>*\<^sup>* w w' \<and> ww_pc w' = Idle \<and> ww_lost w' = ww_lost w
    \<and> ww_db w' = runBatch opts be (ww_db w)"
proof -
  let ?w1 = "w\<lparr>ww_db := fst (RecoverStaleQueue (be_recover be) (ww_db w) (be_now be - 30 * minute)), ww_pc := Scanned\<rparr>"
  let ?w2 = "?w1\<lparr>ww_pc := Batch (QueueReady (be_ready be) (ww_db ?w1) (wo_batch_size opts))\<rparr>"
  have "worker_step opts w ?w1" by (rule worker_step.recover [OF assms])
  moreover have "worker_step opts ?w1 ?w2" by (rule worker_step.ready) simp
  ultimately have "(worker_step opts)\<^sup>*\<^sup>* w ?w2" by simp
  moreover obtain w' where "(worker_step opts)\<^sup>*\<^sup>* ?w2 w'" "ww_pc w' = Idle" "ww_lost w' = ww_lost ?w2"
      "ww_db w' = process_items opts be 0 (QueueReady (be_ready be) (ww_db ?w1) (wo_batch_size opts)) (ww_db ?w2)"
    using process_items_run [of ?w2] by fastforce
  ultimately show ?thesis
    by (intro exI [of _ w']) (auto simp: runBatch_def Let_def intro: rtranclp_trans)
qed

end
