(* ===== verification/QueueProperties.thy ===== *)
theory QueueProperties
  imports QueueMachine
begin

text \<open>
  What the outgoing queue promises: no item is worked on after its end, attempts and duplicates are
  bounded, the code's batch is a run of the machine, a message shows the state of its deliveries, the
  schedule of the attempts, and what leaves the server.
\<close>

section \<open>An example\<close>

definition queue_message :: message where
  "queue_message = \<lparr>m_id = ''m'', m_rfc_id = [], m_thread_key = [], m_envelope_from = ''a@x.y'', m_envelope_to = [''b@z.w''],
     m_from = ''a@x.y'', m_to = [''b@z.w''], m_cc = [], m_bcc = [], m_reply_to = [], m_subject = [], m_text = [], m_html = [],
     m_snippet = [], m_raw = ''hi'', m_size = 2, m_attachment_count = 0, m_direction = ''outbound'', m_status = ''queued'',
     m_sent = None, m_received = 0, m_created = 0\<rparr>"

definition queue_row :: queue_item where
  "queue_row = \<lparr>q_id = ''q'', q_message_id = ''m'', q_recipient = ''b@z.w'', q_status = Queued, q_attempts = 0,
     q_next_attempt = 0, q_last_error = [], q_delivered = None, q_created = 0, q_updated = 0\<rparr>"

definition queue_db :: db where
  "queue_db = empty_db\<lparr>messages := [queue_message], queue := [queue_row]\<rparr>"

definition still_env :: env where
  "still_env = \<lparr>clock = (\<lambda>_. 100), new_id = (\<lambda>_ _. [])\<rparr>"

definition queue_batch :: "string option \<Rightarrow> batch_env" where
  "queue_batch r = \<lparr>be_recover = still_env, be_ready = still_env, be_claim = (\<lambda>_. still_env), be_finish = (\<lambda>_. still_env),
     be_now = 100, be_cancelled = (\<lambda>_. False), be_error_text = (\<lambda>_. ''error''), be_deliver = (\<lambda>_ _ _. r)\<rparr>"

definition plain_options :: worker_options where
  "plain_options = \<lparr>wo_hostname = ''h'', wo_poll_interval = 0, wo_max_attempts = 0, wo_relay_addr = [], wo_relay_username = [],
     wo_relay_implicit_tls = False, wo_direct_delivery = True, wo_batch_size = 0\<rparr>"

lemmas queue_example = queue_message_def queue_row_def queue_db_def still_env_def queue_batch_def plain_options_def empty_db_def

lemma queue_example_batch:
  "map (\<lambda>q. (q_id q, q_status q, q_attempts q)) (queue (runBatch (new_worker plain_options) (queue_batch None) queue_db))
     = [(''q'', Delivered, 1)]"
  "map (\<lambda>m. (m_id m, m_status m)) (messages (runBatch (new_worker plain_options) (queue_batch None) queue_db))
     = [(''m'', ''delivered'')]"
  by code_simp+

lemma queue_fresh: "fresh_queue queue_db"
  by (simp add: fresh_queue_def queue_example)

lemma queue_example_reachable:
  "\<exists>w. worker_reachable (new_worker plain_options) w \<and> ww_pc w = Idle \<and> ww_lost w = []
     \<and> ww_db w = runBatch (new_worker plain_options) (queue_batch None) queue_db"
proof -
  show ?thesis
    using runBatch_run [of "worker_start queue_db" "new_worker plain_options" "queue_batch None"]
      queue_fresh
    unfolding worker_reachable_def by (auto simp: worker_start_def)
qed

section \<open>The end of an item\<close>

text \<open>C28: Delivered and failed items are final. Whatever the worker and the rest of the program do
  afterwards, with crashes, cancellations, failing statements and recovery in any order, the row of an
  item that was delivered or given up keeps exactly its values; in particular it is never tried again.\<close>

theorem finished_items_stay:
  assumes "worker_reachable (new_worker o0) w" and "(worker_step (new_worker o0))\<^sup>*\<^sup>* w w'"
    and "q \<in> set (queue (ww_db w))" and "q_status q = Delivered \<or> q_status q = Failed"
  shows "q \<in> set (queue (ww_db w'))"
  using assms worker_reachable_inv [OF assms(1)] new_worker_attempts finished_row_run
  unfolding finished_row_def by blast

lemma finished_items_stay_witness:
  "\<exists>w w' q. (worker_step (new_worker plain_options))\<^sup>*\<^sup>* w w' \<and> ww_pc w' \<noteq> ww_pc w
     \<and> q_status q = Delivered \<and> q \<in> set (queue (ww_db w'))"
proof -
  obtain w where w: "worker_reachable (new_worker plain_options) w" "ww_pc w = Idle"
      "ww_db w = runBatch (new_worker plain_options) (queue_batch None) queue_db"
    using queue_example_reachable by blast
  obtain q where q: "q \<in> set (queue (ww_db w))" "q_status q = Delivered"
    using queue_example_batch(1) unfolding w(3) by auto
  let ?w' = "w\<lparr>ww_db := fst (RecoverStaleQueue still_env (ww_db w) (0 - 30 * minute)), ww_pc := Scanned\<rparr>"
  have step: "(worker_step (new_worker plain_options))\<^sup>*\<^sup>* w ?w'" by (rule r_into_rtranclp, rule worker_step.recover [OF w(2)])
  have "q \<in> set (queue (ww_db ?w'))"
    using finished_items_stay [OF w(1) step q(1)] q(2) by simp
  then show ?thesis using step q(2) w(2) by (intro exI [of _ w] exI [of _ ?w'] exI [of _ q]) simp
qed

text \<open>C29: Attempts and duplicates. An item is handed to the deliverer at most the maximal number of
  attempts, plus one for every claim or result that a crash or a failing statement lost; its delivery
  succeeds at most once, plus one for every such loss. A delivered item did succeed. A failed item was
  tried the maximal number of times but for lost claims, and, when nothing was lost, never succeeded.\<close>

theorem attempts_and_duplicates:
  assumes "worker_reachable (new_worker o0) w" and "q \<in> set (queue (ww_db w))"
  shows "times (ww_tries w) (q_id q) \<le> wo_max_attempts (new_worker o0) + times (ww_lost w) (q_id q)
    \<and> times (ww_accepted w) (q_id q) \<le> 1 + times (ww_lost w) (q_id q)
    \<and> (q_status q = Delivered \<longrightarrow> 1 \<le> times (ww_accepted w) (q_id q))
    \<and> (q_status q = Failed \<longrightarrow> wo_max_attempts (new_worker o0) \<le> times (ww_tries w) (q_id q) + times (ww_lost w) (q_id q)
         \<and> times (ww_accepted w) (q_id q) \<le> times (ww_lost w) (q_id q))"
proof -
  let ?n = "wo_max_attempts (new_worker o0)"
  have inv: "worker_inv ?n w" by (rule worker_reachable_inv [OF assms(1) new_worker_attempts])
  have row: "row_ok ?n w q" by (rule worker_inv_rows(6) [OF inv assms(2)])
  have idle: "\<not> claimed (ww_pc w) (q_id q) \<and> \<not> succeeded (ww_pc w) (q_id q)" if "q_status q = Failed"
  proof -
    have "\<not> (\<exists>item \<in> set (held (ww_pc w)). q_id q = q_id item)"
      using worker_inv_rows(7) [OF inv _ assms(2)] that by (auto simp: same_row_def)
    then show ?thesis by (cases "ww_pc w") auto
  qed
  show ?thesis using row idle unfolding row_ok_def Let_def by (auto simp: of_bool_def split: if_splits)
qed

lemma attempts_and_duplicates_witness:
  "\<exists>(w :: worker_world) (q :: queue_item). q_status q = Delivered \<and> times (ww_lost w) (q_id q) = 0
     \<and> times (ww_tries w) (q_id q) \<le> 12 \<and> times (ww_accepted w) (q_id q) = 1"
proof -
  obtain w where w: "worker_reachable (new_worker plain_options) w" "ww_lost w = []"
      "ww_db w = runBatch (new_worker plain_options) (queue_batch None) queue_db"
    using queue_example_reachable by blast
  obtain q where q: "q \<in> set (queue (ww_db w))" "q_status q = Delivered"
    using queue_example_batch(1) unfolding w(3) by auto
  have "wo_max_attempts (new_worker plain_options) = 12" by (simp add: new_worker_def plain_options_def)
  then show ?thesis using attempts_and_duplicates [OF w(1) q(1)] q(2) w(2)
    by (intro exI [of _ w] exI [of _ q]) auto
qed

text \<open>C30: The code's batch is a run of the machine. From any reachable world between two batches,
  whatever the clock, the deliverer and cancellation do, the database that runBatch gives is that of
  a reachable world, again between two batches and with nothing more lost.\<close>

theorem runBatch_refines:
  assumes "worker_reachable opts w" and "ww_pc w = Idle"
  shows "\<exists>w'. worker_reachable opts w' \<and> ww_pc w' = Idle \<and> ww_lost w' = ww_lost w
    \<and> ww_db w' = runBatch opts be (ww_db w)"
  using runBatch_run [OF assms(2), of opts be] assms(1) unfolding worker_reachable_def
  by (meson rtranclp_trans)

lemma runBatch_refines_witness:
  "\<exists>w. worker_reachable (new_worker plain_options) w \<and> ww_db w = runBatch (new_worker plain_options) (queue_batch (Some ''no'')) queue_db
     \<and> map q_status (queue (ww_db w)) = [Queued] \<and> map q_attempts (queue (ww_db w)) = [1]"
proof -
  have "worker_reachable (new_worker plain_options) (worker_start queue_db)"
    using queue_fresh unfolding worker_reachable_def by blast
  from runBatch_refines [OF this, where be = "queue_batch (Some ''no'')"]
  have "\<exists>w'. worker_reachable (new_worker plain_options) w'
      \<and> ww_db w' = runBatch (new_worker plain_options) (queue_batch (Some ''no'')) queue_db"
    by (auto simp: worker_start_def)
  moreover have "map q_status (queue (runBatch (new_worker plain_options) (queue_batch (Some ''no'')) queue_db)) = [Queued]"
    "map q_attempts (queue (runBatch (new_worker plain_options) (queue_batch (Some ''no'')) queue_db)) = [1]"
    by code_simp+
  ultimately show ?thesis by metis
qed

section \<open>What a message shows of its deliveries\<close>

definition item_states :: "db \<Rightarrow> string \<Rightarrow> queue_status set" where
  "item_states db i = q_status ` {q \<in> set (queue db). q_message_id q = i}"

definition outcome :: "queue_status set \<Rightarrow> string" where
  "outcome S =
     (if Queued \<in> S \<or> Delivering \<in> S then ''queued''
      else if Failed \<in> S then (if Delivered \<in> S then ''partial'' else ''failed'')
      else ''delivered'')"

definition status_shown :: "db \<Rightarrow> bool" where
  "status_shown db \<longleftrightarrow> (\<forall>m \<in> set (messages db). m_id m \<in> q_message_id ` set (queue db)
     \<longrightarrow> m_status m = outcome (item_states db (m_id m)))"

lemma transport_status_outcome: "transport_status db i = outcome (item_states db i)"
proof -
  have "0 < status_count db i s \<longleftrightarrow> s \<in> item_states db i" for s
    by (auto simp: status_count_def count_where_pos item_states_def)
  then show ?thesis by (simp add: transport_status_def outcome_def add_gr_0)
qed

definition row_keys :: "db \<Rightarrow> (string \<times> string) list" where
  "row_keys db = map (\<lambda>q. (q_id q, q_message_id q)) (queue db)"

fun still_open :: "queue_status \<Rightarrow> bool" where
  "still_open Queued = True"
| "still_open Delivering = True"
| "still_open s = False"

text \<open>Claiming and recovering only move an item between the two open states.\<close>

lemma item_states_map:
  "queue db' = map g (queue db) \<Longrightarrow> (\<And>q. q_message_id (g q) = q_message_id q) \<Longrightarrow>
    item_states db' i = (\<lambda>q. q_status (g q)) ` {q \<in> set (queue db). q_message_id q = i}"
  by (auto simp: item_states_def image_image)

lemma outcome_map:
  assumes "queue db' = map g (queue db)" and "\<And>q. q_message_id (g q) = q_message_id q"
    and keep: "\<And>q. q \<in> set (queue db) \<Longrightarrow> q_message_id q = i \<Longrightarrow>
      q_status (g q) = q_status q \<or> still_open (q_status (g q)) \<and> still_open (q_status q)"
  shows "outcome (item_states db' i) = outcome (item_states db i)"
proof -
  note states = item_states_map [OF assms(1,2), of i] item_states_def [of db i]
  have same: "s \<in> item_states db' i \<longleftrightarrow> s \<in> item_states db i" if "\<not> still_open s" for s
    unfolding states using keep that by (auto simp: image_iff) metis+
  have "(\<exists>s \<in> item_states db' i. still_open s) \<longleftrightarrow> (\<exists>s \<in> item_states db i. still_open s)"
    unfolding states using keep by (auto simp: image_iff) metis+
  moreover have "(\<exists>s \<in> S. still_open s) \<longleftrightarrow> Queued \<in> S \<or> Delivering \<in> S" for S
    by (metis still_open.elims(2) still_open.simps(1,2))
  ultimately show ?thesis using same [of Failed] same [of Delivered] by (simp add: outcome_def)
qed

lemma status_shown_same:
  assumes "status_shown db" and "messages db' = messages db" and "row_keys db' = row_keys db"
    and "\<And>i. outcome (item_states db' i) = outcome (item_states db i)"
  shows "status_shown db'"
proof -
  have "q_message_id ` set (queue d) = snd ` set (row_keys d)" for d by (simp add: row_keys_def image_image)
  then show ?thesis using assms by (simp add: status_shown_def)
qed

lemma process_item_keys: "row_keys (process_item opts be i item db) = row_keys db"
  by (auto simp: process_item_def finish_item_def row_keys_def ClaimQueue_def CompleteQueue_def RetryQueue_def
      RefreshMessageTransportStatus_def Let_def split: prod.splits bool.splits option.splits)

lemma process_item_shown:
  assumes shown: "status_shown db" and dist: "distinct (map fst (row_keys db))"
    and item: "(q_id item, q_message_id item) \<in> set (row_keys db)"
  shows "status_shown (process_item opts be i item db)"
proof (cases "ClaimQueue (be_claim be i) db (q_id item)")
  case (Pair db1 claimed)
  let ?g = "\<lambda>q. if q_id q = q_id item \<and> q_status q = Queued then q\<lparr>q_status := Delivering,
    q_attempts := q_attempts q + 1, q_updated := clock (be_claim be i) 0\<rparr> else q"
  have db1: "db1 = update_queue (\<lambda>q. q_id q = q_id item \<and> q_status q = Queued) (\<lambda>q. q\<lparr>q_status := Delivering,
      q_attempts := q_attempts q + 1, q_updated := clock (be_claim be i) 0\<rparr>) db"
    using Pair by (auto simp: ClaimQueue_def Let_def)
  have keys1: "row_keys db1 = row_keys db" by (simp add: db1 row_keys_def)
  have shown1: "status_shown db1"
    by (rule status_shown_same [OF shown _ keys1])
      (auto simp: db1 update_queue_def update_where_def intro!: outcome_map [where g = ?g] split: if_splits)
  show ?thesis
  proof (cases claimed)
    case False
    then show ?thesis using shown1 Pair by (simp add: process_item_def)
  next
    case True
    define it where "it = item\<lparr>q_attempts := q_attempts item + 1\<rparr>"
    define db2 where "db2 = finish_item opts (be_finish be i) it (attempt be i it db1) db1"
    have row: "q_message_id q = q_message_id item" if "q \<in> set (queue db1)" "q_id q = q_id item" for q
    proof -
      have "(q_id q, q_message_id q) \<in> set (row_keys db1)" using that(1) by (simp add: row_keys_def)
      then have "(q_id q, q_message_id q) \<in> set (row_keys db)" by (simp only: keys1)
      then show ?thesis using eq_key_imp_eq_value [OF dist] item that(2) by simp
    qed
    obtain f where f: "queue db2 = map (\<lambda>q. if q_id q = q_id item then f q else q) (queue db1)"
        "\<And>q. q_id (f q) = q_id q \<and> q_message_id (f q) = q_message_id q" "messages db2 = messages db1"
    proof (cases "attempt be i it db1")
      case None
      then show ?thesis
        by (intro that [of "\<lambda>q. q\<lparr>q_status := Delivered, q_delivered := Some (clock (be_finish be i) 0),
            q_updated := clock (be_finish be i) 0, q_last_error := []\<rparr>"])
          (simp_all add: db2_def finish_item_def CompleteQueue_def update_queue_def update_where_def it_def)
    next
      case (Some e)
      then show ?thesis
        by (intro that [of "\<lambda>q. q\<lparr>q_status := (if q_attempts it \<ge> wo_max_attempts opts then Failed else Queued),
            q_next_attempt := clock (be_finish be i) 0 + retry_delay (q_attempts it),
            q_last_error := QueueStore.truncate (safeError e) 2000, q_updated := clock (be_finish be i) 1\<rparr>"])
          (simp_all add: db2_def finish_item_def RetryQueue_def Let_def update_queue_def update_where_def it_def)
    qed
    have other: "outcome (item_states db2 j) = outcome (item_states db1 j)" if "j \<noteq> q_message_id item" for j
      by (rule outcome_map [OF f(1)]) (use f(2) row that in auto)
    have keys2: "row_keys db2 = row_keys db1" using f(2) by (auto simp: row_keys_def f(1))
    let ?db3 = "RefreshMessageTransportStatus db2 (q_message_id item)"
    have ids: "q_message_id ` set (queue d) = snd ` set (row_keys d)" for d by (simp add: row_keys_def image_image)
    have queue3: "queue ?db3 = queue db2" by (simp add: RefreshMessageTransportStatus_def)
    have "m_status m = outcome (item_states ?db3 (m_id m))"
      if m: "m \<in> set (messages ?db3)" "m_id m \<in> q_message_id ` set (queue ?db3)" for m
    proof -
      have states: "item_states ?db3 = item_states db2" by (simp add: item_states_def queue3 fun_eq_iff)
      obtain m0 where m0: "m0 \<in> set (messages db1)"
          "m = (if m_id m0 = q_message_id item then m0\<lparr>m_status := transport_status db2 (q_message_id item)\<rparr> else m0)"
        using m(1) f(3) by (auto simp: RefreshMessageTransportStatus_def set_update_where)
      show ?thesis
      proof (cases "m_id m0 = q_message_id item")
        case True
        then show ?thesis using m0(2) by (simp add: states transport_status_outcome)
      next
        case False
        then have "m = m0" using m0(2) by simp
        moreover have "m_id m0 \<in> q_message_id ` set (queue db1)"
          using m(2) unfolding queue3 \<open>m = m0\<close> ids keys2 by simp
        ultimately show ?thesis using shown1 m0(1) other [OF False] by (simp add: states status_shown_def)
      qed
    qed
    then have "status_shown ?db3" by (simp add: status_shown_def)
    then show ?thesis using Pair True by (simp add: process_item_def it_def [symmetric] db2_def [symmetric] Let_def) (simp add: it_def)
  qed
qed

lemma process_items_shown:
  assumes "status_shown db" and "distinct (map fst (row_keys db))"
    and "\<And>item. item \<in> set items \<Longrightarrow> (q_id item, q_message_id item) \<in> set (row_keys db)"
  shows "status_shown (process_items opts be i items db)"
  using assms
proof (induction items arbitrary: i db)
  case (Cons item rest)
  have "status_shown (process_item opts be i item db)"
    by (rule process_item_shown) (use Cons.prems in auto)
  then show ?case using Cons.IH [of "process_item opts be i item db" "i + 1"] Cons.prems
    by (auto simp: process_item_keys)
qed simp



section \<open>The schedule\<close>

text \<open>The schedule of the attempts. For any attempt counts, the delay before the next attempt is
  between thirty minutes and 24 hours and never gets shorter; an item that fails every one of the default twelve
  attempts waits 151.5 hours in all between the first and the last, more than six days and less than
  the seven that the comment in RetryQueue names.\<close>

theorem retry_schedule:
  "30 * minute \<le> retry_delay a \<and> retry_delay a \<le> 24 * hour \<and> retry_delay a \<le> retry_delay (a + int k)
     \<and> (\<Sum>i \<leftarrow> [1..<12]. retry_delay (int i)) = 151 * hour + 30 * minute"
proof -
  have cap: "retry_delay b = min (30 * minute * 2 ^ nat (min (max (b - 1) 0) 6)) (24 * hour)" for b
    by (simp add: retry_delay_def Let_def min_def)
  have mono: "(2 :: int) ^ nat (min (max (a - 1) 0) 6) \<le> 2 ^ nat (min (max (a + int k - 1) 0) 6)"
    by (rule power_increasing) auto
  have pos: "(1 :: int) \<le> 2 ^ nat (min (max (a - 1) 0) 6)" by simp
  have "30 * minute \<le> retry_delay a" using pos unfolding cap by (simp add: min_def)
  moreover have "retry_delay a \<le> 24 * hour" unfolding cap by simp
  moreover have "retry_delay a \<le> retry_delay (a + int k)" unfolding cap
    by (intro min.mono mult_left_mono mono) simp_all
  moreover have "(\<Sum>i \<leftarrow> [1..<12]. retry_delay (int i)) = 151 * hour + 30 * minute" by code_simp
  ultimately show ?thesis by simp
qed

section \<open>What leaves the server\<close>

lemma try_mx_hosts:
  assumes "try_mx nt sender recipient raw failures records = (r, hosts)"
  shows "(\<forall>h \<in> set hosts. h \<in> (\<lambda>x. TrimSuffix x ''.'') ` set records \<and> nt_accept nt h sender recipient raw = None)
    \<and> (r = None \<longrightarrow> hosts \<noteq> [] \<and> nt_quit nt (last hosts) = None)
    \<and> (\<forall>h \<in> set (if r = None then butlast hosts else hosts). nt_quit nt h \<noteq> None)"
  using assms
proof (induction nt sender recipient raw failures records arbitrary: r hosts rule: try_mx.induct)
  case (2 nt sender recipient raw failures x rest)
  let ?host = "TrimSuffix x ''.''"
  let ?failures = "\<lambda>e. failures @ [?host @ '': '' @ safeError e]"
  show ?case
  proof (cases "mx_connect nt ?host")
    case (Some e)
    then show ?thesis using "2.IH"(3) [OF HOL.refl Some, of r hosts] "2.prems" by (auto simp: Let_def)
  next
    case None
    show ?thesis
    proof (cases "nt_accept nt ?host sender recipient raw")
      case (Some e)
      then show ?thesis using "2.IH"(2) [OF HOL.refl None Some, of r hosts] "2.prems" None by (auto simp: Let_def)
    next
      case accepted: None
      show ?thesis
      proof (cases "nt_quit nt ?host")
        case quit: None
        then show ?thesis using "2.prems" None accepted by (auto simp: Let_def)
      next
        case (Some e)
        obtain r' hosts' where rest: "try_mx nt sender recipient raw (?failures e) rest = (r', hosts')"
          by (cases "try_mx nt sender recipient raw (?failures e) rest")
        then have "r = r'" "hosts = ?host # hosts'"
          using "2.prems" None accepted Some by (auto simp: Let_def)
        then show ?thesis
          using "2.IH"(1) [OF HOL.refl None accepted Some rest] accepted Some by auto
      qed
    qed
  qed
qed simp

lemma deliverRelay_hosts:
  assumes "deliverRelay nt opts shp sender recipient raw = (r, hosts)"
  shows "(\<forall>h \<in> set hosts. h = wo_relay_addr opts \<and> nt_accept nt h sender recipient raw = None)
    \<and> (r = None \<longrightarrow> hosts \<noteq> [] \<and> nt_quit nt (last hosts) = None)
    \<and> (\<forall>h \<in> set (if r = None then butlast hosts else hosts). nt_quit nt h \<noteq> None)"
  using assms by (auto simp: deliverRelay_def Let_def split: option.splits if_splits) (metis not_None_eq)+

text \<open>C33: What leaves the server. If any host accepted the message in one delivery, it was offered with
  the stored envelope sender and the signature of its domain's key, never unsigned; with a relay
  configured the host is the relay, and otherwise direct delivery is enabled and the host is from the
  recipient domain's MX list (or the domain itself). A delivery reports success only when a host
  accepted it and ended the session properly; every other host that accepted it failed at QUIT, so a
  duplicate needs such a failure.\<close>

theorem delivery_policy:
  assumes "Deliver nt sg err shp opts db message recipient = (r, hosts)"
  shows "(hosts \<noteq> [] \<longrightarrow> (\<exists>signed. sign sg err db message = Inr signed
        \<and> (\<forall>h \<in> set hosts. nt_accept nt h (m_envelope_from message) recipient signed = None)))
    \<and> (wo_relay_addr opts \<noteq> [] \<longrightarrow> set hosts \<subseteq> {wo_relay_addr opts})
    \<and> (wo_relay_addr opts = [] \<and> hosts \<noteq> [] \<longrightarrow> wo_direct_delivery opts \<and> (\<exists>mx. mx_records nt (domainOf recipient) = Inr mx
        \<and> set hosts \<subseteq> (\<lambda>x. TrimSuffix (fst x) ''.'') ` set mx))
    \<and> (r = None \<longrightarrow> hosts \<noteq> [] \<and> nt_quit nt (last hosts) = None)
    \<and> (\<forall>h \<in> set (if r = None then butlast hosts else hosts). nt_quit nt h \<noteq> None)"
proof (cases "sign sg err db message")
  case (Inl e)
  then show ?thesis using assms by (auto simp: Deliver_def)
next
  case (Inr signed)
  show ?thesis
  proof (cases "wo_relay_addr opts = []")
    case False
    then have "deliverRelay nt opts shp (m_envelope_from message) recipient signed = (r, hosts)"
      using assms Inr by (simp add: Deliver_def)
    from deliverRelay_hosts [OF this] show ?thesis using False Inr by auto
  next
    case True
    show ?thesis
    proof (cases "wo_direct_delivery opts")
      case False
      then show ?thesis using assms Inr True by (auto simp: Deliver_def)
    next
      case direct: True
      then have mx: "deliverMX nt (m_envelope_from message) recipient signed = (r, hosts)"
        using assms Inr True by (simp add: Deliver_def)
      show ?thesis
      proof (cases "mx_records nt (domainOf recipient)")
        case (Inl e)
        then show ?thesis using mx True direct by (auto simp: deliverMX_def)
      next
        case records: (Inr records)
        then have "try_mx nt (m_envelope_from message) recipient signed [] (map fst (sort_key snd records)) = (r, hosts)"
          using mx by (simp add: deliverMX_def)
        from try_mx_hosts [OF this] show ?thesis
          using True direct Inr records by (auto simp: image_image)
      qed
    qed
  qed
qed

text \<open>A network with two MX hosts of which the first accepts the message but fails at \<open>QUIT\<close>.\<close>

definition example_signer :: signer where
  "example_signer = \<lparr>sg_parse_address = Inr, sg_key = Inr, sg_sign = (\<lambda>_ _ _ raw. Inr (''signed:'' @ raw))\<rparr>"

definition example_network :: network where
  "example_network = \<lparr>nt_dial_tls = (\<lambda>_. None), nt_dial_starttls = (\<lambda>_. None), nt_dial_plain = (\<lambda>_. None),
     nt_hello = (\<lambda>_. None), nt_auth = (\<lambda>_. None), nt_accept = (\<lambda>_ _ _ _. None),
     nt_quit = (\<lambda>h. if h = ''a.z.w'' then Some ''connection reset'' else None),
     nt_lookup_mx = (\<lambda>_. Inr [(''b.z.w.'', 20), (''a.z.w.'', 10)]), nt_lookup_host = (\<lambda>_. True)\<rparr>"

definition signing_db :: db where
  "signing_db = queue_db\<lparr>domains := [\<lparr>d_id = ''d'', d_name = ''x.y'', d_status = ''verified'', d_verification = [],
     d_selector = ''s'', d_public_key = [], d_private_key = ''k'', d_created = 0, d_verified = Some 0\<rparr>]\<rparr>"

definition sent_message :: user_message where
  "sent_message = message.extend queue_message
     \<lparr>v_mailbox = [], v_flags = [], v_deleted = None, v_expunged = None, v_entry_id = [], v_uid = 0\<rparr>"

lemma quit_failure_duplicates:
  "Deliver example_network example_signer (\<lambda>_. []) (\<lambda>_. None) (new_worker plain_options) signing_db sent_message ''b@z.w''
     = (None, [''a.z.w'', ''b.z.w''])"
  by code_simp

lemma delivery_policy_witness:
  "nt_accept example_network ''a.z.w'' (m_envelope_from sent_message) ''b@z.w'' ''signed:hi'' = None
     \<and> nt_quit example_network ''a.z.w'' \<noteq> None \<and> nt_quit example_network ''b.z.w'' = None"
proof -
  have "sign example_signer (\<lambda>_. []) signing_db sent_message = Inr ''signed:hi''" by code_simp
  then show ?thesis using delivery_policy [OF quit_failure_duplicates] by auto
qed

end
