(* ===== verification/ImapBackend.thy ===== *)
theory ImapBackend
  imports SmtpSession ImapGuard
begin

text \<open>
  \<open>internal/imapserver/backend.go\<close>: the users and mailboxes that the IMAP library works on, over the
  store. Every operation first looks whether the account is still active and has not changed its
  credentials since the login. Numbers of the protocol are 32-bit words.
\<close>

type_synonym u32 = "32 word"

section \<open>Parameters and state\<close>

text \<open>A set of numbers is the list of its ranges; zero stands for the largest number in use.\<close>

type_synonym seqset = "(u32 \<times> u32) list"

record search_fields =
  sf_since :: time
  sf_before :: time
  sf_sent_since :: time
  sf_sent_before :: time
  sf_body :: "string list"
  sf_text :: "string list"
  sf_with_flags :: "string list"
  sf_without_flags :: "string list"
  sf_larger :: u32
  sf_smaller :: u32

datatype search_criteria =
  Criteria (sc_seq: "seqset option") (sc_uid: "seqset option") (sc_header: "(string \<times> string list) list")
    (sc_fields: search_fields) (sc_not: "search_criteria option list")
    (sc_or: "(search_criteria option \<times> search_criteria option) list")

text \<open>
  The IMAP and MIME libraries: names and flags in canonical form, body sections (with their
  \<open>Peek\<close> attribute), \<open>SeqSet.AddRange\<close>, flag updates, search, and the parts of a message.
\<close>

record imap_lib =
  canonical_mailbox_name :: "string \<Rightarrow> string"
  canonical_imap_flag :: "string \<Rightarrow> string"
  parse_section :: "string \<Rightarrow> bool option"
  add_range :: "seqset \<Rightarrow> u32 \<Rightarrow> u32 \<Rightarrow> seqset"
  update_flags :: "string list \<Rightarrow> string \<Rightarrow> string list \<Rightarrow> string list"
  new_criteria :: search_criteria
  message_readable :: "string \<Rightarrow> bool"
  match_message :: "string \<Rightarrow> u32 \<Rightarrow> u32 \<Rightarrow> time \<Rightarrow> string list \<Rightarrow> search_criteria \<Rightarrow> bool option"
  read_header_block :: "string \<Rightarrow> (string \<times> string) option"
  envelope_of :: "string \<Rightarrow> string option"
  structure_of :: "string \<Rightarrow> string \<Rightarrow> bool \<Rightarrow> string option"
  section_of :: "string \<Rightarrow> string \<Rightarrow> string \<Rightarrow> string option"

datatype imap_error =
    IMAPStore store_error
  | InvalidCredentials
  | NoSuchMailbox
  | MailboxAlreadyExists
  | ErrTooBig
  | IMAPLibrary

record store_backend =
  sb_max_bytes :: int
  sb_config :: store_config
  sb_sql :: sql_lib
  sb_statfs :: "(int \<times> int) option"
  sb_imap :: imap_lib
  sb_mail :: smtp_lib

record imap_user =
  iu_account :: user
  iu_remote_ip :: string

abbreviation iu_id :: "imap_user \<Rightarrow> string" where "iu_id u \<equiv> u_id (iu_account u)"

section \<open>Helpers\<close>

definition supportedFlags :: "string list" where
  "supportedFlags = [Seen, Answered, Flagged, Deleted, Draft, Recent]"

definition permanentFlags :: "string list" where
  "permanentFlags = [Seen, Answered, Flagged, Deleted, Draft]"

definition hasFlag :: "string list \<Rightarrow> string \<Rightarrow> bool" where
  "hasFlag flags want = list_ex (\<lambda>flag. EqualFold flag want) flags"

definition add_supported :: "string \<Rightarrow> string list \<Rightarrow> string list" where
  "add_supported canonical result =
     foldl (\<lambda>r supported. if EqualFold canonical supported \<and> \<not> hasFlag r supported then r @ [supported] else r)
       result supportedFlags"

definition canonicalFlags :: "imap_lib \<Rightarrow> string list \<Rightarrow> string list" where
  "canonicalFlags lib flags = foldl (\<lambda>r flag. add_supported (canonical_imap_flag lib flag) r) [] flags"

definition isSystemMailbox :: "string \<Rightarrow> bool" where
  "isSystemMailbox name = list_ex (\<lambda>systemName. EqualFold name systemName) SystemMailboxes"

definition uint32Limit :: "int \<Rightarrow> u32" where
  "uint32Limit v = (if v \<le> 0 then 0 else if v > 4294967295 then - 1 else word_of_int v)"

text \<open>The reader is that of theory \<open>SmtpSession\<close>; a limit that wraps reads nothing.\<close>

definition readLiteral :: "reader \<Rightarrow> int \<Rightarrow> imap_error + string" where
  "readLiteral literal maximum0 =
     (let maximum = (if maximum0 \<le> 0 then 25 * 1024 * 1024 else maximum0);
          n = nat (wrap64 (maximum + 1));
          data = take n (fst literal)
      in if snd literal \<and> length (fst literal) < n then Inl IMAPLibrary
         else if int (length data) > maximum then Inl ErrTooBig
         else Inr data)"

definition maxima :: "imap_entry list \<Rightarrow> u32 \<times> u32" where
  "maxima es = (word_of_nat (length es), foldl (\<lambda>m e. if word_of_int (ie_uid e) > m then word_of_int (ie_uid e) else m) 0 es)"

definition range_of :: "u32 \<Rightarrow> u32 \<times> u32 \<Rightarrow> u32 \<times> u32" where
  "range_of maximum item =
     (let start = (if fst item = 0 then maximum else fst item); stop = (if snd item = 0 then maximum else snd item)
      in if start > stop then (stop, start) else (start, stop))"

definition seqSetContains :: "seqset option \<Rightarrow> u32 \<Rightarrow> u32 \<Rightarrow> bool" where
  "seqSetContains set_opt v maximum =
     (case set_opt of
        None \<Rightarrow> False
      | Some items \<Rightarrow> maximum \<noteq> 0 \<and> list_ex (\<lambda>item. fst (range_of maximum item) \<le> v \<and> v \<le> snd (range_of maximum item)) items)"

definition normalizeSeqSet :: "imap_lib \<Rightarrow> seqset option \<Rightarrow> u32 \<Rightarrow> seqset option" where
  "normalizeSeqSet lib set_opt maximum =
     map_option (\<lambda>items. if maximum = 0 then []
        else foldl (\<lambda>r item. add_range lib r (if fst item = 0 then maximum else fst item)
                                            (if snd item = 0 then maximum else snd item)) [] items) set_opt"

fun normalizeCriteria :: "imap_lib \<Rightarrow> u32 \<Rightarrow> u32 \<Rightarrow> search_criteria option \<Rightarrow> search_criteria" where
  "normalizeCriteria lib maxSeq maxUID None = new_criteria lib"
| "normalizeCriteria lib maxSeq maxUID (Some (Criteria seq uid header others nots ors)) =
     Criteria (normalizeSeqSet lib seq maxSeq) (normalizeSeqSet lib uid maxUID) header others
       (map (\<lambda>c. Some (normalizeCriteria lib maxSeq maxUID c)) nots)
       (map (\<lambda>pair. (Some (normalizeCriteria lib maxSeq maxUID (fst pair)),
                      Some (normalizeCriteria lib maxSeq maxUID (snd pair)))) ors)"

section \<open>Users\<close>

definition ensureActive :: "db \<Rightarrow> imap_user \<Rightarrow> imap_error + unit" where
  "ensureActive db u =
     (case GetUserByID db (iu_id u) of
        Inl ErrNotFound \<Rightarrow> Inl (IMAPStore ErrForbidden)
      | Inl e \<Rightarrow> Inl (IMAPStore e)
      | Inr account \<Rightarrow>
          guard_err (u_status account \<noteq> StatusActive
              \<or> u_protocol_auth_version account \<noteq> u_protocol_auth_version (iu_account u))
            (IMAPStore ErrForbidden) (Inr ()))"

text \<open>\<open>Login\<close>, with the guard, if there is one, told that the connection is authenticated.\<close>

definition Login :: "netlib \<Rightarrow> (string \<Rightarrow> string \<Rightarrow> bool) \<Rightarrow> (string \<Rightarrow> string) \<Rightarrow> env \<Rightarrow> time
    \<Rightarrow> (net_addr \<times> net_addr) option \<Rightarrow> string \<Rightarrow> string \<Rightarrow> limiter \<times> db \<times> guard_sys option
    \<Rightarrow> (limiter \<times> db \<times> guard_sys option) \<times> (imap_error + imap_user)" where
  "Login nl verify token_hash env now connection username password world =
     (let (lim, db, guard) = world;
          remoteIP = (case connection of None \<Rightarrow> ''unknown'' | Some (remote, loc) \<Rightarrow> RemoteIP nl (map_option snd remote));
          accountName = NormalizeAccount username
      in case Allow nl now lim remoteIP accountName of
           (lim1, False) \<Rightarrow> ((lim1, db, guard), Inl InvalidCredentials)
         | (lim1, True) \<Rightarrow>
             (case Authenticate verify token_hash env accountName password True db of
                (db1, Inl _) \<Rightarrow> ((Failure nl now lim1 remoteIP accountName, db1, guard), Inl InvalidCredentials)
              | (db1, Inr account) \<Rightarrow>
                  ((Success lim1 accountName, db1,
                    (case (guard, connection) of
                       (Some g, Some (remote, loc)) \<Rightarrow> Some (guard_authenticate g remote loc)
                     | _ \<Rightarrow> guard)),
                   Inr \<lparr>iu_account = account, iu_remote_ip = remoteIP\<rparr>)))"

definition map_error :: "(store_error \<Rightarrow> imap_error) \<Rightarrow> store_error + 'a \<Rightarrow> imap_error + 'a" where
  "map_error f r = map_sum f id r"

definition no_such_mailbox :: "store_error \<Rightarrow> imap_error" where
  "no_such_mailbox e = (if e = ErrNotFound then NoSuchMailbox else IMAPStore e)"

definition ListMailboxes_user :: "db \<Rightarrow> imap_user \<Rightarrow> bool \<Rightarrow> imap_error + imap_mailbox list" where
  "ListMailboxes_user db u subscribed =
     bind_res (ensureActive db u) (\<lambda>_. Inr (IMAPListMailboxes db (iu_id u) subscribed))"

definition GetMailbox_user :: "imap_lib \<Rightarrow> db \<Rightarrow> imap_user \<Rightarrow> string \<Rightarrow> imap_error + imap_mailbox" where
  "GetMailbox_user lib db u name =
     bind_res (ensureActive db u) (\<lambda>_.
       map_error no_such_mailbox (IMAPGetMailbox db (iu_id u) (canonical_mailbox_name lib name)))"

definition CreateMailbox_user :: "imap_lib \<Rightarrow> env \<Rightarrow> imap_user \<Rightarrow> string \<Rightarrow> db \<Rightarrow> imap_error + db" where
  "CreateMailbox_user lib env u name db =
     bind_res (ensureActive db u) (\<lambda>_.
       map_error (\<lambda>e. if e = ErrConflict then MailboxAlreadyExists else IMAPStore e)
         (CreateMailbox env (iu_id u) (canonical_mailbox_name lib name) db))"

definition DeleteMailbox_user :: "imap_lib \<Rightarrow> imap_user \<Rightarrow> string \<Rightarrow> db \<Rightarrow> imap_error + db" where
  "DeleteMailbox_user lib u name0 db =
     bind_res (ensureActive db u) (\<lambda>_.
       (let name = canonical_mailbox_name lib name0
        in guard_err (isSystemMailbox name) (IMAPStore ErrForbidden)
             (map_error no_such_mailbox (IMAPDeleteMailbox (iu_id u) name db))))"

definition RenameMailbox_user :: "imap_lib \<Rightarrow> imap_user \<Rightarrow> string \<Rightarrow> string \<Rightarrow> db \<Rightarrow> imap_error + db" where
  "RenameMailbox_user lib u existing0 new0 db =
     bind_res (ensureActive db u) (\<lambda>_.
       (let existingName = canonical_mailbox_name lib existing0; newName = canonical_mailbox_name lib new0
        in guard_err (isSystemMailbox existingName) (IMAPStore ErrForbidden)
             (map_error (\<lambda>e. if e = ErrNotFound then NoSuchMailbox
                              else if e = ErrConflict then MailboxAlreadyExists else IMAPStore e)
               (RenameMailbox (iu_id u) existingName newName db))))"

section \<open>Mailboxes\<close>

text \<open>\<open>snapshot\<close> also refreshes what the session knows of the mailbox.\<close>

definition snapshot :: "db \<Rightarrow> imap_user \<Rightarrow> imap_mailbox \<Rightarrow> imap_error + (imap_mailbox \<times> imap_entry list)" where
  "snapshot db u m =
     bind_res (ensureActive db u) (\<lambda>_.
     bind_res (map_error IMAPStore (IMAPGetMailbox db (iu_id u) (im_name m))) (\<lambda>metadata.
       Inr (metadata, IMAPListEntries db (iu_id u) (im_id metadata))))"

definition numbered :: "imap_entry list \<Rightarrow> (u32 \<times> imap_entry) list" where
  "numbered es = map (\<lambda>(i, e). (word_of_nat (i + 1), e)) (enumerate 0 es)"

text \<open>Whether a numbered entry is selected, by UID or by sequence number.\<close>

definition selected :: "bool \<Rightarrow> seqset option \<Rightarrow> u32 \<times> u32 \<Rightarrow> u32 \<times> imap_entry \<Rightarrow> bool" where
  "selected uid seqset maxs ne =
     (if uid then seqSetContains seqset (word_of_int (ie_uid (snd ne))) (snd maxs)
      else seqSetContains seqset (fst ne) (fst maxs))"

definition selectedEntries :: "db \<Rightarrow> imap_user \<Rightarrow> imap_mailbox \<Rightarrow> bool \<Rightarrow> seqset option
    \<Rightarrow> imap_error + (imap_mailbox \<times> imap_entry list)" where
  "selectedEntries db u m uid seqset =
     bind_res (snapshot db u m) (\<lambda>(m', es).
       Inr (m', map snd (filter (selected uid seqset (maxima es)) (numbered es))))"

record mailbox_status =
  st_name :: string
  st_flags :: "string list"
  st_permanent :: "string list"
  st_unseen :: u32
  st_unseen_seq :: u32
  st_recent :: u32
  st_messages :: u32
  st_uid_next :: int
  st_uid_validity :: int
  st_append_limit :: u32

definition count_entry :: "mailbox_status \<Rightarrow> u32 \<times> imap_entry \<Rightarrow> mailbox_status" where
  "count_entry st ne =
     (let st1 = (if \<not> hasFlag (ie_flags (snd ne)) Seen
                 then st\<lparr>st_unseen := st_unseen st + 1,
                         st_unseen_seq := (if st_unseen_seq st = 0 then fst ne else st_unseen_seq st)\<rparr> else st)
      in if hasFlag (ie_flags (snd ne)) Recent then st1\<lparr>st_recent := st_recent st1 + 1\<rparr> else st1)"

definition Status :: "store_backend \<Rightarrow> db \<Rightarrow> imap_user \<Rightarrow> imap_mailbox \<Rightarrow> imap_error + (imap_mailbox \<times> mailbox_status)" where
  "Status b db u m =
     bind_res (snapshot db u m) (\<lambda>(m', es).
       (let st = foldl count_entry \<lparr>st_name = im_name m', st_flags = supportedFlags, st_permanent = permanentFlags,
              st_unseen = 0, st_unseen_seq = 0, st_recent = 0, st_messages = 0, st_uid_next = 0,
              st_uid_validity = 0, st_append_limit = 0\<rparr> (numbered es)
        in Inr (m', st\<lparr>st_messages := word_of_nat (length es), st_uid_next := im_uid_next m',
             st_uid_validity := im_uid_validity m', st_append_limit := uint32Limit (sb_max_bytes b)\<rparr>)))"

definition SetSubscribed :: "imap_user \<Rightarrow> imap_mailbox \<Rightarrow> bool \<Rightarrow> db \<Rightarrow> imap_error + db" where
  "SetSubscribed u m subscribed db =
     bind_res (ensureActive db u) (\<lambda>_.
       map_error IMAPStore (SetMailboxSubscribed (iu_id u) (im_name m) subscribed db))"

section \<open>Reading messages\<close>

record fetched_message =
  fm_seq :: u32
  fm_items :: "string list"
  fm_envelope :: "string option"
  fm_structure :: "string option"
  fm_flags :: "string list option"
  fm_date :: "time option"
  fm_size :: "u32 option"
  fm_uid :: "u32 option"
  fm_body :: "(string \<times> string) list"

definition needs_message :: "imap_lib \<Rightarrow> string \<Rightarrow> bool" where
  "needs_message lib item \<longleftrightarrow>
     item \<in> {''ENVELOPE'', ''BODY'', ''BODYSTRUCTURE''} \<or> parse_section lib item \<noteq> None"

definition fetch_item :: "imap_lib \<Rightarrow> imap_entry \<Rightarrow> string \<Rightarrow> string \<Rightarrow> fetched_message \<Rightarrow> imap_error + fetched_message" where
  "fetch_item lib entry raw item f =
     (if item = ''ENVELOPE''
      then bind_res (of_option IMAPLibrary (read_header_block lib raw)) (\<lambda>(header, body).
           bind_res (of_option IMAPLibrary (envelope_of lib header)) (\<lambda>x. Inr (f\<lparr>fm_envelope := Some x\<rparr>)))
      else if item = ''BODY'' \<or> item = ''BODYSTRUCTURE''
      then bind_res (of_option IMAPLibrary (read_header_block lib raw)) (\<lambda>(header, body).
           bind_res (of_option IMAPLibrary (structure_of lib header body (item = ''BODYSTRUCTURE'')))
             (\<lambda>x. Inr (f\<lparr>fm_structure := Some x\<rparr>)))
      else if item = ''FLAGS'' then Inr (f\<lparr>fm_flags := Some (ie_flags entry)\<rparr>)
      else if item = ''INTERNALDATE'' then Inr (f\<lparr>fm_date := Some (ie_internal_date entry)\<rparr>)
      else if item = ''RFC822.SIZE'' then Inr (f\<lparr>fm_size := Some (uint32Limit (ie_size entry))\<rparr>)
      else if item = ''UID'' then Inr (f\<lparr>fm_uid := Some (word_of_int (ie_uid entry))\<rparr>)
      else if parse_section lib item = None then Inr f
      else bind_res (of_option IMAPLibrary (read_header_block lib raw)) (\<lambda>(header, body).
           bind_res (of_option IMAPLibrary (section_of lib header body item))
             (\<lambda>x. Inr (f\<lparr>fm_body := fm_body f @ [(item, x)]\<rparr>))))"

text \<open>Reading a body section without \<open>Peek\<close> marks the message as seen first.\<close>

definition fetch :: "imap_lib \<Rightarrow> env \<Rightarrow> imap_user \<Rightarrow> imap_mailbox \<Rightarrow> imap_entry \<Rightarrow> u32 \<Rightarrow> string list \<Rightarrow> db
    \<Rightarrow> db \<times> (imap_error + fetched_message)" where
  "fetch lib env u m entry0 seqNum items db =
     (let marks = list_ex (\<lambda>item. parse_section lib item = Some False) items \<and> \<not> hasFlag (ie_flags entry0) Seen;
          entry = (if marks then entry0\<lparr>ie_flags := ie_flags entry0 @ [Seen]\<rparr> else entry0);
          r1 = (if marks then map_error IMAPStore (IMAPSetEntryFlags env (iu_id u) (im_id m) (ie_id entry) (ie_flags entry) db)
                else Inr db)
      in case r1 of
           Inl e \<Rightarrow> (db, Inl e)
         | Inr db1 \<Rightarrow>
             (db1,
              bind_res (if list_ex (needs_message lib) items
                        then map_error IMAPStore (IMAPEntryRaw db1 (iu_id u) (im_id m) (ie_id entry)) else Inr [])
                (\<lambda>raw. fold_res (fetch_item lib entry raw) items
                   \<lparr>fm_seq = seqNum, fm_items = items, fm_envelope = None, fm_structure = None, fm_flags = None,
                    fm_date = None, fm_size = None, fm_uid = None, fm_body = []\<rparr>)))"

fun fetch_entries :: "imap_lib \<Rightarrow> (u32 \<Rightarrow> env) \<Rightarrow> imap_user \<Rightarrow> imap_mailbox \<Rightarrow> string list \<Rightarrow> (u32 \<times> imap_entry) list \<Rightarrow> db
    \<Rightarrow> db \<times> fetched_message list \<times> imap_error option" where
  "fetch_entries lib envs u m items [] db = (db, [], None)"
| "fetch_entries lib envs u m items ((seqNum, entry) # rest) db =
     (case fetch lib (envs seqNum) u m entry seqNum items db of
        (db1, Inl e) \<Rightarrow> (db1, [], Some e)
      | (db1, Inr f) \<Rightarrow>
          (case fetch_entries lib envs u m items rest db1 of (db2, fs, e) \<Rightarrow> (db2, f # fs, e)))"

text \<open>The messages sent on the channel, and the error after them.\<close>

definition ListMessages :: "imap_lib \<Rightarrow> (u32 \<Rightarrow> env) \<Rightarrow> imap_user \<Rightarrow> imap_mailbox \<Rightarrow> bool \<Rightarrow> seqset option \<Rightarrow> string list \<Rightarrow> db
    \<Rightarrow> db \<times> fetched_message list \<times> imap_error option" where
  "ListMessages lib envs u m uid seqset items db =
     (case snapshot db u m of
        Inl e \<Rightarrow> (db, [], Some e)
      | Inr (m', es) \<Rightarrow>
          fetch_entries lib envs u m' items (filter (selected uid seqset (maxima es)) (numbered es)) db)"

definition search_entry :: "imap_lib \<Rightarrow> db \<Rightarrow> imap_user \<Rightarrow> imap_mailbox \<Rightarrow> bool \<Rightarrow> search_criteria \<Rightarrow> u32 \<times> imap_entry
    \<Rightarrow> u32 list \<Rightarrow> imap_error + u32 list" where
  "search_entry lib db u m uid criteria ne result =
     (let (seqNum, entry) = ne; entryUID = word_of_int (ie_uid entry)
      in bind_res (map_error IMAPStore (IMAPEntryRaw db (iu_id u) (im_id m) (ie_id entry))) (\<lambda>raw.
         guard_err (\<not> message_readable lib raw) IMAPLibrary
           (bind_res (of_option IMAPLibrary
               (match_message lib raw seqNum entryUID (ie_internal_date entry) (ie_flags entry) criteria))
             (\<lambda>matched. Inr (if matched then result @ [if uid then entryUID else seqNum] else result)))))"

definition SearchMessages :: "imap_lib \<Rightarrow> db \<Rightarrow> imap_user \<Rightarrow> imap_mailbox \<Rightarrow> bool \<Rightarrow> search_criteria option
    \<Rightarrow> imap_error + u32 list" where
  "SearchMessages lib db u m uid criteria =
     bind_res (snapshot db u m) (\<lambda>(m', es).
       fold_res (search_entry lib db u m' uid (normalizeCriteria lib (fst (maxima es)) (snd (maxima es)) criteria))
         (numbered es) [])"

section \<open>Changing messages\<close>

definition append_event :: "imap_user \<Rightarrow> string \<Rightarrow> audit_event" where
  "append_event u direction =
     \<lparr>ev_id = [], ev_actor_id = iu_id u,
      ev_action = (if direction = ''draft'' then ''draft.save'' else ''message.append''),
      ev_target_type = ''message'', ev_target_id = [], ev_reason = [],
      ev_metadata = ''{\"protocol\":\"imap\"}'',
      ev_ip = (if iu_remote_ip u = [] then ''unknown'' else iu_remote_ip u), ev_created = zero_time\<rparr>"

definition CreateMessage :: "store_backend \<Rightarrow> env \<Rightarrow> time \<Rightarrow> imap_user \<Rightarrow> imap_mailbox \<Rightarrow> string list \<Rightarrow> time \<Rightarrow> reader \<Rightarrow> db
    \<Rightarrow> imap_error + db" where
  "CreateMessage b env now u m flags date body db =
     bind_res (ensureActive db u) (\<lambda>_.
     bind_res (readLiteral body (sb_max_bytes b)) (\<lambda>raw.
       (let direction = (if EqualFold (im_name m) ''Drafts'' \<or> hasFlag flags Draft then ''draft'' else ''append'')
        in bind_res (of_option IMAPLibrary (parse_mime (sb_mail b) raw [] [] direction)) (\<lambda>(parsed, atts).
             map_error (\<lambda>e. if e = ErrQuotaExceeded then ErrTooBig else IMAPStore e)
               (map_sum id fst (SaveMessageAudited (sb_config b) (sb_sql b) (sb_statfs b) env
                  (parsed\<lparr>m_received := (if date = zero_time then now else date), m_created := zero_time\<rparr>) atts
                  [\<lparr>dl_user_id = iu_id u, dl_mailbox = im_name m,
                    dl_flags = (if hasFlag flags Recent then flags else flags @ [Recent])\<rparr>] []
                  (append_event u direction) db))))))"

fun store_flags :: "imap_lib \<Rightarrow> (u32 \<Rightarrow> env) \<Rightarrow> imap_user \<Rightarrow> imap_mailbox \<Rightarrow> string \<Rightarrow> string list \<Rightarrow> (u32 \<times> imap_entry) list \<Rightarrow> db
    \<Rightarrow> db \<times> imap_error option" where
  "store_flags lib envs u m operation flags [] db = (db, None)"
| "store_flags lib envs u m operation flags ((seqNum, entry) # rest) db =
     (let updated = update_flags lib (ie_flags entry) operation (canonicalFlags lib flags)
      in case IMAPSetEntryFlags (envs seqNum) (iu_id u) (im_id m) (ie_id entry) updated db of
           Inl e \<Rightarrow> (db, Some (IMAPStore e))
         | Inr db1 \<Rightarrow> store_flags lib envs u m operation flags rest db1)"

definition UpdateMessagesFlags :: "imap_lib \<Rightarrow> (u32 \<Rightarrow> env) \<Rightarrow> imap_user \<Rightarrow> imap_mailbox \<Rightarrow> bool \<Rightarrow> seqset option \<Rightarrow> string
    \<Rightarrow> string list \<Rightarrow> db \<Rightarrow> db \<times> imap_error option" where
  "UpdateMessagesFlags lib envs u m uid seqset operation flags db =
     (case snapshot db u m of
        Inl e \<Rightarrow> (db, Some e)
      | Inr (m', es) \<Rightarrow>
          store_flags lib envs u m' operation flags (filter (selected uid seqset (maxima es)) (numbered es)) db)"

definition CopyMessages :: "imap_lib \<Rightarrow> env \<Rightarrow> imap_user \<Rightarrow> imap_mailbox \<Rightarrow> bool \<Rightarrow> seqset option \<Rightarrow> string \<Rightarrow> db
    \<Rightarrow> imap_error + db" where
  "CopyMessages lib env u m uid seqset destination db =
     bind_res (selectedEntries db u m uid seqset) (\<lambda>(m', es).
       map_error no_such_mailbox (IMAPCopyEntries env (iu_id u) (canonical_mailbox_name lib destination) es db))"

definition MoveMessages :: "imap_lib \<Rightarrow> env \<Rightarrow> imap_user \<Rightarrow> imap_mailbox \<Rightarrow> bool \<Rightarrow> seqset option \<Rightarrow> string \<Rightarrow> db
    \<Rightarrow> imap_error + db" where
  "MoveMessages lib env u m uid seqset destination db =
     bind_res (selectedEntries db u m uid seqset) (\<lambda>(m', es).
       map_error no_such_mailbox
         (IMAPMoveEntries env (iu_id u) (im_id m') (canonical_mailbox_name lib destination) es db))"

definition Expunge :: "env \<Rightarrow> imap_user \<Rightarrow> imap_mailbox \<Rightarrow> db \<Rightarrow> imap_error + db" where
  "Expunge env u m db =
     bind_res (ensureActive db u) (\<lambda>_.
       map_error IMAPStore (map_sum id fst (IMAPExpungeDeleted env (iu_id u) (im_id m) db)))"

section \<open>One command\<close>

text \<open>
  The commands of a logged-in client on its mailboxes, and what each gives back. An error leaves the
  database as it is, except that fetching and storing flags keep what was done before it.
\<close>

datatype imap_cmd =
    IList bool
  | IGet string
  | ICreate env string
  | IDelete string
  | IRename string string
  | IStatus
  | ISubscribe bool
  | ICheck
  | IFetch "u32 \<Rightarrow> env" bool "seqset option" "string list"
  | ISearch bool "search_criteria option"
  | IAppend env time "string list" time reader
  | IStore "u32 \<Rightarrow> env" bool "seqset option" string "string list"
  | ICopy env bool "seqset option" string
  | IMove env bool "seqset option" string
  | IExpunge env

datatype imap_data =
    NoData
  | Mailboxes "imap_mailbox list"
  | StatusData mailbox_status
  | Fetched "fetched_message list"
  | Found "u32 list"

type_synonym imap_reply = "imap_data \<times> imap_error option"

definition reply :: "('a \<Rightarrow> imap_data) \<Rightarrow> imap_error + 'a \<Rightarrow> imap_reply" where
  "reply f r = (case r of Inl e \<Rightarrow> (NoData, Some e) | Inr x \<Rightarrow> (f x, None))"

definition answer :: "db \<Rightarrow> imap_error + db \<Rightarrow> db \<times> imap_reply" where
  "answer db r = (case r of Inl e \<Rightarrow> (db, NoData, Some e) | Inr db' \<Rightarrow> (db', NoData, None))"

fun imap_exec :: "store_backend \<Rightarrow> imap_user \<Rightarrow> imap_mailbox \<Rightarrow> db \<Rightarrow> imap_cmd \<Rightarrow> db \<times> imap_reply" where
  "imap_exec b u m db (IList s) = (db, reply Mailboxes (ListMailboxes_user db u s))"
| "imap_exec b u m db (IGet n) = (db, reply (\<lambda>x. Mailboxes [x]) (GetMailbox_user (sb_imap b) db u n))"
| "imap_exec b u m db (ICreate env n) = answer db (CreateMailbox_user (sb_imap b) env u n db)"
| "imap_exec b u m db (IDelete n) = answer db (DeleteMailbox_user (sb_imap b) u n db)"
| "imap_exec b u m db (IRename x y) = answer db (RenameMailbox_user (sb_imap b) u x y db)"
| "imap_exec b u m db IStatus = (db, reply (StatusData \<circ> snd) (Status b db u m))"
| "imap_exec b u m db (ISubscribe s) = answer db (SetSubscribed u m s db)"
| "imap_exec b u m db ICheck = (db, reply (\<lambda>_. NoData) (ensureActive db u))"
| "imap_exec b u m db (IFetch envs uid sq items) =
     (case ListMessages (sb_imap b) envs u m uid sq items db of (db', fs, e) \<Rightarrow> (db', Fetched fs, e))"
| "imap_exec b u m db (ISearch uid c) = (db, reply Found (SearchMessages (sb_imap b) db u m uid c))"
| "imap_exec b u m db (IAppend env now fs date body) = answer db (CreateMessage b env now u m fs date body db)"
| "imap_exec b u m db (IStore envs uid sq op fs) =
     (case UpdateMessagesFlags (sb_imap b) envs u m uid sq op fs db of (db', e) \<Rightarrow> (db', NoData, e))"
| "imap_exec b u m db (ICopy env uid sq d) = answer db (CopyMessages (sb_imap b) env u m uid sq d db)"
| "imap_exec b u m db (IMove env uid sq d) = answer db (MoveMessages (sb_imap b) env u m uid sq d db)"
| "imap_exec b u m db (IExpunge env) = answer db (Expunge env u m db)"

end
