(* ===== verification/Isolation.thy ===== *)
theory Isolation
  imports StoreProperties
begin

text \<open>
  What one user's operations leave alone: the mailboxes of all others, their entries, the messages
  these show, the accounts and the queue's owners. \<open>own_cmd\<close> singles out the store commands that act
  for one user; each of them keeps the others' mail, and the names of the user's system mailboxes.
\<close>

section \<open>The mail of the others\<close>

definition others_mail :: "string \<Rightarrow> db \<Rightarrow> (mailbox_entry \<times> message) list" where
  "others_mail uid db = filter (\<lambda>(e, m). e_user_id e \<noteq> uid) (joined db)"

definition others_boxes :: "string \<Rightarrow> db \<Rightarrow> mailbox list" where
  "others_boxes uid db = filter (\<lambda>b. mb_user_id b \<noteq> uid) (mailboxes db)"

definition others_entries :: "string \<Rightarrow> db \<Rightarrow> mailbox_entry list" where
  "others_entries uid db = filter (\<lambda>e. e_user_id e \<noteq> uid) (entries db)"

definition private_step :: "string \<Rightarrow> db \<Rightarrow> db \<Rightarrow> bool" where
  "private_step uid db db' \<longleftrightarrow> others_entries uid db' = others_entries uid db \<and> others_boxes uid db' = others_boxes uid db
     \<and> (\<forall>e \<in> set (others_entries uid db). message_by_id db' (e_message_id e) = message_by_id db (e_message_id e))"

lemma others_mail_entries:
  "others_mail uid db = List.map_filter (\<lambda>e. map_option (\<lambda>m. (e, m)) (message_by_id db (e_message_id e))) (others_entries uid db)"
proof -
  have "filter (\<lambda>(e, m). Q e) (List.map_filter (\<lambda>e. map_option (\<lambda>m. (e, m)) (f e)) es)
      = List.map_filter (\<lambda>e. map_option (\<lambda>m. (e, m)) (f e)) (filter Q es)" for Q f and es :: "mailbox_entry list"
    by (induction es) (auto simp: map_filter_simps split: option.splits)
  then show ?thesis by (simp add: others_mail_def joined_def others_entries_def)
qed

lemma private_step_mail:
  assumes "private_step uid db db'"
  shows "others_mail uid db' = others_mail uid db"
proof -
  have cong: "List.map_filter f es = List.map_filter g es" if "\<And>e. e \<in> set es \<Longrightarrow> f e = g e"
    for f g :: "mailbox_entry \<Rightarrow> (mailbox_entry \<times> message) option" and es
    using that by (induction es) (auto simp: map_filter_simps split: option.splits)
  have "others_entries uid db' = others_entries uid db" using assms by (simp add: private_step_def)
  then show ?thesis unfolding others_mail_entries
    by (simp only:) (rule cong, use assms in \<open>simp add: private_step_def\<close>)
qed

lemma private_refl [simp]: "private_step uid db db"
  by (simp add: private_step_def)

lemma private_trans [trans]: "private_step uid a b \<Longrightarrow> private_step uid b c \<Longrightarrow> private_step uid a c"
  by (auto simp: private_step_def)

lemma private_cong:
  "entries db' = entries db \<Longrightarrow> mailboxes db' = mailboxes db \<Longrightarrow> messages db' = messages db \<Longrightarrow> private_step uid db db'"
  by (simp add: private_step_def others_entries_def others_boxes_def message_by_id_def)

section \<open>Statements\<close>

lemma filter_update_where:
  "(\<And>x. x \<in> set xs \<Longrightarrow> P x \<Longrightarrow> \<not> Q x \<and> \<not> Q (f x)) \<Longrightarrow> filter Q (update_where P f xs) = filter Q xs"
  by (induction xs) (auto simp: update_where_def)

lemma private_insert_entry: "insert_entry db r = Inr db' \<Longrightarrow> e_user_id r = uid \<Longrightarrow> private_step uid db db'"
  by (auto simp: insert_entry_def private_step_def others_entries_def others_boxes_def message_by_id_def)

lemma private_update_entries:
  "(\<And>e. P e \<Longrightarrow> e_user_id e = uid \<and> e_user_id (f e) = uid) \<Longrightarrow> private_step uid db (update_entries P f db)"
  by (auto simp: update_entries_def private_step_def others_entries_def others_boxes_def message_by_id_def
      intro!: filter_update_where)

lemma private_delete_entries: "(\<And>e. P e \<Longrightarrow> e_user_id e = uid) \<Longrightarrow> private_step uid db (delete_entries P db)"
  by (auto simp: delete_entries_def private_step_def others_entries_def others_boxes_def message_by_id_def
      intro!: filter_cong)

lemma private_insert_message:
  assumes "insert_message db m = Inr db'" and "mail_inv db"
  shows "private_step uid db db'"
proof -
  have "message_by_id db' i = message_by_id db i" if "i \<in> m_id ` set (messages db)" for i
  proof -
    have "find (\<lambda>m. m_id m = i) (ms @ [m]) = find (\<lambda>m. m_id m = i) ms" if "i \<in> m_id ` set ms" for ms
      using that by (induction ms) auto
    then show ?thesis using assms(1) that by (auto simp: insert_message_def message_by_id_def)
  qed
  then show ?thesis using assms
    by (auto simp: private_step_def others_entries_def others_boxes_def insert_message_def mail_inv_def)
qed

lemma private_delete_messages:
  assumes "delete_messages db P = Inr db'"
  shows "private_step uid db db'"
proof -
  have keep: "\<not> P m" if "m \<in> set (messages db)" "e \<in> set (entries db)" "e_message_id e = m_id m" for m e
    using assms that by (auto simp: delete_messages_def Let_def list_ex_iff)
  have "find (\<lambda>m. m_id m = i) (filter (\<lambda>m. \<not> P m) ms) = find (\<lambda>m. m_id m = i) ms"
    if "\<And>m. m \<in> set ms \<Longrightarrow> m_id m = i \<Longrightarrow> \<not> P m" for ms i
    using that by (induction ms) auto
  then have "message_by_id db' (e_message_id e) = message_by_id db (e_message_id e)" if "e \<in> set (entries db)" for e
    using assms keep [OF _ that] by (auto simp: delete_messages_def Let_def message_by_id_def)
  moreover have "entries db' = entries db" "mailboxes db' = mailboxes db"
    using assms by (auto simp: delete_messages_def Let_def)
  ultimately show ?thesis by (simp add: private_step_def others_entries_def others_boxes_def)
qed

lemma private_boxes:
  assumes "\<And>b. b \<in> set (mailboxes db) \<Longrightarrow> P b \<Longrightarrow> mb_user_id b = uid" and "\<And>b. mb_user_id (f b) = mb_user_id b"
  shows "private_step uid db (db\<lparr>mailboxes := update_where P f (mailboxes db)\<rparr>)"
  using assms by (auto simp: private_step_def others_entries_def others_boxes_def message_by_id_def intro!: filter_update_where)

lemma private_uid_next:
  assumes "distinct (map mb_id (mailboxes db))" and "b \<in> set (mailboxes db)" and "mb_user_id b = uid"
  shows "private_step uid db (bump_uid (mb_id b) db)" "private_step uid db (set_uid_next (mb_id b) n db)"
proof -
  have "mb_user_id x = uid" if "x \<in> set (mailboxes db)" "mb_id x = mb_id b" for x
    using assms that by (auto simp: distinct_map dest: inj_onD)
  then show "private_step uid db (bump_uid (mb_id b) db)" "private_step uid db (set_uid_next (mb_id b) n db)"
    by (simp_all add: bump_uid_def set_uid_next_def private_boxes)
qed

lemma private_delete_mailbox:
  assumes inv: "mail_inv db"
  shows "private_step uid db (delete_mailbox db i uid)"
proof -
  have "\<not> list_ex (\<lambda>b. mb_id b = e_mailbox_id e) (filter (\<lambda>b. mb_id b = i \<and> mb_user_id b = uid) (mailboxes db))"
    if e: "e \<in> set (entries db)" "e_user_id e \<noteq> uid" for e
  proof -
    obtain b where b: "b \<in> set (mailboxes db)" "mb_id b = e_mailbox_id e" "mb_user_id b = e_user_id e"
      using inv e(1) unfolding mail_inv_def uid_ok_def by blast
    have "inj_on mb_id (set (mailboxes db))" using inv by (simp add: mail_inv_def distinct_map)
    then have "x = b" if "x \<in> set (mailboxes db)" "mb_id x = mb_id b" for x
      using b(1) that by (auto dest: inj_onD)
    then have "mb_user_id x \<noteq> uid" if "x \<in> set (mailboxes db)" "mb_id x = e_mailbox_id e" for x
      using b(2,3) e(2) that by metis
    then show ?thesis unfolding list_ex_iff set_filter by blast
  qed
  then have "filter (\<lambda>e. e_user_id e \<noteq> uid) (filter (\<lambda>e. \<not> list_ex (\<lambda>b. mb_id b = e_mailbox_id e)
      (filter (\<lambda>b. mb_id b = i \<and> mb_user_id b = uid) (mailboxes db))) (entries db)) = others_entries uid db"
    unfolding others_entries_def filter_filter by (intro filter_cong) auto
  moreover have "filter (\<lambda>b. mb_user_id b \<noteq> uid) (filter (\<lambda>b. \<not> (mb_id b = i \<and> mb_user_id b = uid)) (mailboxes db))
      = others_boxes uid db"
    unfolding others_boxes_def filter_filter by (intro filter_cong) auto
  ultimately show ?thesis
    by (simp add: delete_mailbox_def Let_def private_step_def others_entries_def others_boxes_def message_by_id_def)
qed

lemma mailbox_named_own:
  "mailbox_named db uid name = Some b \<Longrightarrow> b \<in> set (mailboxes db) \<and> mb_user_id b = uid \<and> EqualFold (mb_name b) name"
  unfolding mailbox_named_def by (drule find_SomeD) simp

section \<open>Operations\<close>

text \<open>A private step that also keeps the mailbox IDs unique.\<close>

definition good_private :: "string \<Rightarrow> db \<Rightarrow> db \<Rightarrow> bool" where
  "good_private uid db db' \<longleftrightarrow> (distinct (map mb_id (mailboxes db)) \<longrightarrow>
     distinct (map mb_id (mailboxes db')) \<and> private_step uid db db')"

lemma good_private_refl [simp]: "good_private uid db db"
  by (simp add: good_private_def)

lemma good_private_trans [trans]: "good_private uid a b \<Longrightarrow> good_private uid b c \<Longrightarrow> good_private uid a c"
  by (auto simp: good_private_def intro: private_trans)

lemma good_private_same: "private_step uid db db' \<Longrightarrow> mailboxes db' = mailboxes db \<Longrightarrow> good_private uid db db'"
  by (simp add: good_private_def)

lemma fold_private:
  assumes "fold_res f xs s = Inr s'" and "\<And>x t t'. f x t = Inr t' \<Longrightarrow> good_private uid (p t) (p t')"
  shows "good_private uid (p s) (p s')"
  using assms(1) by (rule fold_res_inv [where P = "\<lambda>t. good_private uid (p s) (p t)"])
    (auto intro: good_private_trans assms(2))

lemma fold_boxes:
  assumes "fold_res f xs s = Inr s'" and "\<And>x t t'. f x t = Inr t' \<Longrightarrow> mailboxes (p t') = mailboxes (p t)"
  shows "mailboxes (p s') = mailboxes (p s)"
  using assms(1) by (rule fold_res_inv [where P = "\<lambda>t. mailboxes (p t) = mailboxes (p s)"]) (auto dest: assms(2))

lemma insert_entry_boxes: "insert_entry db r = Inr db' \<Longrightarrow> mailboxes db' = mailboxes db"
  by (auto simp: insert_entry_def)

lemma delete_messages_boxes: "delete_messages db P = Inr db' \<Longrightarrow> mailboxes db' = mailboxes db"
  by (auto simp: delete_messages_def Let_def)

lemma update_boxes [simp]:
  "mailboxes (update_entries P f db) = mailboxes db" "mailboxes (delete_entries P db) = mailboxes db"
  "map mb_id (mailboxes (bump_uid i db)) = map mb_id (mailboxes db)"
  "map mb_id (mailboxes (set_uid_next i n db)) = map mb_id (mailboxes db)"
  by (simp_all add: update_entries_def delete_entries_def bump_uid_def set_uid_next_def map_update_where)

lemma selects_own: "selects uid b i e \<Longrightarrow> e_user_id e = uid"
  by (simp add: selects_def)

lemma private_IMAPSetEntryFlags:
  assumes "IMAPSetEntryFlags env uid b i fs db = Inr db'"
  shows "private_step uid db db'"
proof -
  obtain f where "db' = update_entries (selects uid b i) f db" and "\<And>e. e_user_id (f e) = e_user_id e"
    using assms by (auto simp: IMAPSetEntryFlags_def Let_def update_entries_found_def)
  then show ?thesis using private_update_entries [of "selects uid b i" uid f db] selects_own by simp
qed

lemma private_copyEntry:
  "copyEntry env uid i x s = Inr s' \<Longrightarrow> private_step uid (fst s) (fst s') \<and> mailboxes (fst s') = mailboxes (fst s)"
  by (auto simp: copyEntry_def new_entry_def Let_def split: prod.splits dest: private_insert_entry insert_entry_boxes)

lemma private_IMAPCopyEntries:
  assumes "IMAPCopyEntries env uid dest sel db = Inr db'" and "distinct (map mb_id (mailboxes db))"
  shows "private_step uid db db'"
proof (cases "sel = []")
  case False
  then obtain b d n where b: "mailbox_named db uid dest = Some b"
    and loop: "fold_res (copyEntry env uid (mb_id b)) (enumerate 0 sel) (db, mb_uid_next b) = Inr (d, n)"
    and db': "db' = set_uid_next (mb_id b) n d"
    using assms(1) by (auto simp: IMAPCopyEntries_def Let_def split: option.splits)
  have "good_private uid (fst (db, mb_uid_next b)) (fst (d, n))"
    using loop by (rule fold_private) (auto dest: private_copyEntry intro: good_private_same)
  moreover have boxes: "mailboxes (fst (d, n)) = mailboxes (fst (db, mb_uid_next b))"
    using loop by (rule fold_boxes) (auto dest: private_copyEntry)
  ultimately have "private_step uid db d" using assms(2) by (simp add: good_private_def)
  also have "private_step uid d db'" unfolding db'
    by (rule private_uid_next(2)) (use boxes assms(2) mailbox_named_own [OF b] in simp_all)
  finally show ?thesis .
qed (use assms in \<open>simp add: IMAPCopyEntries_def\<close>)

lemma private_moveEntry:
  assumes "moveEntry env uid src i x s = Inr s'"
  shows "private_step uid (fst s) (fst s') \<and> mailboxes (fst s') = mailboxes (fst s)"
proof -
  obtain db n k where s: "s = (db, n, k)" by (cases s) auto
  show ?thesis
  proof (cases "find (\<lambda>(e, m). selects uid src (ie_id x) e) (joined db)")
    case None
    then show ?thesis using assms by (simp add: moveEntry_def s)
  next
    case (Some em)
    obtain e m where em: "em = (e, m)" by (cases em)
    obtain db1 where db1: "insert_entry db (new_entry env k i uid (e_message_id e) n (with_recent (e_flags e)) (e_internal_date e)) = Inr db1"
      and s': "fst s' = (if m_direction m = ''draft'' then delete_entries (selects uid src (ie_id x)) db1
                  else update_entries (selects uid src (ie_id x)) (expunge_at (clock env 0)) db1)"
      using assms Some by (auto simp: moveEntry_def s em)
    have "private_step uid db db1" by (rule private_insert_entry [OF db1]) (simp add: new_entry_def)
    also have "private_step uid db1 (fst s')" unfolding s'
      by (auto intro!: private_delete_entries private_update_entries dest: selects_own simp: expunge_at_def)
    finally show ?thesis using insert_entry_boxes [OF db1] by (simp add: s s')
  qed
qed

lemma private_IMAPMoveEntries:
  assumes "IMAPMoveEntries env uid src dest sel db = Inr db'" and "distinct (map mb_id (mailboxes db))"
  shows "private_step uid db db'"
proof (cases "sel = []")
  case False
  then obtain b d n k where b: "mailbox_named db uid dest = Some b"
    and loop: "fold_res (moveEntry env uid src (mb_id b)) sel (db, mb_uid_next b, 0) = Inr (d, n, k)"
    and db': "db' = set_uid_next (mb_id b) n d"
    using assms(1) by (auto simp: IMAPMoveEntries_def split: option.splits)
  have "good_private uid (fst (db, mb_uid_next b, 0 :: nat)) (fst (d, n, k))"
    using loop by (rule fold_private) (auto dest: private_moveEntry intro: good_private_same)
  moreover have boxes: "mailboxes (fst (d, n, k)) = mailboxes (fst (db, mb_uid_next b, 0 :: nat))"
    using loop by (rule fold_boxes) (auto dest: private_moveEntry)
  ultimately have "private_step uid db d" using assms(2) by (simp add: good_private_def)
  also have "private_step uid d db'" unfolding db'
    by (rule private_uid_next(2)) (use boxes assms(2) mailbox_named_own [OF b] in simp_all)
  finally show ?thesis .
qed (use assms in \<open>simp add: IMAPMoveEntries_def\<close>)

lemma private_expungeCandidate:
  assumes "expungeCandidate env uid b em s = Inr s'"
  shows "good_private uid (fst s) (fst s')"
proof -
  obtain e m db n where em: "em = (e, m)" and s: "s = (db, n)" by (cases em; cases s)
  let ?P = "selects uid b (e_id e)"
  have "private_step uid db (delete_entries ?P db)" "private_step uid db (update_entries ?P (expunge_at (clock env 0)) db)"
    by (auto intro!: private_delete_entries private_update_entries dest: selects_own simp: expunge_at_def)
  then have own: "good_private uid db (delete_entries ?P db)"
      "good_private uid db (update_entries ?P (expunge_at (clock env 0)) db)"
    by (simp_all add: good_private_same)
  moreover have "good_private uid db db2" if "delete_messages (delete_entries ?P db) Q = Inr db2" for Q db2
    using good_private_trans [OF own(1)] that
    by (blast intro: good_private_same private_delete_messages delete_messages_boxes)
  ultimately show ?thesis
    using assms by (auto simp: expungeCandidate_def em s Let_def split: if_splits)
qed

lemma private_IMAPExpungeDeleted:
  assumes "IMAPExpungeDeleted env uid b db = Inr (db', n)" and "distinct (map mb_id (mailboxes db))"
  shows "private_step uid db db'"
proof -
  have "good_private uid (fst (db, 0 :: int)) (fst (db', n))"
    using assms(1) unfolding IMAPExpungeDeleted_def by (rule fold_private) (rule private_expungeCandidate)
  then show ?thesis using assms(2) by (simp add: good_private_def)
qed

lemma private_IMAPDeleteMailbox:
  assumes "IMAPDeleteMailbox uid n db = Inr db'" and inv: "mail_inv db"
  shows "private_step uid db db'"
proof -
  obtain i ids where loop: "fold_res (\<lambda>i db1. delete_messages db1 (orphaned_draft db1 i)) ids (delete_mailbox db i uid) = Inr db'"
    using assms(1) by (auto simp: IMAPDeleteMailbox_def Let_def split: option.splits)
  have "good_private uid (delete_mailbox db i uid) db'"
    using loop by (rule fold_private [where p = "\<lambda>d. d"])
      (blast intro: good_private_same private_delete_messages delete_messages_boxes)
  moreover have "distinct (map mb_id (mailboxes (delete_mailbox db i uid)))"
    using inv by (auto simp: mail_inv_def delete_mailbox_def Let_def intro: distinct_map_filter_key)
  ultimately show ?thesis
    using private_delete_mailbox [OF inv, of uid i] private_trans by (auto simp: good_private_def)
qed

lemma private_mailbox_ops:
  "CreateMailbox env uid n db = Inr db' \<Longrightarrow> private_step uid db db'"
  "RenameMailbox uid a n db = Inr db' \<Longrightarrow> private_step uid db db'"
  "SetMailboxSubscribed uid n s db = Inr db' \<Longrightarrow> private_step uid db db'"
proof -
  show "CreateMailbox env uid n db = Inr db' \<Longrightarrow> private_step uid db db'"
    by (auto simp: CreateMailbox_def Let_def insert_mailbox_def private_step_def others_entries_def others_boxes_def
        message_by_id_def)
  show "RenameMailbox uid a n db = Inr db' \<Longrightarrow> private_step uid db db'"
    by (auto simp: RenameMailbox_def Let_def intro!: private_boxes)
  show "SetMailboxSubscribed uid n s db = Inr db' \<Longrightarrow> private_step uid db db'"
    by (auto simp: SetMailboxSubscribed_def Let_def intro!: private_boxes)
qed

lemma private_saveDelivery:
  assumes "saveDelivery env m x db = Inr db'" and "dl_user_id (snd x) = uid"
  shows "good_private uid db db'"
proof -
  obtain b r db1 where ins: "insert_entry db r = Inr db1"
    and r: "e_user_id r = uid" and db': "db' = bump_uid (mb_id b) db1" and own: "b \<in> set (mailboxes db)" "mb_user_id b = uid"
    using assms by (auto simp: saveDelivery_def saveMailboxEntry_def Let_def split: option.splits if_splits
        dest: mailbox_named_own)
  have step: "private_step uid db db1" by (rule private_insert_entry [OF ins r])
  show ?thesis unfolding good_private_def
  proof
    assume dist: "distinct (map mb_id (mailboxes db))"
    then have "private_step uid db1 db'" unfolding db'
      by (intro private_uid_next(1)) (use insert_entry_boxes [OF ins] own in simp_all)
    then show "distinct (map mb_id (mailboxes db')) \<and> private_step uid db db'"
      using private_trans [OF step] dist insert_entry_boxes [OF ins] by (simp add: db')
  qed
qed

lemma fold_private_in:
  assumes "fold_res f xs s = Inr s'" and "\<And>x t t'. x \<in> set xs \<Longrightarrow> f x t = Inr t' \<Longrightarrow> good_private uid t t'"
  shows "good_private uid s s'"
  using assms
proof (induction xs arbitrary: s)
  case (Cons x xs)
  then obtain t where t: "f x s = Inr t" "fold_res f xs t = Inr s'" by auto
  then have "good_private uid s t" "good_private uid t s'" using Cons by auto
  then show ?case by (rule good_private_trans)
qed simp

lemma private_saveMessage:
  assumes "saveMessage cfg lib statfs env m0 atts dls [] None event db = Inr (db', m)"
    and own: "\<forall>dl \<in> set dls. dl_user_id dl = uid" and inv: "mail_inv db"
  shows "private_step uid db db'"
proof -
  obtain db2 db3 db4 where s2: "insert_message db m = Inr db2"
    and s3: "fold_res (saveAttachment env (m_id m)) (enumerate 0 atts) db2 = Inr db3"
    and s4: "fold_res (saveDelivery env m) (enumerate 0 dls) db3 = Inr db4"
    and s6: "audit_if env (1 + length dls) db4 ''message'' (m_id m) event = Inr db'"
    using assms(1) by (auto simp: saveMessage_def Let_def removeReplacedDraft_def split: option.splits)
  have "mailboxes db2 = mailboxes db" using s2 by (auto simp: insert_message_def)
  then have "good_private uid db db2" using private_insert_message [OF s2 inv] by (rule good_private_same [rotated])
  also have "good_private uid db2 db3"
    using s3 by (rule fold_private [where p = "\<lambda>d. d"])
      (auto simp: saveAttachment_def Let_def insert_attachment_def intro!: good_private_same private_cong)
  also have "good_private uid db3 db4"
    using s4 own by (elim fold_private_in) (auto intro!: private_saveDelivery simp: in_set_enumerate_eq)
  also have "good_private uid db4 db'"
    using audit_if_Inr [OF s6] by (auto intro!: good_private_same private_cong)
  finally show ?thesis using inv by (simp add: good_private_def mail_inv_def)
qed

section \<open>Commands of one user\<close>

fun own_cmd :: "string \<Rightarrow> mail_cmd \<Rightarrow> bool" where
  "own_cmd uid (CSave cfg lib statfs env m atts dls rs rep ev) =
     (list_all (\<lambda>dl. dl_user_id dl = uid) dls \<and> rs = [] \<and> rep = None)"
| "own_cmd uid (CCreateMailbox env u n) = (u = uid)"
| "own_cmd uid (CRenameMailbox u a b) = (u = uid \<and> \<not> list_ex (\<lambda>s. EqualFold a s) SystemMailboxes)"
| "own_cmd uid (CSubscribe u n s) = (u = uid)"
| "own_cmd uid (CIMAPSetFlags env u b i fs) = (u = uid)"
| "own_cmd uid (CIMAPCopy env u d sel) = (u = uid)"
| "own_cmd uid (CIMAPMove env u src d sel) = (u = uid)"
| "own_cmd uid (CIMAPDeleteMailbox u n) = (u = uid)"
| "own_cmd uid (CIMAPExpunge env u b) = (u = uid)"
| "own_cmd uid c = False"

lemma own_cmd_private:
  assumes "own_cmd uid c" and inv: "mail_inv db"
  shows "private_step uid db (mail_step db c)"
proof -
  have commit: "(\<And>db'. r = Inr db' \<Longrightarrow> private_step uid db db') \<Longrightarrow> private_step uid db (commit db r)" for r
    by (cases r) (simp_all add: commit_def)
  have dist: "distinct (map mb_id (mailboxes db))" using inv by (simp add: mail_inv_def)
  show ?thesis
    using assms
    by (cases c) (auto simp: map_sum_def list_all_iff intro!: commit split: sum.splits
        dest: private_mailbox_ops private_IMAPSetEntryFlags private_IMAPDeleteMailbox private_saveMessage
          private_IMAPCopyEntries [OF _ dist] private_IMAPMoveEntries [OF _ dist] private_IMAPExpungeDeleted [OF _ dist])
qed

section \<open>System mailboxes\<close>

definition system_name :: "string \<Rightarrow> bool" where
  "system_name name \<longleftrightarrow> list_ex (\<lambda>s. EqualFold name s) SystemMailboxes"

definition box_keys :: "db \<Rightarrow> (string \<times> string \<times> string) list" where
  "box_keys db = map (\<lambda>b. (mb_id b, mb_user_id b, mb_name b)) (mailboxes db)"

definition system_boxes :: "db \<Rightarrow> (string \<times> string \<times> string) set" where
  "system_boxes db = {k \<in> set (box_keys db). system_name (snd (snd k))}"

lemma box_keys_same: "mailboxes db' = mailboxes db \<Longrightarrow> box_keys db' = box_keys db"
  by (simp add: box_keys_def)

lemma box_keys_updates [simp]:
  "box_keys (update_entries P f db) = box_keys db" "box_keys (delete_entries P db) = box_keys db"
  "box_keys (bump_uid i db) = box_keys db" "box_keys (set_uid_next i n db) = box_keys db"
  by (simp_all add: box_keys_def bump_uid_def set_uid_next_def map_update_where)

lemma box_keys_rows:
  "insert_entry db r = Inr db' \<Longrightarrow> box_keys db' = box_keys db"
  "delete_messages db P = Inr db' \<Longrightarrow> box_keys db' = box_keys db"
  "insert_message db m = Inr db' \<Longrightarrow> box_keys db' = box_keys db"
  "insert_attachment db a = Inr db' \<Longrightarrow> box_keys db' = box_keys db"
  by (auto simp: box_keys_def insert_entry_def delete_messages_def insert_message_def insert_attachment_def Let_def)

lemma fold_keys:
  assumes "fold_res f xs s = Inr s'" and "\<And>x t t'. f x t = Inr t' \<Longrightarrow> box_keys (p t') = box_keys (p t)"
  shows "box_keys (p s') = box_keys (p s)"
  using assms(1) by (rule fold_res_inv [where P = "\<lambda>t. box_keys (p t) = box_keys (p s)"]) (auto dest: assms(2))

lemma keys_saveMessage:
  assumes "saveMessage cfg lib statfs env m0 atts dls [] None event db = Inr (db', m)"
  shows "box_keys db' = box_keys db"
proof -
  obtain db2 db3 db4 where s2: "insert_message db m = Inr db2"
    and s3: "fold_res (saveAttachment env (m_id m)) (enumerate 0 atts) db2 = Inr db3"
    and s4: "fold_res (saveDelivery env m) (enumerate 0 dls) db3 = Inr db4"
    and s6: "audit_if env (1 + length dls) db4 ''message'' (m_id m) event = Inr db'"
    using assms(1) by (auto simp: saveMessage_def Let_def removeReplacedDraft_def split: option.splits)
  have "box_keys db3 = box_keys db2"
    using s3 by (rule fold_keys [where p = "\<lambda>d. d"]) (auto simp: saveAttachment_def Let_def dest: box_keys_rows(4))
  moreover have "box_keys db4 = box_keys db3"
    using s4 by (rule fold_keys [where p = "\<lambda>d. d"])
      (auto simp: saveDelivery_def saveMailboxEntry_def Let_def dest: box_keys_rows(1) split: option.splits)
  moreover have "box_keys db' = box_keys db4" using audit_if_Inr [OF s6] by (auto intro: box_keys_same)
  ultimately show ?thesis using box_keys_rows(3) [OF s2] by simp
qed

lemma keys_entries:
  "IMAPSetEntryFlags env uid b i fs db = Inr db' \<Longrightarrow> box_keys db' = box_keys db"
  "SetMailboxSubscribed uid n s db = Inr db' \<Longrightarrow> box_keys db' = box_keys db"
  by (auto simp: IMAPSetEntryFlags_def update_entries_found_def SetMailboxSubscribed_def Let_def)
    (simp add: box_keys_def map_update_where)

lemma keys_IMAPCopyEntries:
  assumes "IMAPCopyEntries env uid dest sel db = Inr db'"
  shows "box_keys db' = box_keys db"
proof (cases "sel = []")
  case False
  then obtain i k d n where loop: "fold_res (copyEntry env uid i) (enumerate 0 sel) (db, k) = Inr (d, n)"
    and db': "db' = set_uid_next i n d"
    using assms by (auto simp: IMAPCopyEntries_def Let_def split: option.splits)
  have "box_keys (fst (d, n)) = box_keys (fst (db, k))"
    using loop by (rule fold_keys) (auto dest: private_copyEntry box_keys_same)
  then show ?thesis by (simp add: db')
qed (use assms in \<open>simp add: IMAPCopyEntries_def\<close>)

lemma keys_IMAPMoveEntries:
  assumes "IMAPMoveEntries env uid src dest sel db = Inr db'"
  shows "box_keys db' = box_keys db"
proof (cases "sel = []")
  case False
  then obtain i j d n k where loop: "fold_res (moveEntry env uid src i) sel (db, j, 0) = Inr (d, n, k)"
    and db': "db' = set_uid_next i n d"
    using assms by (auto simp: IMAPMoveEntries_def split: option.splits)
  have "box_keys (fst (d, n, k)) = box_keys (fst (db, j, 0 :: nat))"
    using loop by (rule fold_keys) (auto dest: private_moveEntry box_keys_same)
  then show ?thesis by (simp add: db')
qed (use assms in \<open>simp add: IMAPMoveEntries_def\<close>)

lemma keys_IMAPExpungeDeleted:
  assumes "IMAPExpungeDeleted env uid b db = Inr (db', n)"
  shows "box_keys db' = box_keys db"
proof -
  have "box_keys (fst (db', n)) = box_keys (fst (db, 0 :: int))"
    using assms unfolding IMAPExpungeDeleted_def
    by (rule fold_keys) (auto simp: expungeCandidate_def Let_def split: if_splits prod.splits dest: box_keys_rows(2))
  then show ?thesis by simp
qed

lemma system_name_fold: "EqualFold a b \<Longrightarrow> system_name a \<longleftrightarrow> system_name b"
  unfolding system_name_def list_ex_iff by (meson EqualFold_sym EqualFold_trans)

lemma system_boxes_rename:
  assumes "RenameMailbox uid a n db = Inr db'" and "\<not> system_name a"
  shows "system_boxes db \<subseteq> system_boxes db'"
proof
  fix k
  assume "k \<in> system_boxes db"
  then obtain b where b: "b \<in> set (mailboxes db)" "k = (mb_id b, mb_user_id b, mb_name b)" "system_name (mb_name b)"
    by (auto simp: system_boxes_def box_keys_def)
  then have "\<not> EqualFold (mb_name b) a" using assms(2) system_name_fold by blast
  moreover obtain f where "db' = db\<lparr>mailboxes := update_where (\<lambda>b. mb_user_id b = uid \<and> EqualFold (mb_name b) a) f (mailboxes db)\<rparr>"
    using assms(1) by (auto simp: RenameMailbox_def Let_def)
  ultimately have "b \<in> set (mailboxes db')" using b(1) by (simp add: in_update_whereI)
  then show "k \<in> system_boxes db'" using b(2,3) by (auto simp: system_boxes_def box_keys_def)
qed

lemma system_boxes_delete:
  assumes "IMAPDeleteMailbox uid n db = Inr db'" and inv: "mail_inv db"
  shows "system_boxes db \<subseteq> system_boxes db'"
proof
  fix k
  assume "k \<in> system_boxes db"
  then obtain b where b: "b \<in> set (mailboxes db)" "k = (mb_id b, mb_user_id b, mb_name b)" "system_name (mb_name b)"
    by (auto simp: system_boxes_def box_keys_def)
  obtain c ids where c: "mailbox_named db uid (TrimSpace n) = Some c" and sys: "\<not> system_name (TrimSpace n)"
    and loop: "fold_res (\<lambda>i db1. delete_messages db1 (orphaned_draft db1 i)) ids (delete_mailbox db (mb_id c) uid) = Inr db'"
    using assms(1) by (auto simp: IMAPDeleteMailbox_def Let_def system_name_def split: option.splits)
  have "c \<in> set (mailboxes db)" "\<not> system_name (mb_name c)"
    using mailbox_named_own [OF c] sys system_name_fold by auto
  then have "mb_id b \<noteq> mb_id c"
    using b(1,3) inv by (auto simp: mail_inv_def distinct_map dest: inj_onD)
  then have "b \<in> set (mailboxes (delete_mailbox db (mb_id c) uid))" using b(1) by (simp add: delete_mailbox_def Let_def)
  moreover have "mailboxes db' = mailboxes (delete_mailbox db (mb_id c) uid)"
    using loop by (rule fold_boxes [where p = "\<lambda>d. d"]) (rule delete_messages_boxes)
  ultimately show "k \<in> system_boxes db'" using b(2,3) by (auto simp: system_boxes_def box_keys_def)
qed

lemma own_cmd_system:
  assumes "own_cmd uid c" and inv: "mail_inv db"
  shows "system_boxes db \<subseteq> system_boxes (mail_step db c)"
proof -
  have same: "box_keys db' = box_keys db \<Longrightarrow> system_boxes db \<subseteq> system_boxes db'" for db'
    by (simp add: system_boxes_def)
  have create: "CreateMailbox env u n db = Inr db' \<Longrightarrow> system_boxes db \<subseteq> system_boxes db'" for env u n db'
    by (auto simp: CreateMailbox_def Let_def insert_mailbox_def system_boxes_def box_keys_def)
  have commit: "(\<And>db'. r = Inr db' \<Longrightarrow> system_boxes db \<subseteq> system_boxes db') \<Longrightarrow> system_boxes db \<subseteq> system_boxes (commit db r)" for r
    by (cases r) (simp_all add: commit_def)
  show ?thesis
  proof (cases c)
    case (CRenameMailbox u a b)
    then have "\<not> system_name a" using assms(1) by (simp add: system_name_def)
    then show ?thesis using CRenameMailbox by (simp add: commit system_boxes_rename)
  next
    case (CIMAPDeleteMailbox u n)
    then show ?thesis using inv by (auto intro!: commit dest: system_boxes_delete)
  qed (use assms(1) in \<open>auto simp: map_sum_def intro!: commit split: sum.splits
      intro: create [THEN subsetD] keys_saveMessage [THEN same, THEN subsetD] keys_entries [THEN same, THEN subsetD]
        keys_IMAPCopyEntries [THEN same, THEN subsetD] keys_IMAPMoveEntries [THEN same, THEN subsetD]
        keys_IMAPExpungeDeleted [THEN same, THEN subsetD]\<close>)
qed

section \<open>Runs\<close>

text \<open>What holds of every run of one user's commands.\<close>

lemma own_run:
  assumes "list_all (own_cmd uid) cs" and "mail_inv db"
  shows "mail_inv (foldl mail_step db cs) \<and> private_step uid db (foldl mail_step db cs)
    \<and> system_boxes db \<subseteq> system_boxes (foldl mail_step db cs)"
  using assms
proof (induction cs arbitrary: db)
  case (Cons c cs)
  have "mail_inv (mail_step db c)"
    using good_mail_step [of db c] Cons.prems(2) by (simp add: good_step_def)
  then show ?case
    using Cons own_cmd_private [of uid c db] own_cmd_system [of uid c db] private_trans by fastforce
qed simp

end
