(* ===== verification/ImapProperties.thy ===== *)
theory ImapProperties
  imports ImapBackend Isolation
begin

text \<open>
  What the IMAP backend promises: a session is a run of store commands of its own user, so it leaves
  the others' mail alone and inherits the invariants of the store; a session from before a change of
  credentials gets nothing; and sets of numbers mean the same in every command.
\<close>

section \<open>A session is a run of store commands\<close>

lemma commit_answer: "fst (answer db r) = (case r of Inl _ \<Rightarrow> db | Inr db' \<Rightarrow> db')"
  by (simp add: answer_def split: sum.split)

lemma map_error_Inr [simp]: "map_error f r = Inr x \<longleftrightarrow> r = Inr x"
  by (cases r) (simp_all add: map_error_def)

lemma one_step:
  assumes "own_cmd uid c" and "\<And>db'. r = Inr db' \<Longrightarrow> db' = mail_step db c"
  shows "\<exists>cs. fst (answer db r) = foldl mail_step db cs \<and> list_all (own_cmd uid) cs"
proof (cases r)
  case (Inl e)
  then show ?thesis by (intro exI [of _ "[]"]) (simp add: answer_def)
next
  case (Inr db')
  then show ?thesis using assms by (intro exI [of _ "[c]"]) (simp add: answer_def)
qed

lemma no_step: "\<exists>cs. db = foldl mail_step db cs \<and> list_all (own_cmd uid) cs"
  by (intro exI [of _ "[]"]) simp

lemma more_steps:
  assumes "\<exists>cs. db1 = foldl mail_step db cs \<and> list_all (own_cmd uid) cs"
    and "\<exists>cs. db2 = foldl mail_step db1 cs \<and> list_all (own_cmd uid) cs"
  shows "\<exists>cs. db2 = foldl mail_step db cs \<and> list_all (own_cmd uid) cs"
proof -
  obtain cs ds where "db1 = foldl mail_step db cs" "list_all (own_cmd uid) cs"
    "db2 = foldl mail_step db1 ds" "list_all (own_cmd uid) ds"
    using assms by blast
  then show ?thesis by (intro exI [of _ "cs @ ds"]) simp
qed

lemma set_flags_run:
  assumes "IMAPSetEntryFlags env uid b i fs db = Inr db'"
  shows "\<exists>cs. db' = foldl mail_step db cs \<and> list_all (own_cmd uid) cs"
  using assms by (intro exI [of _ "[CIMAPSetFlags env uid b i fs]"]) (simp add: commit_def)

lemma fetch_run:
  "\<exists>cs. fst (fetch lib env u m e n items db) = foldl mail_step db cs \<and> list_all (own_cmd (iu_id u)) cs"
  using no_step set_flags_run
  by (auto simp: fetch_def Let_def split: sum.splits if_splits)

lemma fetch_entries_run:
  "\<exists>cs. fst (fetch_entries lib envs u m items es db) = foldl mail_step db cs \<and> list_all (own_cmd (iu_id u)) cs"
proof (induction lib envs u m items es db rule: fetch_entries.induct)
  case (1 lib envs u m items db)
  then show ?case using no_step by simp
next
  case (2 lib envs u m items seqNum entry rest db)
  obtain db1 r where r: "fetch lib (envs seqNum) u m entry seqNum items db = (db1, r)"
    by (cases "fetch lib (envs seqNum) u m entry seqNum items db")
  have step: "\<exists>cs. db1 = foldl mail_step db cs \<and> list_all (own_cmd (iu_id u)) cs"
    using fetch_run [of lib "envs seqNum" u m entry seqNum items db] r by simp
  show ?case
  proof (cases r)
    case (Inl e)
    then show ?thesis using step r by simp
  next
    case (Inr f)
    have "fst (fetch_entries lib envs u m items ((seqNum, entry) # rest) db) = fst (fetch_entries lib envs u m items rest db1)"
      using r Inr by (simp split: prod.split)
    then show ?thesis using more_steps [OF step] "2.IH" [OF r [symmetric] Inr] by simp
  qed
qed

lemma store_flags_run:
  "\<exists>cs. fst (store_flags lib envs u m op fs es db) = foldl mail_step db cs \<and> list_all (own_cmd (iu_id u)) cs"
proof (induction lib envs u m op fs es db rule: store_flags.induct)
  case (1 lib envs u m op fs db)
  then show ?case using no_step by simp
next
  case (2 lib envs u m op fs seqNum entry rest db)
  let ?updated = "update_flags lib (ie_flags entry) op (canonicalFlags lib fs)"
  show ?case
  proof (cases "IMAPSetEntryFlags (envs seqNum) (iu_id u) (im_id m) (ie_id entry) ?updated db")
    case (Inl e)
    then show ?thesis using no_step by (simp add: Let_def)
  next
    case (Inr db1)
    then show ?thesis using more_steps [OF set_flags_run [OF Inr]] "2.IH" [OF HOL.refl Inr] by (simp add: Let_def)
  qed
qed

lemma imap_exec_run:
  "\<exists>cs. fst (imap_exec b u m db cmd) = foldl mail_step db cs \<and> list_all (own_cmd (iu_id u)) cs"
proof (cases cmd)
  case (ICreate env n)
  then show ?thesis
    by (auto intro!: one_step [where c = "CCreateMailbox env (iu_id u) (canonical_mailbox_name (sb_imap b) n)"]
        simp: CreateMailbox_user_def commit_def)
next
  case (IDelete n)
  then show ?thesis
    by (auto intro!: one_step [where c = "CIMAPDeleteMailbox (iu_id u) (canonical_mailbox_name (sb_imap b) n)"]
        simp: DeleteMailbox_user_def Let_def commit_def)
next
  case (IRename x y)
  show ?thesis
  proof (cases "isSystemMailbox (canonical_mailbox_name (sb_imap b) x)")
    case True
    then show ?thesis using no_step IRename
      by (cases "ensureActive db u") (simp_all add: RenameMailbox_user_def Let_def commit_answer)
  next
    case False
    then show ?thesis using IRename
      by (auto intro!: one_step [where c = "CRenameMailbox (iu_id u) (canonical_mailbox_name (sb_imap b) x)
          (canonical_mailbox_name (sb_imap b) y)"] simp: RenameMailbox_user_def Let_def isSystemMailbox_def commit_def)
  qed
next
  case (ISubscribe s)
  then show ?thesis
    by (auto intro!: one_step [where c = "CSubscribe (iu_id u) (im_name m) s"] simp: SetSubscribed_def commit_def)
next
  case (IFetch envs uid sq items)
  have "fst (imap_exec b u m db cmd) = fst (ListMessages (sb_imap b) envs u m uid sq items db)"
    using IFetch by (simp split: prod.split)
  then show ?thesis using no_step fetch_entries_run
    by (cases "snapshot db u m") (auto simp: ListMessages_def split: prod.split)
next
  case (IStore envs uid sq op fs)
  have "fst (imap_exec b u m db cmd) = fst (UpdateMessagesFlags (sb_imap b) envs u m uid sq op fs db)"
    using IStore by (simp split: prod.split)
  then show ?thesis using no_step store_flags_run
    by (cases "snapshot db u m") (auto simp: UpdateMessagesFlags_def split: prod.split)
next
  case (IAppend env now fs date body)
  show ?thesis
  proof (cases "CreateMessage b env now u m fs date body db")
    case (Inl e)
    then show ?thesis using IAppend no_step by (simp add: commit_answer)
  next
    case (Inr db')
    then obtain msg atts fl dir where "map_sum id fst (saveMessage (sb_config b) (sb_sql b) (sb_statfs b) env msg atts
        [\<lparr>dl_user_id = iu_id u, dl_mailbox = im_name m, dl_flags = fl\<rparr>] [] None (Some (append_event u dir)) db) = Inr db'"
      by (auto simp: CreateMessage_def SaveMessageAudited_def Let_def)
    let ?c = "CSave (sb_config b) (sb_sql b) (sb_statfs b) env msg atts
        [\<lparr>dl_user_id = iu_id u, dl_mailbox = im_name m, dl_flags = fl\<rparr>] [] None (Some (append_event u dir))"
    have "db' = mail_step db ?c" using \<open>map_sum id fst _ = Inr db'\<close> by (auto simp: commit_def)
    moreover have "own_cmd (iu_id u) ?c" by simp
    ultimately show ?thesis using IAppend Inr
      by (intro exI [of _ "[?c]"] conjI) (simp_all add: commit_answer del: mail_step.simps)
  qed
next
  case (ICopy env uid sq d)
  show ?thesis
  proof (cases "selectedEntries db u m uid sq")
    case (Inl e)
    then show ?thesis using ICopy no_step by (simp add: CopyMessages_def commit_answer)
  next
    case (Inr p)
    then show ?thesis using ICopy
      by (auto intro!: one_step [where c = "CIMAPCopy env (iu_id u) (canonical_mailbox_name (sb_imap b) d) (snd p)"]
          simp: CopyMessages_def commit_def split: prod.splits)
  qed
next
  case (IMove env uid sq d)
  show ?thesis
  proof (cases "selectedEntries db u m uid sq")
    case (Inl e)
    then show ?thesis using IMove no_step by (simp add: MoveMessages_def commit_answer)
  next
    case (Inr p)
    then show ?thesis using IMove
      by (auto intro!: one_step [where c = "CIMAPMove env (iu_id u) (im_id (fst p)) (canonical_mailbox_name (sb_imap b) d) (snd p)"]
          simp: MoveMessages_def commit_def split: prod.splits)
  qed
next
  case (IExpunge env)
  then show ?thesis
    by (auto intro!: one_step [where c = "CIMAPExpunge env (iu_id u) (im_id m)"] simp: Expunge_def commit_def)
qed (use no_step in simp_all)

text \<open>A whole session: commands on mailboxes it has opened, in any order.\<close>

definition imap_session :: "store_backend \<Rightarrow> imap_user \<Rightarrow> db \<Rightarrow> (imap_mailbox \<times> imap_cmd) list \<Rightarrow> db" where
  "imap_session b u db xs = foldl (\<lambda>d x. fst (imap_exec b u (fst x) d (snd x))) db xs"

lemma imap_session_run:
  "\<exists>cs. imap_session b u db xs = foldl mail_step db cs \<and> list_all (own_cmd (iu_id u)) cs"
proof (induction xs arbitrary: db)
  case Nil
  then show ?case using no_step by (simp add: imap_session_def)
next
  case (Cons x xs)
  show ?case using more_steps [OF imap_exec_run Cons.IH] by (simp add: imap_session_def)
qed

lemma mail_steps_accounts: "same_accounts db (foldl mail_step db cs)"
proof (induction cs arbitrary: db)
  case (Cons c cs)
  show ?case using same_accounts_trans [OF accounts_mail_step Cons.IH] by simp
qed simp

section \<open>An example\<close>

definition ex_imap_lib :: imap_lib where
  "ex_imap_lib = \<lparr>canonical_mailbox_name = (\<lambda>s. s), canonical_imap_flag = (\<lambda>s. s),
     parse_section = (\<lambda>s. if s = ''BODY[]'' then Some False else None),
     add_range = (\<lambda>s a b. s @ [if a \<le> b then (a, b) else (b, a)]),
     update_flags = (\<lambda>old op new. new),
     new_criteria = Criteria None None [] \<lparr>sf_since = 0, sf_before = 0, sf_sent_since = 0, sf_sent_before = 0, sf_body = [],
       sf_text = [], sf_with_flags = [], sf_without_flags = [], sf_larger = 0, sf_smaller = 0\<rparr> [] [],
     message_readable = (\<lambda>_. True), match_message = (\<lambda>_ _ _ _ _ _. Some True),
     read_header_block = (\<lambda>raw. Some ([], raw)), envelope_of = Some, structure_of = (\<lambda>h b e. Some b),
     section_of = (\<lambda>h b i. Some b)\<rparr>"

definition ex_smtp_lib :: smtp_lib where
  "ex_smtp_lib = \<lparr>parse_address = Some, parse_address_list = (\<lambda>s. Some [s]), read_header = (\<lambda>_. None),
     parse_mime = (\<lambda>_ _ _ _. None), metadata_json = (\<lambda>s. s)\<rparr>"

definition ex_backend :: store_backend where
  "ex_backend = \<lparr>sb_max_bytes = 1000, sb_config = ex_config, sb_sql = ex_lib, sb_statfs = None,
     sb_imap = ex_imap_lib, sb_mail = ex_smtp_lib\<rparr>"

definition ex_imap_user :: imap_user where
  "ex_imap_user = \<lparr>iu_account = \<lparr>u_id = ''usrAA'', u_domain_id = ''domAA'', u_local_part = ''al'', u_email = ''al@b.io'',
       u_display_name = ''Al'', u_password_hash = ''h'', u_role = RoleAdmin, u_status = StatusActive,
       u_auth_version = 1, u_protocol_auth_version = 1, u_quota_bytes = 1000, u_created = 1000000000,
       u_updated = 1000000000, u_last_login = None\<rparr>, iu_remote_ip = []\<rparr>"

definition ex_inbox :: imap_mailbox where
  "ex_inbox = \<lparr>im_id = ''mbxAA'', im_user_id = ''usrAA'', im_name = ''INBOX'', im_uid_validity = 1, im_uid_next = 2,
     im_subscribed = True\<rparr>"

section \<open>Properties\<close>

text \<open>C34: Isolation of the users. Whatever commands a client sends in an IMAP session, in whatever order
  and with whatever mailboxes open, the mailboxes of all other users, their entries and the messages
  these show, and all accounts and web sessions stay as they are; the system mailboxes of every user
  keep their identity and name.\<close>

theorem imap_isolation:
  assumes "imap_session b u (store_run cs) xs = db'"
  shows "others_mail (iu_id u) db' = others_mail (iu_id u) (store_run cs)
    \<and> others_boxes (iu_id u) db' = others_boxes (iu_id u) (store_run cs)
    \<and> same_accounts (store_run cs) db'
    \<and> system_boxes (store_run cs) \<subseteq> system_boxes db'"
proof -
  obtain ds where ds: "db' = foldl mail_step (store_run cs) ds" "list_all (own_cmd (iu_id u)) ds"
    using imap_session_run [of b u "store_run cs" xs] assms by auto
  have "private_step (iu_id u) (store_run cs) db'" "system_boxes (store_run cs) \<subseteq> system_boxes db'"
    using own_run [OF ds(2) store_run_inv(1)] by (simp_all add: ds(1))
  then show ?thesis
    using private_step_mail mail_steps_accounts [of "store_run cs" ds]
    by (simp add: private_step_def ds(1))
qed

lemma imap_isolation_witness:
  "(let db' = imap_session ex_backend ex_imap_user ex_db
       [(ex_inbox, IRename ''Sent'' ''x''), (ex_inbox, IDelete ''Junk''),
        (ex_inbox, IFetch (\<lambda>_. ex_env 6) False (Some [(1, 0)]) [''BODY[]''])]
    in system_boxes ex_db \<subseteq> system_boxes db' \<and> map e_flags (entries db') = [[Seen]])"
proof -
  let ?xs = "[(ex_inbox, IRename ''Sent'' ''x''), (ex_inbox, IDelete ''Junk''),
        (ex_inbox, IFetch (\<lambda>_. ex_env 6) False (Some [(1, 0)]) [''BODY[]''])]"
  have db: "store_run ex_history = ex_db" using ex_history_then [of "[]"] by simp
  have "map e_flags (entries (imap_session ex_backend ex_imap_user ex_db ?xs)) = [[Seen]]" by code_simp
  then show ?thesis
    using imap_isolation [of ex_backend ex_imap_user ex_history ?xs, OF HOL.refl] unfolding db Let_def by blast
qed

text \<open>
  The commands refuse a session whose account is gone, suspended, or has a newer protocol version.
\<close>

definition refused :: "db \<Rightarrow> db \<times> imap_reply \<Rightarrow> bool" where
  "refused db r \<longleftrightarrow> fst r = db \<and> (fst (snd r) = NoData \<or> fst (snd r) = Fetched [])
     \<and> snd (snd r) = Some (IMAPStore ErrForbidden)"

lemma inactive_refused:
  assumes "ensureActive db u = Inl (IMAPStore ErrForbidden)"
  shows "refused db (imap_exec b u m db cmd)"
  using assms
  by (cases cmd) (simp_all add: refused_def reply_def answer_def ListMailboxes_user_def GetMailbox_user_def
      CreateMailbox_user_def DeleteMailbox_user_def RenameMailbox_user_def Status_def snapshot_def SetSubscribed_def
      ListMessages_def SearchMessages_def CreateMessage_def UpdateMessagesFlags_def CopyMessages_def
      selectedEntries_def MoveMessages_def Expunge_def)

lemma ensureActive_stale:
  assumes "distinct (map u_id (users db))"
    and "\<And>row. row \<in> set (users db) \<Longrightarrow> u_id row = iu_id u \<Longrightarrow>
      u_protocol_auth_version (iu_account u) \<noteq> u_protocol_auth_version row"
  shows "ensureActive db u = Inl (IMAPStore ErrForbidden)"
proof (cases "user_by_id db (iu_id u)")
  case None
  then show ?thesis by (simp add: ensureActive_def GetUserByID_def of_option_def)
next
  case (Some row)
  then have "row \<in> set (users db)" "u_id row = iu_id u" by (auto simp: user_by_id_def dest: find_SomeD)
  then show ?thesis using assms(2) [of row] Some by (auto simp: ensureActive_def GetUserByID_def)
qed

lemma newer_protocol:
  assumes "updateUser env i up event db = Inr db' \<and> (up_password_hash up \<noteq> None \<or> up_status up \<noteq> None)
      \<or> RevokeAppPassword env i p db = Inr db'"
    and "row' \<in> set (users db')" and "u_id row' = i"
  shows "\<exists>row \<in> set (users db). u_id row = i \<and> u_protocol_auth_version row < u_protocol_auth_version row'"
proof -
  obtain f where users: "users db' = update_where (\<lambda>u. u_id u = i) f (users db)"
    and f: "\<And>u. u_id (f u) = u_id u \<and> u_protocol_auth_version u < u_protocol_auth_version (f u)"
  proof (cases "RevokeAppPassword env i p db = Inr db'")
    case True
    then show ?thesis
      by (intro that [of "\<lambda>u. u\<lparr>u_protocol_auth_version := u_protocol_auth_version u + 1, u_updated := clock env 0\<rparr>"])
        (auto simp: RevokeAppPassword_def touch_user_def Let_def)
  next
    case False
    then have up: "updateUser env i up event db = Inr db'" "up_password_hash up \<noteq> None \<or> up_status up \<noteq> None"
      using assms(1) by auto
    have "users db' = update_where (\<lambda>u. u_id u = i) (update_columns env up) (users db)"
      using updateUser_effect [OF up(1)] by (auto simp: revokeAccess_def)
    then show ?thesis
      by (rule that) (use up(2) in \<open>auto simp: update_columns_def Let_def split: option.splits\<close>)
  qed
  obtain row where "row \<in> set (users db)" "row' = (if u_id row = i then f row else row)"
    using assms(2) unfolding users by (rule in_update_whereE)
  then show ?thesis using f [of row] assms(3) by (cases "u_id row = i") auto
qed

text \<open>C35: Old sessions end. Once the password or the status of a user has been changed, or one of the
  user's application passwords revoked, every IMAP session of the user from before (whose account has
  at most the protocol version of that moment) is refused in every later state: whatever it asks
  for, it gets no data, and the database stays as it is.\<close>

theorem imap_session_revoked:
  assumes "updateUser env i up event (store_run cs) = Inr db' \<and> (up_password_hash up \<noteq> None \<or> up_status up \<noteq> None)
      \<or> RevokeAppPassword env i p (store_run cs) = Inr db'"
    and "iu_id u = i" and "account \<in> set (users (store_run cs))" and "u_id account = i"
    and "u_protocol_auth_version (iu_account u) \<le> u_protocol_auth_version account"
  shows "refused (foldl store_step db' ds) (imap_exec b u m (foldl store_step db' ds) cmd)"
proof -
  obtain c where c: "db' = store_step (store_run cs) c"
  proof (cases "RevokeAppPassword env i p (store_run cs) = Inr db'")
    case True
    then show ?thesis by (intro that [of "ARevokeAppPassword env i p"]) (simp add: commit_def)
  next
    case False
    then show ?thesis using assms(1) by (intro that [of "AUpdateUser env i up event"]) (simp add: commit_def)
  qed
  have db': "db' = store_run (cs @ [c])" by (simp add: c store_run_def)
  have last: "foldl store_step db' ds = store_run ((cs @ [c]) @ ds)" by (simp add: c store_run_def)
  have dist: "distinct (map u_id (users (store_run xs)))" for xs
    using store_run_inv(2) [of xs] by (simp add: acct_inv_def)
  have "ensureActive (foldl store_step db' ds) u = Inl (IMAPStore ErrForbidden)"
  proof (rule ensureActive_stale)
    show "distinct (map u_id (users (foldl store_step db' ds)))" unfolding last by (rule dist)
    fix row
    assume row: "row \<in> set (users (foldl store_step db' ds))" "u_id row = iu_id u"
    obtain a1 where a1: "a1 \<in> set (users db')" "newer_user account a1"
      using store_run_le(2) [of cs "[c]"] assms(3) unfolding acct_le_def db' by blast
    then have "u_id a1 = i" using assms(4) by (simp add: newer_user_def)
    then obtain a0 where a0: "a0 \<in> set (users (store_run cs))" "u_id a0 = i"
        "u_protocol_auth_version a0 < u_protocol_auth_version a1"
      using newer_protocol [OF assms(1) a1(1)] by blast
    have "a0 = account" using dist [of cs] a0(1,2) assms(3,4) by (auto simp: distinct_map dest: inj_onD)
    obtain a2 where a2: "a2 \<in> set (users (foldl store_step db' ds))" "newer_user a1 a2"
      using store_run_le(2) [of "cs @ [c]" ds] a1(1) unfolding acct_le_def last [symmetric] db' [symmetric] by blast
    have "u_id a2 = u_id row" using a2(2) \<open>u_id a1 = i\<close> row(2) assms(2) by (simp add: newer_user_def)
    then have "row = a2"
      using dist [of "(cs @ [c]) @ ds"] row(1) a2(1) unfolding last by (auto simp: distinct_map dest: inj_onD)
    then show "u_protocol_auth_version (iu_account u) \<noteq> u_protocol_auth_version row"
      using a0(3) \<open>a0 = account\<close> a2(2) assms(5) by (simp add: newer_user_def)
  qed
  then show ?thesis by (rule inactive_refused)
qed

lemma imap_session_revoked_witness:
  "\<exists>db'. updateUser (ex_env 5) ''usrAA'' ex_suspend None ex_db = Inr db'
     \<and> refused db' (imap_exec ex_backend ex_imap_user ex_inbox db'
         (IFetch (\<lambda>_. ex_env 6) False (Some [(1, 0)]) [''BODY[]'']))"
proof -
  have db: "store_run ex_history = ex_db" using ex_history_then [of "[]"] by simp
  have "\<not> isl (updateUser (ex_env 5) ''usrAA'' ex_suspend None ex_db)" by code_simp
  then obtain db' where r: "updateUser (ex_env 5) ''usrAA'' ex_suspend None ex_db = Inr db'"
    by (rule exE [OF not_isl_Inr])
  have new_password: "up_password_hash ex_suspend \<noteq> None" by (simp add: ex_suspend_def)
  have account: "iu_account ex_imap_user \<in> set (users (store_run ex_history))"
    unfolding db by (simp add: ex_db_def ex_imap_user_def)
  have "refused (foldl store_step db' []) (imap_exec ex_backend ex_imap_user ex_inbox (foldl store_step db' [])
      (IFetch (\<lambda>_. ex_env 6) False (Some [(1, 0)]) [''BODY[]'']))"
    by (rule imap_session_revoked [OF _ _ account, where i = "''usrAA''" and up = ex_suspend and env = "ex_env 5" and event = None])
      (simp_all add: db r new_password ex_imap_user_def)
  then show ?thesis using r by simp
qed

section \<open>Sets of numbers\<close>

text \<open>
  What the documentation of \<open>AddRange\<close> says: afterwards the set has the old numbers and those of the
  range, given in either order.
\<close>

definition in_ranges :: "seqset \<Rightarrow> u32 \<Rightarrow> bool" where
  "in_ranges s v = list_ex (\<lambda>r. fst r \<le> v \<and> v \<le> snd r) s"

definition adds_range :: "imap_lib \<Rightarrow> bool" where
  "adds_range lib \<longleftrightarrow> (\<forall>s a b v. a \<noteq> 0 \<and> b \<noteq> 0 \<longrightarrow>
     in_ranges (add_range lib s a b) v = (in_ranges s v \<or> (min a b \<le> v \<and> v \<le> max a b)))"

lemma in_range_of:
  "fst (range_of n r) \<le> v \<and> v \<le> snd (range_of n r) \<longleftrightarrow>
     min (if fst r = 0 then n else fst r) (if snd r = 0 then n else snd r) \<le> v
     \<and> v \<le> max (if fst r = 0 then n else fst r) (if snd r = 0 then n else snd r)"
proof -
  have "fst (if b < a then (b, a) else (a, b)) \<le> v \<and> v \<le> snd (if b < a then (b, a) else (a, b))
      \<longleftrightarrow> min a b \<le> v \<and> v \<le> max a b" for a b :: u32
    by (auto simp: min_def max_def)
  then show ?thesis by (simp only: range_of_def Let_def)
qed

lemma normalizeSeqSet_contains:
  assumes "adds_range lib"
  shows "in_ranges (the (normalizeSeqSet lib (Some items) n)) v \<longleftrightarrow> seqSetContains (Some items) v n"
proof (cases "n = 0")
  case False
  have "in_ranges (foldl (\<lambda>r item. add_range lib r (if fst item = 0 then n else fst item)
      (if snd item = 0 then n else snd item)) s items) v
    \<longleftrightarrow> in_ranges s v \<or> list_ex (\<lambda>r. fst (range_of n r) \<le> v \<and> v \<le> snd (range_of n r)) items" for s
  proof (induction items arbitrary: s)
    case (Cons r items)
    have "in_ranges (add_range lib s (if fst r = 0 then n else fst r) (if snd r = 0 then n else snd r)) v
      \<longleftrightarrow> in_ranges s v \<or> (fst (range_of n r) \<le> v \<and> v \<le> snd (range_of n r))"
    proof -
      have "(if fst r = 0 then n else fst r) \<noteq> 0 \<and> (if snd r = 0 then n else snd r) \<noteq> 0" using False by simp
      then show ?thesis using assms unfolding adds_range_def in_range_of by blast
    qed
    then show ?case using Cons.IH by (simp del: if_split)
  qed simp
  from this [of "[]"] show ?thesis using False by (simp add: normalizeSeqSet_def seqSetContains_def in_ranges_def)
qed (simp add: normalizeSeqSet_def seqSetContains_def in_ranges_def)

lemma ex_adds_range: "adds_range ex_imap_lib"
  by (auto simp: adds_range_def ex_imap_lib_def in_ranges_def min_def max_def)

end
