(* ===== verification/Security.thy ===== *)
theory Security
  imports ImapGuard GoText
begin

text \<open>
  \<open>internal/security/security.go\<close>: passwords and tokens. Argon2, SHA-256, base64 and the random bytes
  are the fields of \<open>crypto\<close>; the checks around them, the stored form of a password and its parser
  are modelled. The characters of a text in UTF-8 are computed here for the whole development.
\<close>

section \<open>UTF-8\<close>

text \<open>
  The characters of a text. A byte that begins no complete sequence is a character by itself, which
  makes the text invalid and which \<open>string(runes)\<close> writes as the replacement character.
\<close>

fun continuation :: "char \<Rightarrow> bool" where
  "continuation c = (128 \<le> code_of c \<and> code_of c < 192)"

definition rune_length :: "string \<Rightarrow> nat" where
  "rune_length s =
     (case s of
        [] \<Rightarrow> 0
      | c # t \<Rightarrow>
          (let n = code_of c; a = (case t of [] \<Rightarrow> 0 | x # _ \<Rightarrow> code_of x);
               follows = (\<lambda>k. k \<le> length t \<and> list_all continuation (take k t))
           in if 194 \<le> n \<and> n \<le> 223 \<and> follows 1 then 2
              else if 224 \<le> n \<and> n \<le> 239 \<and> follows 2 \<and> (n = 224 \<longrightarrow> 160 \<le> a) \<and> (n = 237 \<longrightarrow> a < 160) then 3
              else if 240 \<le> n \<and> n \<le> 244 \<and> follows 3 \<and> (n = 240 \<longrightarrow> 144 \<le> a) \<and> (n = 244 \<longrightarrow> a < 144) then 4
              else 1))"

lemma rune_length_pos: "0 < rune_length (c # s)"
  by (simp add: rune_length_def Let_def)

function Runes :: "string \<Rightarrow> string list" where
  "Runes [] = []"
| "Runes (c # s) = take (rune_length (c # s)) (c # s) # Runes (drop (rune_length (c # s)) (c # s))"
  by pat_completeness auto

termination
  by (relation "measure length") (use rune_length_pos in \<open>auto simp: Suc_le_eq\<close>)

definition valid_rune :: "string \<Rightarrow> bool" where
  "valid_rune r = (case r of [c] \<Rightarrow> code_of c < 128 | _ \<Rightarrow> True)"

definition ValidString :: "string \<Rightarrow> bool" where
  "ValidString s = list_all valid_rune (Runes s)"

definition RuneCount :: "string \<Rightarrow> nat" where
  "RuneCount s = length (Runes s)"

section \<open>Passwords\<close>

text \<open>
  \<open>argon2 password salt time memory threads length\<close>; \<open>random_bytes n\<close> is \<open>None\<close> when the source fails;
  base64 is the alphabet without padding, \<open>url64\<close> its variant for URLs.
\<close>

record crypto =
  argon2 :: "string \<Rightarrow> string \<Rightarrow> nat \<Rightarrow> nat \<Rightarrow> nat \<Rightarrow> nat \<Rightarrow> string"
  sha256 :: "string \<Rightarrow> string"
  raw64 :: "string \<Rightarrow> string"
  unraw64 :: "string \<Rightarrow> string option"
  url64 :: "string \<Rightarrow> string"
  random_bytes :: "nat \<Rightarrow> string option"

definition argonTime :: nat where "argonTime = 3"
definition argonMemory :: nat where "argonMemory = 64 * 1024"
definition argonThreads :: nat where "argonThreads = 2"
definition argonKeyLen :: nat where "argonKeyLen = 32"
definition maxPasswordBytes :: nat where "maxPasswordBytes = 1024"

datatype password_error = NotUTF8 | TooLong | TooShort | NoSalt

definition HashPassword :: "crypto \<Rightarrow> string \<Rightarrow> password_error + string" where
  "HashPassword cr password =
     guard_err (\<not> ValidString password) NotUTF8
     (guard_err (length password > maxPasswordBytes) TooLong
     (guard_err (RuneCount password < 12) TooShort
     (bind_res (of_option NoSalt (random_bytes cr 16)) (\<lambda>salt.
      (let hash = argon2 cr password salt argonTime argonMemory argonThreads argonKeyLen
       in Inr (''$argon2id$v=19$m='' @ show_dec argonMemory @ '',t='' @ show_dec argonTime @ '',p=''
             @ show_dec argonThreads @ ''$'' @ raw64 cr salt @ ''$'' @ raw64 cr hash))))))"

text \<open>
  One \<open>%d\<close> of \<open>Sscanf\<close> into an unsigned integer of some width: blanks, where a line feed is an
  error, then digits. \<open>scan_literal\<close> is a literal of the format.
\<close>

definition scan_uint :: "nat \<Rightarrow> string \<Rightarrow> (nat \<times> string) option" where
  "scan_uint width s =
     (let t = dropWhile (\<lambda>c. is_space c \<and> c \<noteq> LF) s; digits = takeWhile is_digit t
      in if digits = [] \<or> 2 ^ width \<le> decimal_value digits then None
         else Some (decimal_value digits, dropWhile is_digit t))"

definition scan_literal :: "string \<Rightarrow> string \<Rightarrow> string option" where
  "scan_literal l s = (if HasPrefix s l then Some (drop (length l) s) else None)"

definition scan_parameters :: "string \<Rightarrow> (nat \<times> nat \<times> nat) option" where
  "scan_parameters s =
     Option.bind (scan_literal ''m='' s) (\<lambda>s1.
     Option.bind (scan_uint 32 s1) (\<lambda>(memory, s2).
     Option.bind (scan_literal '',t='' s2) (\<lambda>s3.
     Option.bind (scan_uint 32 s3) (\<lambda>(iterations, s4).
     Option.bind (scan_literal '',p='' s4) (\<lambda>s5.
     Option.bind (scan_uint 8 s5) (\<lambda>(threads, _).
     Some (memory, iterations, threads)))))))"

text \<open>\<open>slot\<close>: one of the two verification slots came free before the context ended.\<close>

definition VerifyPasswordContext :: "crypto \<Rightarrow> bool \<Rightarrow> string \<Rightarrow> string \<Rightarrow> bool" where
  "VerifyPasswordContext cr slot encoded password =
     (if \<not> ValidString password \<or> length password > maxPasswordBytes then False
      else
        (case Split encoded (CHR ''$'') of
           [p0, p1, p2, p3, p4, p5] \<Rightarrow>
             (if p1 \<noteq> ''argon2id'' \<or> p2 \<noteq> ''v=19'' then False
              else (case scan_parameters p3 of
                 None \<Rightarrow> False
               | Some (memory, iterations, threads) \<Rightarrow>
                   (if memory > 256 * 1024 \<or> iterations > 10 \<or> threads > 16 \<or> memory < 8 * 1024
                      \<or> iterations < 1 \<or> threads < 1 then False
                    else (case unraw64 cr p4 of
                       None \<Rightarrow> False
                     | Some salt \<Rightarrow>
                         (if length salt < 8 \<or> length salt > 64 then False
                          else (case unraw64 cr p5 of
                             None \<Rightarrow> False
                           | Some want \<Rightarrow>
                               (if length want < 16 \<or> length want > 64 then False
                                else if \<not> slot then False
                                else argon2 cr password salt iterations memory threads (length want) = want)))))))
         | _ \<Rightarrow> False))"

definition VerifyPassword :: "crypto \<Rightarrow> string \<Rightarrow> string \<Rightarrow> bool" where
  "VerifyPassword cr encoded password = VerifyPasswordContext cr True encoded password"

section \<open>Tokens\<close>

definition RandomToken :: "crypto \<Rightarrow> int \<Rightarrow> string option" where
  "RandomToken cr bytes =
     (let bytes = (if bytes < 16 then 16 else bytes) in map_option (url64 cr) (random_bytes cr (nat bytes)))"

definition TokenHash :: "crypto \<Rightarrow> string \<Rightarrow> string" where
  "TokenHash cr token = url64 cr (sha256 cr token)"

definition EqualToken :: "crypto \<Rightarrow> string \<Rightarrow> string \<Rightarrow> bool" where
  "EqualToken cr left right \<longleftrightarrow> sha256 cr left = sha256 cr right"

definition NewID :: "crypto \<Rightarrow> string \<Rightarrow> string option" where
  "NewID cr pre = map_option (\<lambda>raw. pre @ ''_'' @ url64 cr raw) (random_bytes cr 16)"

section \<open>A stored password verifies\<close>

lemma takeWhile_stop: "list_all P xs \<Longrightarrow> \<not> P c \<Longrightarrow> takeWhile P (xs @ c # ys) = xs \<and> dropWhile P (xs @ c # ys) = c # ys"
  by (induction xs) auto

lemma Split_append: "c \<notin> set xs \<Longrightarrow> Split (xs @ c # ys) c = xs # Split ys c"
  by (induction xs) auto

lemma Split_single: "c \<notin> set xs \<Longrightarrow> Split xs c = [xs]"
  by (induction xs) auto

lemma digit_chars: "digit_char 2 = CHR ''2''" "digit_char 3 = CHR ''3''" "digit_char 5 = CHR ''5''" "digit_char 6 = CHR ''6''"
  by code_simp+

lemma show_argon: "show_dec argonMemory = ''65536''" "show_dec argonTime = ''3''" "show_dec argonThreads = ''2''"
  by (simp_all add: argonMemory_def argonTime_def argonThreads_def show_dec.simps digit_chars)

lemma scan_argon: "scan_parameters ''m=65536,t=3,p=2'' = Some (65536, 3, 2)"
  by (simp add: scan_parameters_def scan_literal_def scan_uint_def HasPrefix_def is_space_def is_digit_def
      decimal_value_def)

lemma hash_parts:
  assumes "CHR ''$'' \<notin> set a" and "CHR ''$'' \<notin> set b"
  shows "Split (''$argon2id$v=19$m='' @ show_dec argonMemory @ '',t='' @ show_dec argonTime @ '',p=''
             @ show_dec argonThreads @ ''$'' @ a @ ''$'' @ b) (CHR ''$'')
         = [[], ''argon2id'', ''v=19'', ''m=65536,t=3,p=2'', a, b]"
  using assms by (simp add: show_argon Split_append Split_single)

text \<open>What the code relies on: base64 without \<open>$\<close> can be decoded, keys and salts have the requested lengths.\<close>

definition sound_crypto :: "crypto \<Rightarrow> bool" where
  "sound_crypto cr \<longleftrightarrow>
     (\<forall>x. unraw64 cr (raw64 cr x) = Some x \<and> CHR ''$'' \<notin> set (raw64 cr x))
     \<and> (\<forall>p s t m n k. length (argon2 cr p s t m n k) = k)
     \<and> (\<forall>n x. random_bytes cr n = Some x \<longrightarrow> length x = n)"

text \<open>
  C36: a password that HashPassword accepts is stored with a fresh salt, and from then on exactly
  those attempts verify that are valid text of at most 1024 bytes and give the same Argon2 key under
  that salt and the configured costs, provided a slot came free in time. In particular the password
  itself verifies.
\<close>

theorem password_roundtrip:
  assumes "sound_crypto cr" and "HashPassword cr password = Inr stored"
  shows "\<exists>salt. random_bytes cr 16 = Some salt \<and> VerifyPassword cr stored password
    \<and> (\<forall>slot attempt. VerifyPasswordContext cr slot stored attempt
         = (slot \<and> ValidString attempt \<and> length attempt \<le> 1024
            \<and> argon2 cr attempt salt 3 65536 2 32 = argon2 cr password salt 3 65536 2 32))"
proof -
  from assms(2) obtain salt where salt: "random_bytes cr 16 = Some salt"
    and ok: "ValidString password" "length password \<le> maxPasswordBytes"
    and stored: "stored = ''$argon2id$v=19$m='' @ show_dec argonMemory @ '',t='' @ show_dec argonTime @ '',p=''
       @ show_dec argonThreads @ ''$'' @ raw64 cr salt @ ''$''
       @ raw64 cr (argon2 cr password salt argonTime argonMemory argonThreads argonKeyLen)"
    by (auto simp: HashPassword_def Let_def)
  have len: "length salt = 16" and dollar: "CHR ''$'' \<notin> set (raw64 cr x)"
    and decode: "unraw64 cr (raw64 cr x) = Some x" and key: "length (argon2 cr p s t m n k) = k"
    for x p s t m n k
    using assms(1) salt by (auto simp: sound_crypto_def)
  have "VerifyPasswordContext cr slot stored attempt
      = (slot \<and> ValidString attempt \<and> length attempt \<le> 1024
         \<and> argon2 cr attempt salt 3 65536 2 32 = argon2 cr password salt 3 65536 2 32)" for slot attempt
    unfolding VerifyPasswordContext_def stored hash_parts [OF dollar dollar]
    by (simp add: scan_argon decode key len argonTime_def argonMemory_def argonThreads_def argonKeyLen_def
        maxPasswordBytes_def not_less) auto
  then show ?thesis using salt ok by (simp add: VerifyPassword_def maxPasswordBytes_def)
qed

text \<open>Hexadecimal digits from \<open>a\<close> to \<open>p\<close> as an instance of the encoding.\<close>

fun decode_pairs :: "string \<Rightarrow> string option" where
  "decode_pairs [] = Some []"
| "decode_pairs (a # b # s) = map_option ((#) (char_of (16 * (code_of a - 97) + (code_of b - 97)))) (decode_pairs s)"
| "decode_pairs _ = None"

definition encode_pairs :: "string \<Rightarrow> string" where
  "encode_pairs s = concat (map (\<lambda>c. [char_of (97 + code_of c div 16), char_of (97 + code_of c mod 16)]) s)"

definition ex_crypto :: crypto where
  "ex_crypto = \<lparr>argon2 = (\<lambda>p s t m n k. take k (p @ s @ replicate k (CHR ''x''))), sha256 = (\<lambda>x. x),
     raw64 = encode_pairs, unraw64 = decode_pairs, url64 = encode_pairs,
     random_bytes = (\<lambda>n. Some (replicate n (CHR ''r'')))\<rparr>"

lemma encode_pairs_char: "code_of c div 16 < 16" "code_of c mod 16 < 16" for c :: char
  using less_mult_imp_div_less [of "code_of c" 16 16] code_of_less [of c] by simp_all

lemma decode_encode: "decode_pairs (encode_pairs s) = Some s"
proof (induction s)
  case Nil
  show ?case by (simp add: encode_pairs_def)
next
  case (Cons c s)
  have "code_of (char_of (97 + code_of c div 16) :: char) = 97 + code_of c div 16"
    "code_of (char_of (97 + code_of c mod 16) :: char) = 97 + code_of c mod 16"
    using encode_pairs_char [of c] by (simp_all add: of_char_of)
  with Cons show ?case by (simp add: encode_pairs_def)
qed

lemma encode_no_dollar: "CHR ''$'' \<notin> set (encode_pairs s)"
proof -
  have "char_of (97 + n) \<noteq> CHR ''$''" if "n < 16" for n :: nat
  proof
    assume "char_of (97 + n) = CHR ''$''"
    then have "code_of (char_of (97 + n) :: char) = code_of (CHR ''$'')" by simp
    with that show False by (simp add: of_char_of)
  qed
  then have "char_of (97 + code_of c div 16) \<noteq> CHR ''$''" "char_of (97 + code_of c mod 16) \<noteq> CHR ''$''" for c :: char
    using encode_pairs_char [of c] by blast+
  then show ?thesis by (auto simp: encode_pairs_def dest: sym)
qed

lemma ex_crypto_sound: "sound_crypto ex_crypto"
  by (auto simp: sound_crypto_def ex_crypto_def decode_encode encode_no_dollar)

theorem password_roundtrip_witness:
  "\<exists>stored. HashPassword ex_crypto ''correct horse'' = Inr stored
    \<and> VerifyPassword ex_crypto stored ''correct horse'' \<and> \<not> VerifyPassword ex_crypto stored ''wrong horses''"
proof -
  have "ValidString ''correct horse''" "RuneCount ''correct horse'' = 13" by code_simp+
  then have "\<not> isl (HashPassword ex_crypto ''correct horse'')"
    by (simp add: HashPassword_def maxPasswordBytes_def ex_crypto_def Let_def)
  then obtain stored where stored: "HashPassword ex_crypto ''correct horse'' = Inr stored"
    using not_isl_Inr by blast
  have "\<not> VerifyPassword ex_crypto stored ''wrong horses''"
    using password_roundtrip [OF ex_crypto_sound stored] by (auto simp: VerifyPassword_def ex_crypto_def)
  with password_roundtrip [OF ex_crypto_sound stored] stored show ?thesis by blast
qed

end
