(* ===== verification/MailCore.thy ===== *)
theory MailCore
  imports SmtpSession Security
begin

text \<open>
  \<open>internal/mailcore/message.go\<close>: from a raw message to the row and attachments that the store
  keeps, and from a compose request to a raw message. The MIME library, the sanitizer, hashes,
  encodings and random values are the fields of \<open>mime_lib\<close>.
\<close>

section \<open>Parameters\<close>

text \<open>One call of the function given to \<open>Walk\<close>: the part at some depth, or no part.\<close>

record mime_part =
  mp_missing :: bool
  mp_depth :: nat
  mp_type :: string
  mp_name :: string
  mp_disposition :: string
  mp_filename :: string
  mp_content_id :: string
  mp_body :: reader

record mime_entity =
  me_subject :: string
  me_message_id :: string
  me_addresses :: "string \<Rightarrow> string option list option"
  me_date :: "time option"
  me_references :: string
  me_in_reply_to :: string
  me_parts :: "mime_part list"

record mime_lib =
  ml_address :: "string \<Rightarrow> (string \<times> string) option"
  ml_read :: "string \<Rightarrow> mime_entity option"
  ml_crypto :: crypto
  ml_hex :: "string \<Rightarrow> string"
  ml_attachment_id :: "nat \<Rightarrow> string"
  ml_sanitize :: "string \<Rightarrow> string"
  ml_unescape :: "string \<Rightarrow> string"
  ml_extension :: "string \<Rightarrow> string option"
  ml_qencode :: "string \<Rightarrow> string"
  ml_date :: "time \<Rightarrow> string"
  ml_base64_decode :: "string \<Rightarrow> string option"
  ml_base64_encode :: "string \<Rightarrow> string"
  ml_boundary :: "nat \<Rightarrow> string"
  ml_header_order :: "(string \<times> string) list \<Rightarrow> (string \<times> string) list"

definition maxDecodedPartBytes :: int where "maxDecodedPartBytes = 20 * 1024 * 1024"
definition maxComposeAttachmentBytes :: nat where "maxComposeAttachmentBytes = 18 * 1024 * 1024"
definition maxMIMEParts :: nat where "maxMIMEParts = 1000"
definition maxMIMEDepth :: nat where "maxMIMEDepth = 30"
definition maxAttachments :: nat where "maxAttachments = 100"

text \<open>An error with its text, or a panic of the running goroutine.\<close>

datatype mail_error = MailError string | Panic

section \<open>Text\<close>

text \<open>The class \<open>\s\<close> of regular expressions, and \<open>\s+\<close> replaced by one space.\<close>

definition re_space :: "char \<Rightarrow> bool" where
  "re_space c \<longleftrightarrow> c \<in> {CHR 0x09, CHR 0x0A, CHR 0x0C, CHR 0x0D, CHR '' ''}"

fun collapse :: "bool \<Rightarrow> string \<Rightarrow> string" where
  "collapse inside [] = []"
| "collapse inside (c # s) =
     (if re_space c then (if inside then collapse True s else CHR '' '' # collapse True s)
      else c # collapse False s)"

text \<open>\<open><[^>]+>\<close> replaced by one space.\<close>

function strip_tags :: "string \<Rightarrow> string" where
  "strip_tags [] = []"
| "strip_tags (c # s) =
     (let body = takeWhile (\<lambda>x. x \<noteq> CHR ''>'') s; rest = dropWhile (\<lambda>x. x \<noteq> CHR ''>'') s
      in if c = CHR ''<'' \<and> body \<noteq> [] \<and> rest \<noteq> [] then CHR '' '' # strip_tags (tl rest)
         else c # strip_tags s)"
  by pat_completeness auto

termination
proof (relation "measure length")
  fix c :: char and s body rest :: string
  assume "rest = dropWhile (\<lambda>x. x \<noteq> CHR ''>'') s"
  then have "length (tl rest) \<le> length s" using length_dropWhile_le [of "\<lambda>x. x \<noteq> CHR ''>''" s] by simp
  then show "(tl rest, c # s) \<in> measure length" by simp
qed simp_all

definition htmlToText :: "mime_lib \<Rightarrow> string \<Rightarrow> string" where
  "htmlToText lib v = TrimSpace (collapse False (ml_unescape lib (strip_tags v)))"

text \<open>\<open>string(runes[:180])\<close>: a byte that is not a valid character becomes the replacement character.\<close>

definition rune_text :: "string \<Rightarrow> string" where
  "rune_text r = (if valid_rune r then r else [CHR 0xEF, CHR 0xBF, CHR 0xBD])"

definition snippet :: "string \<Rightarrow> string" where
  "snippet value0 =
     (let v = collapse False (TrimSpace value0); runes = Runes v
      in if length runes \<le> 180 then v
         else concat (map rune_text (take 180 runes)) @ [CHR 0xE2, CHR 0x80, CHR 0xA6])"

definition cleanHeader :: "string \<Rightarrow> string" where
  "cleanHeader v = TrimSpace (ReplaceChar (ReplaceChar v CR '' '') LF '' '')"

definition cleanMessageID :: "string \<Rightarrow> string" where
  "cleanMessageID value0 =
     (let v = cleanHeader value0
      in if \<not> HasPrefix v ''<'' \<or> \<not> HasSuffix v ''>'' \<or> ContainsChar v (CHR '' '') then [] else v)"

text \<open>\<open>filepath.Base\<close> on a slash-separated path.\<close>

definition Base :: "string \<Rightarrow> string" where
  "Base path =
     (if path = [] then ''.''
      else (let stripped = TrimRightBy (\<lambda>c. c = CHR ''/'') path
            in if stripped = [] then ''/'' else after_last stripped (CHR ''/'')))"

definition safeFilename :: "string \<Rightarrow> string" where
  "safeFilename value0 =
     (let v = TrimSpace value0
      in if v = [] then []
         else (let base = Base (ReplaceChar v (CHR 0x5C) ''/'')
               in if base = ''.'' then []
                  else TrimSpace (filter (\<lambda>c. \<not> (code_of c < 32 \<or> code_of c = 127)) base)))"

definition extensionForType :: "mime_lib \<Rightarrow> string \<Rightarrow> string" where
  "extensionForType lib t = (case ml_extension lib t of Some x \<Rightarrow> x | None \<Rightarrow> ''.bin'')"

definition escapeHeaderParam :: "string \<Rightarrow> string" where
  "escapeHeaderParam v = ReplaceChar (ReplaceChar v (CHR 0x5C) ''_'') (CHR 0x22) ''_''"

text \<open>The line ends of \<open>normalizeCRLF\<close>: CR LF to LF, a single CR to LF, and LF to CR LF.\<close>

fun crlf_to_lf :: "string \<Rightarrow> string" where
  "crlf_to_lf (a # b # s) = (if a = CR \<and> b = LF then LF # crlf_to_lf s else a # crlf_to_lf (b # s))"
| "crlf_to_lf s = s"

definition normalizeCRLF :: "string \<Rightarrow> string" where
  "normalizeCRLF v = ReplaceChar (ReplaceChar (crlf_to_lf v) CR [LF]) LF [CR, LF]"

section \<open>The thread key\<close>

text \<open>\<open>^(re|fw|fwd)\s*:\s*\<close>: what follows such a prefix.\<close>

definition after_colon :: "string \<Rightarrow> string option" where
  "after_colon s =
     (case dropWhile re_space s of
        c # t \<Rightarrow> if c = CHR '':'' then Some (dropWhile re_space t) else None
      | [] \<Rightarrow> None)"

definition strip_reply :: "string \<Rightarrow> string option" where
  "strip_reply s =
     (if HasPrefix s ''re'' \<and> after_colon (drop 2 s) \<noteq> None then after_colon (drop 2 s)
      else if HasPrefix s ''fw'' \<and> after_colon (drop 2 s) \<noteq> None then after_colon (drop 2 s)
      else if HasPrefix s ''fwd'' then after_colon (drop 3 s) else None)"

lemma after_colon_length: "after_colon s = Some t \<Longrightarrow> length t < length s"
  unfolding after_colon_def
  using length_dropWhile_le [of re_space s] length_dropWhile_le [of re_space "tl (dropWhile re_space s)"]
  by (auto split: list.splits if_splits)

lemma strip_reply_length: "strip_reply s = Some t \<Longrightarrow> length t < length s"
  by (auto simp: strip_reply_def split: if_splits dest!: after_colon_length)

function strip_replies :: "string \<Rightarrow> string" where
  "strip_replies base = (case strip_reply base of None \<Rightarrow> base | Some t \<Rightarrow> strip_replies t)"
  by pat_completeness auto

termination
  by (relation "measure length") (auto dest: strip_reply_length)

declare strip_replies.simps [simp del]

text \<open>\<open>hex.EncodeToString(sum[:16])\<close> is the first half of the hexadecimal hash. \<open>Fields(s)[0]\<close> panics on blanks.\<close>

definition threadKey :: "mime_lib \<Rightarrow> string \<Rightarrow> string \<Rightarrow> string \<Rightarrow> string option" where
  "threadKey lib subject references inReplyTo =
     (let base = strip_replies (ToLower (TrimSpace subject));
          hash = (\<lambda>s. take 32 (ml_hex lib (sha256 (ml_crypto lib) s)))
      in if references \<noteq> []
         then (case Fields references of [] \<Rightarrow> None | r # _ \<Rightarrow> Some (hash (base @ ''|'' @ r)))
         else if inReplyTo \<noteq> []
         then (case Fields inReplyTo of [] \<Rightarrow> None | r # _ \<Rightarrow> Some (hash (base @ ''|'' @ r)))
         else Some (hash base))"

section \<open>Addresses\<close>

definition normalizeAddress :: "mime_lib \<Rightarrow> string \<Rightarrow> string" where
  "normalizeAddress lib v =
     (case ml_address lib v of
        Some (address, _) \<Rightarrow> ToLower address
      | None \<Rightarrow> ToLower (TrimChars (TrimSpace v) ''<>''))"

fun distinct_addresses :: "(string \<Rightarrow> string) \<Rightarrow> string list \<Rightarrow> string list \<Rightarrow> string list" where
  "distinct_addresses norm result [] = result"
| "distinct_addresses norm result (v # vs) =
     (if norm v \<noteq> [] \<and> norm v \<notin> set result then distinct_addresses norm (result @ [norm v]) vs
      else distinct_addresses norm result vs)"

definition normalizeAddresses :: "mime_lib \<Rightarrow> string list \<Rightarrow> string list" where
  "normalizeAddresses lib values0 = sort (distinct_addresses (normalizeAddress lib) [] values0)"

definition addressList :: "mime_entity \<Rightarrow> string \<Rightarrow> string list" where
  "addressList entity key =
     (case me_addresses entity key of None \<Rightarrow> [] | Some addresses \<Rightarrow> List.map_filter (\<lambda>a. a) addresses)"

definition firstAddress :: "mime_entity \<Rightarrow> string \<Rightarrow> string" where
  "firstAddress entity key = (case addressList entity key of [] \<Rightarrow> [] | a # _ \<Rightarrow> a)"

definition validateRecipients :: "mime_lib \<Rightarrow> string list \<Rightarrow> mail_error option" where
  "validateRecipients lib values0 =
     (if values0 = [] then Some (MailError ''at least one recipient is required'')
      else if length values0 > 100 then Some (MailError ''too many recipients'')
      else if list_ex (\<lambda>v. ml_address lib v = None) values0 then Some (MailError ''invalid recipient'')
      else None)"

definition formatAddressHeader :: "mime_lib \<Rightarrow> string list \<Rightarrow> string" where
  "formatAddressHeader lib values0 =
     Join (List.map_filter (\<lambda>v. map_option snd (ml_address lib v)) values0) '', ''"

section \<open>Sanitizing\<close>

text \<open>
  \<open>(?i)<img[^>]+src=["']https?://[^>]*>\<close> is removed from what the sanitizer leaves: no part of the
  pattern but its end is a \<open>>\<close>, so a match ends at the first one.
\<close>

definition remote_at :: "string \<Rightarrow> bool" where
  "remote_at s =
     (let l = ToLower s; rest = drop 5 l
      in HasPrefix l ''src='' \<and> length l > 5 \<and> l ! 4 \<in> {CHR 0x22, CHR 0x27}
         \<and> (HasPrefix rest ''http://'' \<or> HasPrefix rest ''https://''))"

definition remote_src :: "string \<Rightarrow> bool" where
  "remote_src body = list_ex (\<lambda>k. remote_at (drop k body)) [1 ..< length body]"

function strip_images :: "string \<Rightarrow> string" where
  "strip_images [] = []"
| "strip_images (c # s) =
     (let body = takeWhile (\<lambda>x. x \<noteq> CHR ''>'') (drop 3 s); rest = dropWhile (\<lambda>x. x \<noteq> CHR ''>'') (drop 3 s)
      in if HasPrefix (ToLower (c # s)) ''<img'' \<and> rest \<noteq> [] \<and> remote_src body then strip_images (tl rest)
         else c # strip_images s)"
  by pat_completeness auto

termination
proof (relation "measure length")
  fix c :: char and s body rest :: string
  assume "rest = dropWhile (\<lambda>x. x \<noteq> CHR ''>'') (drop 3 s)"
  then have "length (tl rest) \<le> length s" using length_dropWhile_le [of "\<lambda>x. x \<noteq> CHR ''>''" "drop 3 s"] by simp
  then show "(tl rest, c # s) \<in> measure length" by simp
qed simp_all

definition sanitizeHTML :: "mime_lib \<Rightarrow> string \<Rightarrow> string" where
  "sanitizeHTML lib v = strip_images (ml_sanitize lib v)"

section \<open>Parsing\<close>

record mail_envelope =
  ve_from :: string
  ve_to :: "string list"
  ve_direction :: string

definition readLimited :: "reader \<Rightarrow> int \<Rightarrow> mail_error + string" where
  "readLimited reader limit =
     (let data = take (nat (limit + 1)) (fst reader)
      in if snd reader \<and> length (fst reader) < nat (limit + 1) then Inl (MailError ''read'')
         else if int (length data) > limit then Inl (MailError ''message part exceeds parsing limit'')
         else Inr data)"

record walk_state =
  wk_count :: nat
  wk_text :: "string list"
  wk_html :: "string list"
  wk_attachments :: "attachment list"

text \<open>The file name of a part, from the disposition or else from the content type.\<close>

definition part_filename :: "mime_part \<Rightarrow> string" where
  "part_filename part = safeFilename (if mp_filename part = [] then mp_name part else mp_filename part)"

definition part_attachment :: "mime_lib \<Rightarrow> mime_part \<Rightarrow> string \<Rightarrow> nat \<Rightarrow> attachment" where
  "part_attachment lib part body n =
     \<lparr>at_id = ml_attachment_id lib n, at_message_id = [],
      at_filename = (if part_filename part = []
        then ''part-'' @ show_dec (n + 1) @ extensionForType lib (mp_type part) else part_filename part),
      at_content_type = mp_type part, at_content_id = TrimChars (mp_content_id part) ''<>'',
      at_disposition = mp_disposition part, at_size = int (length body),
      at_sha256 = ml_hex lib (sha256 (ml_crypto lib) body), at_content = body\<rparr>"

definition walk_part :: "mime_lib \<Rightarrow> mime_part \<Rightarrow> walk_state \<Rightarrow> mail_error + walk_state" where
  "walk_part lib part st0 =
     guard_err (mp_missing part) (MailError ''part'')
     (let st = st0\<lparr>wk_count := wk_count st0 + 1\<rparr>
      in guard_err (wk_count st > maxMIMEParts) (MailError ''message has too many MIME parts'')
        (guard_err (mp_depth part > maxMIMEDepth) (MailError ''message MIME nesting is too deep'')
        (if HasPrefix (mp_type part) ''multipart/'' then Inr st
         else bind_res (readLimited (mp_body part) maxDecodedPartBytes) (\<lambda>body.
           (let isAttachment = (part_filename part \<noteq> [] \<or> EqualFold (mp_disposition part) ''attachment''
                  \<or> EqualFold (mp_disposition part) ''inline'')
            in if \<not> isAttachment \<and> EqualFold (mp_type part) ''text/plain''
               then Inr (st\<lparr>wk_text := wk_text st @ [TrimSpace body]\<rparr>)
               else if \<not> isAttachment \<and> EqualFold (mp_type part) ''text/html''
               then Inr (st\<lparr>wk_html := wk_html st @ [sanitizeHTML lib body]\<rparr>)
               else guard_err (length (wk_attachments st) \<ge> maxAttachments)
                      (MailError ''message has too many attachments'')
                      (Inr (st\<lparr>wk_attachments := wk_attachments st
                         @ [part_attachment lib part body (length (wk_attachments st))]\<rparr>)))))))"

definition Parse :: "mime_lib \<Rightarrow> time \<Rightarrow> string \<Rightarrow> mail_envelope \<Rightarrow> mail_error + (message \<times> attachment list)" where
  "Parse lib now raw envelope =
     guard_err (raw = []) (MailError ''empty message'')
     (bind_res (of_option (MailError ''parse message headers'') (ml_read lib raw)) (\<lambda>entity.
      (let subject = cleanHeader (me_subject entity)
       in bind_res (of_option Panic (threadKey lib subject (me_references entity) (me_in_reply_to entity))) (\<lambda>key.
          bind_res (fold_res (walk_part lib) (me_parts entity)
            \<lparr>wk_count = 0, wk_text = [], wk_html = [], wk_attachments = []\<rparr>) (\<lambda>st.
          (let text = TrimSpace (Join (wk_text st) [LF, LF]);
               html = TrimSpace (Join (wk_html st) [LF]);
               text_body = (if text = [] \<and> html \<noteq> [] then htmlToText lib html else text)
           in Inr (\<lparr>m_id = [],
                m_rfc_id = (if me_message_id entity = []
                  then take 32 (TokenHash (ml_crypto lib) raw) @ ''@brclio.local'' else me_message_id entity),
                m_thread_key = key, m_envelope_from = normalizeAddress lib (ve_from envelope),
                m_envelope_to = normalizeAddresses lib (ve_to envelope),
                m_from = firstAddress entity ''From'', m_to = addressList entity ''To'',
                m_cc = addressList entity ''Cc'', m_bcc = addressList entity ''Bcc'',
                m_reply_to = firstAddress entity ''Reply-To'', m_subject = subject, m_text = text_body,
                m_html = html, m_snippet = snippet text_body, m_raw = raw, m_size = int (length raw),
                m_attachment_count = int (length (wk_attachments st)), m_direction = ve_direction envelope,
                m_status = ''received'', m_sent = me_date entity, m_received = now, m_created = zero_time\<rparr>,
              wk_attachments st)))))))"

section \<open>Composing\<close>

record compose_attachment =
  ca_filename :: string
  ca_content_type :: string
  ca_content_base64 :: string

record compose_request =
  cq_draft_id :: string
  cq_from :: string
  cq_to :: "string list"
  cq_cc :: "string list"
  cq_bcc :: "string list"
  cq_reply_to :: string
  cq_subject :: string
  cq_text :: string
  cq_html :: string
  cq_in_reply_to :: string
  cq_references :: "string list"
  cq_attachments :: "compose_attachment list"
  cq_allow_none :: bool

type_synonym header_fields = "(string \<times> string) list"

abbreviation CRLF :: string where "CRLF \<equiv> [CR, LF]"

definition quoted :: "string \<Rightarrow> string" where
  "quoted s = [CHR 0x22] @ s @ [CHR 0x22]"

definition write_fields :: "header_fields \<Rightarrow> string" where
  "write_fields hs = concat (map (\<lambda>(k, v). k @ '': '' @ v @ CRLF) hs)"

text \<open>
  \<open>multipart.Writer\<close>: every part after its delimiter line and its fields in the order of their names,
  the closing delimiter at the end.
\<close>

definition write_part :: "string \<Rightarrow> bool \<Rightarrow> header_fields \<times> string \<Rightarrow> string" where
  "write_part boundary first part =
     (if first then [] else CRLF) @ ''--'' @ boundary @ CRLF
       @ write_fields (sort_key fst (fst part)) @ CRLF @ snd part"

fun write_multipart :: "string \<Rightarrow> (header_fields \<times> string) list \<Rightarrow> string" where
  "write_multipart boundary [] = CRLF @ ''--'' @ boundary @ ''--'' @ CRLF"
| "write_multipart boundary (p # ps) =
     write_part boundary True p @ concat (map (write_part boundary False) ps)
       @ CRLF @ ''--'' @ boundary @ ''--'' @ CRLF"

definition text_part :: "string \<Rightarrow> string \<Rightarrow> header_fields \<times> string" where
  "text_part content_type body =
     ([(''Content-Type'', content_type), (''Content-Transfer-Encoding'', ''8bit'')],
      ReplaceChar (crlf_to_lf body) LF CRLF)"

function base64_lines :: "string \<Rightarrow> string" where
  "base64_lines encoded =
     (if length encoded > 76 then take 76 encoded @ CRLF @ base64_lines (drop 76 encoded) else encoded @ CRLF)"
  by pat_completeness auto

termination
  by (relation "measure length") auto

declare base64_lines.simps [simp del]

definition attachment_part :: "mime_lib \<Rightarrow> compose_attachment \<Rightarrow> mail_error + (header_fields \<times> string)" where
  "attachment_part lib a =
     bind_res (of_option (MailError ''decode attachment'') (ml_base64_decode lib (ca_content_base64 a))) (\<lambda>body.
     guard_err (length body > maxComposeAttachmentBytes) (MailError ''attachment exceeds 18 MiB'')
     (let name = safeFilename (ca_filename a);
          content_type = (if ca_content_type a = [] then ''application/octet-stream'' else ca_content_type a)
      in guard_err (name = []) (MailError ''attachment filename is required'')
         (Inr ([(''Content-Type'', content_type @ ''; name='' @ quoted (escapeHeaderParam name)),
                (''Content-Disposition'', ''attachment; filename='' @ quoted (escapeHeaderParam name)),
                (''Content-Transfer-Encoding'', ''base64'')],
               base64_lines (ml_base64_encode lib body)))))"

definition body_part :: "mime_lib \<Rightarrow> compose_request \<Rightarrow> header_fields \<times> string" where
  "body_part lib req =
     (if cq_html req \<noteq> []
      then ([(''Content-Type'', ''multipart/alternative; boundary='' @ quoted (ml_boundary lib 1))],
            write_multipart (ml_boundary lib 1)
              [text_part ''text/plain; charset=utf-8'' (cq_text req),
               text_part ''text/html; charset=utf-8'' (sanitizeHTML lib (cq_html req))])
      else text_part ''text/plain; charset=utf-8'' (cq_text req))"

text \<open>The header map with its canonical keys; \<open>ml_header_order\<close> is the order of Go's map iteration.\<close>

definition compose_fields :: "mime_lib \<Rightarrow> compose_request \<Rightarrow> string \<Rightarrow> string \<Rightarrow> time \<Rightarrow> header_fields" where
  "compose_fields lib req sender message_id now =
     (let refs = filter (\<lambda>r. r \<noteq> []) (map cleanMessageID (cq_references req))
      in [(''From'', sender)]
       @ (if cq_to req \<noteq> [] then [(''To'', formatAddressHeader lib (cq_to req))] else [])
       @ (if cq_cc req \<noteq> [] then [(''Cc'', formatAddressHeader lib (cq_cc req))] else [])
       @ (if cq_reply_to req \<noteq> [] then [(''Reply-To'', cq_reply_to req)] else [])
       @ [(''Subject'', ml_qencode lib (cq_subject req)), (''Date'', ml_date lib now),
          (''Message-Id'', message_id), (''Mime-Version'', ''1.0''), (''User-Agent'', ''Brclio Mail/0.1'')]
       @ (if cq_in_reply_to req \<noteq> [] then [(''In-Reply-To'', cleanMessageID (cq_in_reply_to req))] else [])
       @ (if refs \<noteq> [] then [(''References'', Join refs '' '')] else [])
       @ [(''Content-Type'', ''multipart/mixed; boundary='' @ quoted (ml_boundary lib 0))])"

fun map_res :: "('a \<Rightarrow> 'e + 'b) \<Rightarrow> 'a list \<Rightarrow> 'e + 'b list" where
  "map_res f [] = Inr []"
| "map_res f (x # xs) = bind_res (f x) (\<lambda>y. bind_res (map_res f xs) (\<lambda>ys. Inr (y # ys)))"

definition all_recipients :: "compose_request \<Rightarrow> string list" where
  "all_recipients req = cq_to req @ cq_cc req @ cq_bcc req"

definition Compose :: "mime_lib \<Rightarrow> compose_request \<Rightarrow> string \<Rightarrow> time \<Rightarrow> mail_error + string" where
  "Compose lib req hostname0 now =
     (case (if cq_allow_none req \<and> all_recipients req = [] then None else validateRecipients lib (all_recipients req)) of
        Some e \<Rightarrow> Inl e
      | None \<Rightarrow>
          bind_res (of_option (MailError ''invalid from address'') (ml_address lib (cq_from req))) (\<lambda>sender.
          guard_err (ContainsAny (cq_subject req) CRLF) (MailError ''invalid subject'')
          (guard_err (length (cq_subject req) > 998) (MailError ''subject is too long'')
          (let hostname = (if hostname0 = [] then ''localhost'' else hostname0)
           in bind_res (of_option (MailError ''random'') (RandomToken (ml_crypto lib) 18)) (\<lambda>token.
              guard_err (cq_reply_to req \<noteq> [] \<and> ml_address lib (cq_reply_to req) = None)
                (MailError ''invalid reply-to'')
              (guard_err (length (cq_attachments req) > maxAttachments) (MailError ''message has too many attachments'')
              (bind_res (map_res (attachment_part lib) (cq_attachments req)) (\<lambda>parts.
               Inr (normalizeCRLF
                 (write_fields (ml_header_order lib (compose_fields lib req (snd sender)
                    (''<'' @ token @ ''@'' @ hostname @ ''>'') now))
                  @ CRLF @ write_multipart (ml_boundary lib 0) (body_part lib req # parts)))))))))))"

end
