(* ===== verification/MailProperties.thy ===== *)
theory MailProperties
  imports MailCore "HOL-Library.Multiset" "HOL-Library.Sublist"
begin

text \<open>
  What \<open>mailcore\<close> guarantees: which messages \<open>Parse\<close> accepts and what it takes from their parts, the
  header block that \<open>Compose\<close> writes, and the thread key of replies.
\<close>

section \<open>Line ends\<close>

definition one_line :: "string \<Rightarrow> bool" where
  "one_line s \<longleftrightarrow> CR \<notin> set s \<and> LF \<notin> set s"

lemma one_line_simps [simp]:
  "one_line []"
  "one_line (c # s) \<longleftrightarrow> c \<noteq> CR \<and> c \<noteq> LF \<and> one_line s"
  "one_line (s @ t) \<longleftrightarrow> one_line s \<and> one_line t"
  by (auto simp: one_line_def)

lemma crlf_to_lf_Cons: "a \<noteq> CR \<Longrightarrow> crlf_to_lf (a # s) = a # crlf_to_lf s"
  by (cases s) auto

lemma crlf_to_lf_line: "one_line x \<Longrightarrow> crlf_to_lf (x @ CRLF @ y) = x @ LF # crlf_to_lf y"
  by (induction x) (auto simp: crlf_to_lf_Cons)

lemma ReplaceChar_append: "ReplaceChar (s @ t) c new = ReplaceChar s c new @ ReplaceChar t c new"
  by (simp add: ReplaceChar_def)

lemma ReplaceChar_Cons: "ReplaceChar (a # s) c new = (if a = c then new else [a]) @ ReplaceChar s c new"
  by (simp add: ReplaceChar_def)

lemma ReplaceChar_absent: "c \<notin> set s \<Longrightarrow> ReplaceChar s c new = s"
  by (induction s) (auto simp: ReplaceChar_def)

lemma normalizeCRLF_line: "one_line x \<Longrightarrow> normalizeCRLF (x @ CRLF @ y) = x @ CRLF @ normalizeCRLF y"
  by (simp add: normalizeCRLF_def crlf_to_lf_line [simplified] ReplaceChar_append ReplaceChar_Cons
      ReplaceChar_absent one_line_def)

lemma normalizeCRLF_fields:
  "list_all (\<lambda>(k, v). one_line k \<and> one_line v) hs \<Longrightarrow>
   normalizeCRLF (write_fields hs @ CRLF @ body) = write_fields hs @ CRLF @ normalizeCRLF body"
proof (induction hs)
  case Nil
  show ?case using normalizeCRLF_line [of "[]" body] by (simp add: write_fields_def)
next
  case (Cons h hs)
  obtain k v where h: "h = (k, v)" by (cases h)
  have "normalizeCRLF ((k @ '': '' @ v) @ CRLF @ (write_fields hs @ CRLF @ body))
      = (k @ '': '' @ v) @ CRLF @ normalizeCRLF (write_fields hs @ CRLF @ body)"
    by (rule normalizeCRLF_line) (use Cons.prems h in simp)
  then show ?case using Cons h by (simp add: write_fields_def)
qed

section \<open>The header block of a composed message\<close>

text \<open>What \<open>Compose\<close> relies on: renderings and random texts without line ends, and the map's own entries.\<close>

definition line_lib :: "mime_lib \<Rightarrow> bool" where
  "line_lib lib \<longleftrightarrow>
     (\<forall>v a r. ml_address lib v = Some (a, r) \<longrightarrow> one_line r)
     \<and> (\<forall>s. one_line s \<longrightarrow> one_line (ml_qencode lib s))
     \<and> (\<forall>t. one_line (ml_date lib t)) \<and> (\<forall>n. one_line (ml_boundary lib n))
     \<and> (\<forall>x. one_line (url64 (ml_crypto lib) x))
     \<and> (\<forall>hs. mset (ml_header_order lib hs) = mset hs)"

lemma one_line_Join: "list_all one_line xs \<Longrightarrow> one_line sep \<Longrightarrow> one_line (Join xs sep)"
  by (induction xs sep rule: Join.induct) auto

lemma one_line_addresses: "line_lib lib \<Longrightarrow> one_line (formatAddressHeader lib vs)"
  unfolding formatAddressHeader_def
  by (rule one_line_Join) (auto simp: line_lib_def list_all_iff List.map_filter_def)

lemma set_TrimSpace: "set (TrimSpace s) \<subseteq> set s"
  unfolding TrimSpace_def TrimBy_def TrimLeftBy_def TrimRightBy_def
  using set_dropWhileD [of _ is_space "rev (dropWhile is_space s)"] set_dropWhileD [of _ is_space s] by auto

lemma one_line_cleanHeader: "one_line (cleanHeader v)"
proof -
  have "CR \<notin> set (ReplaceChar (ReplaceChar v CR '' '') LF '' '')"
    "LF \<notin> set (ReplaceChar (ReplaceChar v CR '' '') LF '' '')"
    by (auto simp: ReplaceChar_def split: if_splits)
  then show ?thesis unfolding one_line_def cleanHeader_def using set_TrimSpace by blast
qed

lemma one_line_cleanMessageID: "one_line (cleanMessageID v)"
  by (simp add: cleanMessageID_def Let_def one_line_cleanHeader)

lemma compose_fields_lines:
  assumes "line_lib lib" and "one_line (cq_reply_to req)" and "one_line sender" and "one_line mid"
    and "one_line (cq_subject req)"
  shows "list_all (\<lambda>(k, v). one_line k \<and> one_line v) (compose_fields lib req sender mid now)"
proof -
  have refs: "one_line (Join (filter (\<lambda>r. r \<noteq> []) (map cleanMessageID rs)) '' '')" for rs
    by (rule one_line_Join) (auto simp: list_all_iff one_line_cleanMessageID)
  show ?thesis
    using assms one_line_addresses [OF assms(1)] refs
    by (simp add: compose_fields_def Let_def line_lib_def one_line_cleanMessageID quoted_def)
qed

definition compose_names :: "string list" where
  "compose_names = [''From'', ''To'', ''Cc'', ''Reply-To'', ''Subject'', ''Date'', ''Message-Id'', ''Mime-Version'',
     ''User-Agent'', ''In-Reply-To'', ''References'', ''Content-Type'']"

lemma compose_fields_names: "subseq (map fst (compose_fields lib req sender mid now)) compose_names"
  by (simp add: compose_fields_def Let_def compose_names_def)


definition ex_mime_lib :: mime_lib where
  "ex_mime_lib = \<lparr>ml_address = (\<lambda>s. if ContainsChar s (CHR ''@'') \<and> list_all (\<lambda>c. c \<noteq> CR \<and> c \<noteq> LF) s
       then Some (s, s) else None), ml_read = (\<lambda>_. None),
     ml_crypto = ex_crypto, ml_hex = encode_pairs, ml_attachment_id = (\<lambda>n. ''att'' @ show_dec n),
     ml_sanitize = (\<lambda>s. s), ml_unescape = (\<lambda>s. s), ml_extension = (\<lambda>_. None), ml_qencode = (\<lambda>s. s),
     ml_date = (\<lambda>_. ''now''), ml_base64_decode = Some, ml_base64_encode = (\<lambda>s. s),
     ml_boundary = (\<lambda>n. if n = 0 then ''mixed'' else ''alternative''), ml_header_order = rev\<rparr>"

definition ex_request :: compose_request where
  "ex_request = \<lparr>cq_draft_id = [], cq_from = ''a@x'', cq_to = [''b@y''], cq_cc = [], cq_bcc = [''c@z''],
     cq_reply_to = ''a@x'', cq_subject = ''hello'', cq_text = ''text'', cq_html = [], cq_in_reply_to = [],
     cq_references = [], cq_attachments = [], cq_allow_none = False\<rparr>"

lemma ex_mime_lib_lines: "line_lib ex_mime_lib"
proof -
  have "char_of (97 + n) \<noteq> c" if "n < 16" "code_of c < 97" for n :: nat and c
  proof
    assume "char_of (97 + n) = c"
    then have "code_of (char_of (97 + n) :: char) = code_of c" by simp
    with that show False by (simp add: of_char_of)
  qed
  then have "char_of (97 + n) \<notin> {CR, LF}" if "n < 16" for n :: nat
    using that by simp
  then have "char_of (97 + code_of c div 16) \<notin> {CR, LF}" "char_of (97 + code_of c mod 16) \<notin> {CR, LF}" for c :: char
    using encode_pairs_char [of c] by blast+
  then have "one_line (encode_pairs x)" for x
    by (auto simp: encode_pairs_def one_line_def dest: sym)
  then show ?thesis
    by (auto simp: line_lib_def ex_mime_lib_def ex_crypto_def one_line_def list_all_iff split: if_splits)
qed


text \<open>
  Without the condition on Reply-To the block has another field: a parser that accepts a comment with a
  line end in it, as \<open>mail.ParseAddress\<close> does, lets the request add a line.
\<close>

lemma reply_to_adds_a_field:
  "write_fields [(''Reply-To'', ''a@x (c'' @ CRLF @ ''Bcc: d@y)'')]
    = write_fields [(''Reply-To'', ''a@x (c''), (''Bcc'', ''d@y)'')]"
  by (simp add: write_fields_def)

section \<open>What Parse accepts\<close>

definition leaf :: "mime_part \<Rightarrow> bool" where
  "leaf p \<longleftrightarrow> \<not> HasPrefix (mp_type p) ''multipart/''"

definition marked_file :: "mime_part \<Rightarrow> bool" where
  "marked_file p \<longleftrightarrow> part_filename p \<noteq> [] \<or> EqualFold (mp_disposition p) ''attachment''
     \<or> EqualFold (mp_disposition p) ''inline''"

definition text_leaf :: "mime_part \<Rightarrow> bool" where
  "text_leaf p \<longleftrightarrow> leaf p \<and> \<not> marked_file p \<and> EqualFold (mp_type p) ''text/plain''"

definition html_leaf :: "mime_part \<Rightarrow> bool" where
  "html_leaf p \<longleftrightarrow> leaf p \<and> \<not> marked_file p \<and> EqualFold (mp_type p) ''text/html''"

definition file_leaf :: "mime_part \<Rightarrow> bool" where
  "file_leaf p \<longleftrightarrow> leaf p \<and> \<not> text_leaf p \<and> \<not> html_leaf p"

definition part_ok :: "mime_part \<Rightarrow> bool" where
  "part_ok p \<longleftrightarrow> \<not> mp_missing p \<and> mp_depth p \<le> 30
     \<and> (leaf p \<longrightarrow> \<not> snd (mp_body p) \<and> length (fst (mp_body p)) \<le> 20971520)"

definition parts_ok :: "mime_part list \<Rightarrow> bool" where
  "parts_ok ps \<longleftrightarrow> length ps \<le> 1000 \<and> list_all part_ok ps \<and> length (filter file_leaf ps) \<le> 100"

definition files_from :: "mime_lib \<Rightarrow> nat \<Rightarrow> mime_part list \<Rightarrow> attachment list" where
  "files_from lib k ps =
     map (\<lambda>(n, p). part_attachment lib p (fst (mp_body p)) n) (enumerate k (filter file_leaf ps))"

lemma readLimited_cases:
  obtains "\<not> snd r" "length (fst r) \<le> 20971520" "readLimited r maxDecodedPartBytes = Inr (fst r)"
  | e where "snd r \<or> 20971520 < length (fst r)" "readLimited r maxDecodedPartBytes = Inl e"
proof (cases "\<not> snd r \<and> length (fst r) \<le> 20971520")
  case True
  then show ?thesis using that(1) by (simp add: readLimited_def maxDecodedPartBytes_def)
next
  case False
  then have "isl (readLimited r maxDecodedPartBytes)"
    by (auto simp: readLimited_def maxDecodedPartBytes_def Let_def)
  then show ?thesis using that(2) False by (auto simp: isl_def)
qed

lemma EqualFold_trans_False: "EqualFold t ''text/plain'' \<Longrightarrow> \<not> EqualFold t ''text/html''"
  by (auto simp: EqualFold_def ToLower_def lower_char_def)

text \<open>One step of the walk, and the walk over all parts.\<close>

definition walked :: "mime_lib \<Rightarrow> walk_state \<Rightarrow> mime_part list \<Rightarrow> walk_state" where
  "walked lib st ps =
     \<lparr>wk_count = wk_count st + length ps,
      wk_text = wk_text st @ map (\<lambda>p. TrimSpace (fst (mp_body p))) (filter text_leaf ps),
      wk_html = wk_html st @ map (\<lambda>p. sanitizeHTML lib (fst (mp_body p))) (filter html_leaf ps),
      wk_attachments = wk_attachments st @ files_from lib (length (wk_attachments st)) ps\<rparr>"

lemma walk_part_Inr:
  "walk_part lib p st = Inr st' \<longleftrightarrow>
     part_ok p \<and> wk_count st < 1000 \<and> (file_leaf p \<longrightarrow> length (wk_attachments st) < 100) \<and> st' = walked lib st [p]"
proof (cases "leaf p")
  case False
  then show ?thesis
    by (auto simp: walk_part_def Let_def maxMIMEParts_def maxMIMEDepth_def walked_def files_from_def part_ok_def
        file_leaf_def text_leaf_def html_leaf_def leaf_def)
next
  case True
  show ?thesis
  proof (rule readLimited_cases [of "mp_body p"])
    fix e
    assume "snd (mp_body p) \<or> 20971520 < length (fst (mp_body p))"
      and "readLimited (mp_body p) maxDecodedPartBytes = Inl e"
    with True show ?thesis by (auto simp: walk_part_def Let_def part_ok_def leaf_def)
  next
    assume "\<not> snd (mp_body p)" and "length (fst (mp_body p)) \<le> 20971520"
      and "readLimited (mp_body p) maxDecodedPartBytes = Inr (fst (mp_body p))"
    with True show ?thesis
      using EqualFold_trans_False [of "mp_type p"]
      by (auto simp: walk_part_def Let_def maxMIMEParts_def maxMIMEDepth_def maxAttachments_def walked_def
          files_from_def part_ok_def file_leaf_def text_leaf_def html_leaf_def leaf_def marked_file_def)
  qed
qed

lemma walked_Cons: "walked lib (walked lib st [p]) ps = walked lib st (p # ps)"
  by (simp add: walked_def files_from_def)

lemma walk_parts_Inr:
  "wk_count st \<le> 1000 \<Longrightarrow> length (wk_attachments st) \<le> 100 \<Longrightarrow>
   fold_res (walk_part lib) ps st = Inr st' \<longleftrightarrow>
     list_all part_ok ps \<and> wk_count st + length ps \<le> 1000
     \<and> length (wk_attachments st) + length (filter file_leaf ps) \<le> 100 \<and> st' = walked lib st ps"
proof (induction ps arbitrary: st)
  case Nil
  then show ?case by (auto simp: walked_def files_from_def)
next
  case (Cons p ps)
  show ?case
  proof (cases "part_ok p \<and> wk_count st < 1000 \<and> (file_leaf p \<longrightarrow> length (wk_attachments st) < 100)")
    case True
    then have step: "walk_part lib p st = Inr (walked lib st [p])" by (simp add: walk_part_Inr)
    have sizes: "wk_count (walked lib st [p]) = Suc (wk_count st)"
      "length (wk_attachments (walked lib st [p])) = length (wk_attachments st) + (if file_leaf p then 1 else 0)"
      by (simp_all add: walked_def files_from_def)
    show ?thesis
      using True Cons.prems Cons.IH [of "walked lib st [p]"] by (auto simp: step sizes walked_Cons)
  next
    case False
    then have "walk_part lib p st \<noteq> Inr s" for s by (auto simp: walk_part_Inr)
    then show ?thesis using False Cons.prems by (auto simp: bind_res_Inr_iff)
  qed
qed


section \<open>Threads\<close>

text \<open>A reply or forward prefix, in any case and with blanks around its colon.\<close>

definition reply_prefix :: "string \<Rightarrow> bool" where
  "reply_prefix p \<longleftrightarrow> (\<exists>w \<in> {''re'', ''fw'', ''fwd''}. \<exists>a b. ToLower p = w @ a @ '':'' @ b
     \<and> list_all re_space a \<and> list_all re_space b)"

lemma re_space_is_space: "re_space c \<Longrightarrow> is_space c"
  by (auto simp: re_space_def is_space_def)

lemma dropWhile_space: "list_all re_space b \<Longrightarrow> u \<noteq> [] \<Longrightarrow> \<not> re_space (hd u) \<Longrightarrow> dropWhile re_space (b @ u) = u"
  by (induction b) (auto simp: neq_Nil_conv)

lemma after_colon_prefix:
  "list_all re_space a \<Longrightarrow> list_all re_space b \<Longrightarrow> u \<noteq> [] \<Longrightarrow> \<not> re_space (hd u) \<Longrightarrow>
   after_colon (a @ '':'' @ b @ u) = Some u"
  using dropWhile_space [of a "'':'' @ b @ u"] dropWhile_space [of b u]
  by (simp add: after_colon_def re_space_def)

lemma strip_reply_prefix:
  assumes "w \<in> {''re'', ''fw'', ''fwd''}" and "list_all re_space a" and "list_all re_space b"
    and "u \<noteq> []" and "\<not> re_space (hd u)"
  shows "strip_reply (w @ a @ '':'' @ b @ u) = Some u"
proof -
  have "after_colon (CHR ''d'' # v) = None" for v by (simp add: after_colon_def re_space_def)
  then show ?thesis
    using assms after_colon_prefix [OF assms(2-5)] by (auto simp: strip_reply_def HasPrefix_def)
qed

lemma trimmed_iff: "s \<noteq> [] \<Longrightarrow> TrimSpace s = s \<longleftrightarrow> \<not> is_space (hd s) \<and> \<not> is_space (last s)"
proof
  assume s: "s \<noteq> []" "TrimSpace s = s"
  have len: "length (dropWhile P xs) \<le> length xs" for P and xs :: string by (rule length_dropWhile_le)
  have "length s = length (dropWhile is_space (rev (dropWhile is_space s)))"
    using s(2) by (metis TrimSpace_def TrimBy_def TrimLeftBy_def TrimRightBy_def length_rev)
  then have "length s \<le> length (dropWhile is_space s)" using len [of is_space "rev (dropWhile is_space s)"] by simp
  then have hd: "\<not> is_space (hd s)" using s(1) len [of is_space "tl s"] by (cases s) (auto split: if_splits)
  then have "dropWhile is_space s = s" by (cases s) auto
  with s(2) have "rev (dropWhile is_space (rev s)) = s"
    by (simp add: TrimSpace_def TrimBy_def TrimLeftBy_def TrimRightBy_def)
  then have "dropWhile is_space (rev s) = rev s" by (metis rev_rev_ident)
  then have "\<not> is_space (hd (rev s))" using s(1) len [of is_space "tl (rev s)"]
    by (cases "rev s") (auto split: if_splits)
  with hd s(1) show "\<not> is_space (hd s) \<and> \<not> is_space (last s)" by (simp add: hd_rev)
next
  assume s: "s \<noteq> []" and "\<not> is_space (hd s) \<and> \<not> is_space (last s)"
  then have "dropWhile is_space s = s" "dropWhile is_space (rev s) = rev s"
    by (simp_all add: dropWhile_eq_self_iff hd_rev)
  then show "TrimSpace s = s" by (simp add: TrimSpace_def TrimBy_def TrimLeftBy_def TrimRightBy_def)
qed

lemma hd_reply_prefix: "reply_prefix p \<Longrightarrow> p \<noteq> [] \<and> \<not> is_space (hd p)"
  by (cases p) (auto simp: reply_prefix_def ToLower_def is_space_def lower_char_def split: if_splits)

lemma hd_lower: "s \<noteq> [] \<Longrightarrow> \<not> is_space (hd s) \<Longrightarrow> \<not> re_space (hd (ToLower s))"
  using re_space_is_space by (cases s) (force simp: ToLower_def)+

lemma strip_prefixes:
  "list_all reply_prefix ps \<Longrightarrow> s \<noteq> [] \<Longrightarrow> \<not> is_space (hd s) \<Longrightarrow>
   strip_replies (ToLower (concat ps @ s)) = strip_replies (ToLower s)
   \<and> \<not> is_space (hd (concat ps @ s))"
proof (induction ps)
  case (Cons p ps)
  let ?u = "ToLower (concat ps @ s)"
  have u: "?u \<noteq> []" "\<not> re_space (hd ?u)"
    using Cons hd_lower [of "concat ps @ s"] by auto
  obtain w a b where p: "w \<in> {''re'', ''fw'', ''fwd''}" "ToLower p = w @ a @ '':'' @ b"
    "list_all re_space a" "list_all re_space b"
    using Cons.prems(1) unfolding reply_prefix_def list.pred_inject by blast
  have "strip_reply (ToLower (concat (p # ps) @ s)) = Some ?u"
    using strip_reply_prefix [OF p(1,3,4) u] p(2) by simp
  then have "strip_replies (ToLower (concat (p # ps) @ s)) = strip_replies ?u"
    by (subst strip_replies.simps) simp
  with Cons hd_reply_prefix [of p] show ?case by simp
qed simp

text \<open>
  A reply or forward belongs to the thread of the message it answers: any number of prefixes leaves the
  key as it is.
\<close>

lemma thread_key_of_replies:
  assumes "list_all reply_prefix ps" and "s \<noteq> []" and "TrimSpace s = s"
  shows "threadKey lib (concat ps @ s) refs irt = threadKey lib s refs irt"
proof -
  have s: "\<not> is_space (hd s)" "\<not> is_space (last s)" using assms trimmed_iff by auto
  have strip: "strip_replies (ToLower (concat ps @ s)) = strip_replies (ToLower s)"
    and "\<not> is_space (hd (concat ps @ s))" using strip_prefixes [OF assms(1,2) s(1)] by auto
  then have "TrimSpace (concat ps @ s) = concat ps @ s"
    using trimmed_iff [of "concat ps @ s"] assms(2) s(2) by simp
  with strip assms(3) show ?thesis by (simp add: threadKey_def)
qed

end
