(* ===== verification/Config.thy ===== *)
theory Config
  imports Security
begin

text \<open>
  \<open>internal/config/config.go\<close>: the configuration read from the environment. The environment is a function
  from names to values; reading files, joining paths and \<open>time.ParseDuration\<close> are the fields of
  \<open>os_lib\<close>. An error carries the variable that is at fault.
\<close>

record os_lib =
  getenv :: "string \<Rightarrow> string option"
  read_file :: "string \<Rightarrow> string option"
  join_path :: "string \<Rightarrow> string \<Rightarrow> string"
  parse_duration :: "string \<Rightarrow> int option"

datatype config_error =
    NotBoolean string
  | NotInteger string
  | NotDuration string
  | BothSet string
  | Unreadable string
  | FileTooLarge string
  | Refused string

record server_config =
  DataDir :: string
  DatabasePath :: string
  HTTPAddr :: string
  HTTPSAddr :: string
  ACMEHTTPAddr :: string
  SMTPAddr :: string
  SubmissionAddr :: string
  SMTPSAddr :: string
  IMAPAddr :: string
  IMAPSAddr :: string
  Hostname :: string
  BaseURL :: string
  TLSCertPath :: string
  TLSKeyPath :: string
  AutoTLS :: bool
  ACMEEmail :: string
  SetupToken :: string
  BootstrapEmail :: string
  BootstrapPassword :: string
  RelayAddr :: string
  RelayUsername :: string
  RelayPassword :: string
  RelayImplicitTLS :: bool
  DirectDelivery :: bool
  DevMode :: bool
  DisableMailServers :: bool
  MaxMessageBytes :: int
  MaxArchiveBytes :: int
  MinFreeDiskBytes :: int
  SessionTTL :: duration
  QueuePollInterval :: duration
  BackupTimeout :: duration
  QueueMaxAttempts :: int

section \<open>Reading one variable\<close>

definition Getenv :: "os_lib \<Rightarrow> string \<Rightarrow> string" where
  "Getenv os key = (case getenv os key of None \<Rightarrow> [] | Some v \<Rightarrow> v)"

definition env_or :: "os_lib \<Rightarrow> string \<Rightarrow> string \<Rightarrow> string" where
  "env_or os key fallback = (let v = TrimSpace (Getenv os key) in if v \<noteq> [] then v else fallback)"

definition ParseBool :: "string \<Rightarrow> bool option" where
  "ParseBool s =
     (if s \<in> {''1'', ''t'', ''T'', ''TRUE'', ''true'', ''True''} then Some True
      else if s \<in> {''0'', ''f'', ''F'', ''FALSE'', ''false'', ''False''} then Some False else None)"

text \<open>\<open>strconv.ParseInt\<close> in base 10: an optional sign, digits, and a value of 64 bits.\<close>

definition ParseInt :: "string \<Rightarrow> int option" where
  "ParseInt s =
     (let negative = (take 1 s = ''-''); digits = (if take 1 s \<in> {''-'', ''+''} then drop 1 s else s);
          n = int (decimal_value digits); v = (if negative then - n else n)
      in if digits = [] \<or> \<not> list_all is_digit digits then None
         else if - (2 ^ 63) \<le> v \<and> v < 2 ^ 63 then Some v else None)"

definition env_parsed :: "os_lib \<Rightarrow> (string \<Rightarrow> 'a option) \<Rightarrow> (string \<Rightarrow> config_error) \<Rightarrow> string \<Rightarrow> 'a \<Rightarrow> config_error + 'a" where
  "env_parsed os parse err key fallback =
     (case getenv os key of None \<Rightarrow> Inr fallback | Some raw \<Rightarrow> of_option (err key) (parse (TrimSpace raw)))"

definition envBool :: "os_lib \<Rightarrow> string \<Rightarrow> bool \<Rightarrow> config_error + bool" where
  "envBool os key fallback = env_parsed os ParseBool NotBoolean key fallback"

definition envInt64 :: "os_lib \<Rightarrow> string \<Rightarrow> int \<Rightarrow> config_error + int" where
  "envInt64 os key fallback = env_parsed os ParseInt NotInteger key fallback"

definition envDuration :: "os_lib \<Rightarrow> string \<Rightarrow> duration \<Rightarrow> config_error + duration" where
  "envDuration os key fallback = env_parsed os (parse_duration os) NotDuration key fallback"

definition secretEnv :: "os_lib \<Rightarrow> string \<Rightarrow> config_error + string" where
  "secretEnv os key =
     (let v = Getenv os key; file = TrimSpace (Getenv os (key @ ''_FILE''))
      in guard_err (v \<noteq> [] \<and> file \<noteq> []) (BothSet key)
        (if file = [] then Inr v
         else bind_res (of_option (Unreadable key) (read_file os file)) (\<lambda>content.
              guard_err (length content > 1024 * 1024) (FileTooLarge key)
              (Inr (TrimRightBy (\<lambda>c. c \<in> {CR, LF}) content)))))"

section \<open>The configuration\<close>

definition TLSConfigured :: "server_config \<Rightarrow> bool" where
  "TLSConfigured c \<longleftrightarrow> TLSCertPath c \<noteq> [] \<and> TLSKeyPath c \<noteq> []"

definition MailTLSAvailable :: "server_config \<Rightarrow> bool" where
  "MailTLSAvailable c \<longleftrightarrow> TLSConfigured c \<or> AutoTLS c"

text \<open>The fields that are read as text.\<close>

definition text_config :: "os_lib \<Rightarrow> string \<Rightarrow> string \<Rightarrow> string \<Rightarrow> server_config" where
  "text_config os setup bootstrap relay =
     (let dataDir = env_or os ''BRCLIO_DATA_DIR'' ''./data''
      in \<lparr>DataDir = dataDir,
          DatabasePath = env_or os ''BRCLIO_DATABASE_PATH'' (join_path os dataDir ''brclio-mail.db''),
          HTTPAddr = env_or os ''BRCLIO_HTTP_ADDR'' '':8080'',
          HTTPSAddr = env_or os ''BRCLIO_HTTPS_ADDR'' '':8443'',
          ACMEHTTPAddr = env_or os ''BRCLIO_ACME_HTTP_ADDR'' '':8080'',
          SMTPAddr = env_or os ''BRCLIO_SMTP_ADDR'' '':2525'',
          SubmissionAddr = env_or os ''BRCLIO_SUBMISSION_ADDR'' '':2587'',
          SMTPSAddr = env_or os ''BRCLIO_SMTPS_ADDR'' '':2465'',
          IMAPAddr = env_or os ''BRCLIO_IMAP_ADDR'' [],
          IMAPSAddr = env_or os ''BRCLIO_IMAPS_ADDR'' '':2993'',
          Hostname = ToLower (env_or os ''BRCLIO_HOSTNAME'' ''mail.localhost''),
          BaseURL = TrimRightBy (\<lambda>c. c = CHR ''/'') (env_or os ''BRCLIO_BASE_URL'' ''http://localhost:8080''),
          TLSCertPath = Getenv os ''BRCLIO_TLS_CERT'', TLSKeyPath = Getenv os ''BRCLIO_TLS_KEY'',
          AutoTLS = False, ACMEEmail = TrimSpace (Getenv os ''BRCLIO_ACME_EMAIL''), SetupToken = setup,
          BootstrapEmail = ToLower (TrimSpace (Getenv os ''BRCLIO_BOOTSTRAP_EMAIL'')),
          BootstrapPassword = bootstrap, RelayAddr = TrimSpace (Getenv os ''BRCLIO_RELAY_ADDR''),
          RelayUsername = TrimSpace (Getenv os ''BRCLIO_RELAY_USERNAME''), RelayPassword = relay,
          RelayImplicitTLS = False, DirectDelivery = False, DevMode = False, DisableMailServers = False,
          MaxMessageBytes = 0, MaxArchiveBytes = 0, MinFreeDiskBytes = 0, SessionTTL = 0,
          QueuePollInterval = 0, BackupTimeout = 0, QueueMaxAttempts = 0\<rparr>)"

text \<open>The checks at the end of \<open>Load\<close>, in their order.\<close>

definition check_config :: "server_config \<Rightarrow> config_error + server_config" where
  "check_config c =
     guard_err (MaxMessageBytes c < 1024) (Refused ''BRCLIO_MAX_MESSAGE_BYTES'')
     (guard_err (MaxArchiveBytes c < MaxMessageBytes c) (Refused ''BRCLIO_MAX_ARCHIVE_BYTES'')
     (guard_err (MinFreeDiskBytes c < 0) (Refused ''BRCLIO_MIN_FREE_DISK_BYTES'')
     (guard_err ((TLSCertPath c = []) \<noteq> (TLSKeyPath c = [])) (Refused ''BRCLIO_TLS_CERT'')
     (guard_err (AutoTLS c \<and> TLSConfigured c) (Refused ''BRCLIO_AUTO_TLS'')
     (guard_err (AutoTLS c \<and> (ACMEEmail c = [] \<or> Hostname c = [] \<or> HasSuffix (Hostname c) ''.localhost''))
       (Refused ''BRCLIO_AUTO_TLS'')
     (guard_err (BootstrapEmail c \<noteq> [] \<and> BootstrapPassword c = []) (Refused ''BRCLIO_BOOTSTRAP_PASSWORD'')
     (guard_err (BootstrapPassword c \<noteq> [] \<and> \<not> ValidString (BootstrapPassword c)) (Refused ''BRCLIO_BOOTSTRAP_PASSWORD'')
     (guard_err (BootstrapPassword c \<noteq> [] \<and> length (BootstrapPassword c) > 1024) (Refused ''BRCLIO_BOOTSTRAP_PASSWORD'')
     (guard_err (BootstrapPassword c \<noteq> [] \<and> RuneCount (BootstrapPassword c) < 12) (Refused ''BRCLIO_BOOTSTRAP_PASSWORD'')
     (guard_err (\<not> DevMode c \<and> SetupToken c = [] \<and> BootstrapEmail c = []) (Refused ''BRCLIO_SETUP_TOKEN'')
     (guard_err (QueueMaxAttempts c < 1) (Refused ''BRCLIO_QUEUE_MAX_ATTEMPTS'')
     (guard_err (RelayUsername c \<noteq> [] \<and> RelayAddr c = []) (Refused ''BRCLIO_RELAY_ADDR'')
     (guard_err (RelayPassword c \<noteq> [] \<and> RelayUsername c = []) (Refused ''BRCLIO_RELAY_USERNAME'')
     (Inr c))))))))))))))"

definition Load :: "os_lib \<Rightarrow> config_error + server_config" where
  "Load os =
     bind_res (secretEnv os ''BRCLIO_SETUP_TOKEN'') (\<lambda>setup.
     bind_res (secretEnv os ''BRCLIO_BOOTSTRAP_PASSWORD'') (\<lambda>bootstrap.
     bind_res (secretEnv os ''BRCLIO_RELAY_PASSWORD'') (\<lambda>relay.
     bind_res (envBool os ''BRCLIO_AUTO_TLS'' False) (\<lambda>auto_tls.
     bind_res (envBool os ''BRCLIO_RELAY_IMPLICIT_TLS'' False) (\<lambda>implicit.
     bind_res (envBool os ''BRCLIO_DIRECT_DELIVERY'' False) (\<lambda>direct.
     bind_res (envBool os ''BRCLIO_DEV_MODE'' False) (\<lambda>dev.
     bind_res (envBool os ''BRCLIO_DISABLE_MAIL_SERVERS'' False) (\<lambda>disable.
     bind_res (envInt64 os ''BRCLIO_MAX_MESSAGE_BYTES'' (25 * 1024 * 1024)) (\<lambda>max_message.
     bind_res (envInt64 os ''BRCLIO_MAX_ARCHIVE_BYTES'' (100 * 1024 * 1024 * 1024)) (\<lambda>max_archive.
     bind_res (envInt64 os ''BRCLIO_MIN_FREE_DISK_BYTES'' (1024 * 1024 * 1024)) (\<lambda>min_free.
     bind_res (envDuration os ''BRCLIO_SESSION_TTL'' (7 * 24 * hour)) (\<lambda>ttl.
     bind_res (envDuration os ''BRCLIO_QUEUE_POLL_INTERVAL'' (30 * second)) (\<lambda>poll.
     bind_res (envDuration os ''BRCLIO_BACKUP_TIMEOUT'' (2 * hour)) (\<lambda>backup.
     guard_err (backup < minute) (Refused ''BRCLIO_BACKUP_TIMEOUT'')
     (bind_res (envInt64 os ''BRCLIO_QUEUE_MAX_ATTEMPTS'' 12) (\<lambda>attempts.
      check_config ((text_config os setup bootstrap relay)
        \<lparr>AutoTLS := auto_tls, RelayImplicitTLS := implicit, DirectDelivery := direct, DevMode := dev,
         DisableMailServers := disable, MaxMessageBytes := max_message, MaxArchiveBytes := max_archive,
         MinFreeDiskBytes := min_free, SessionTTL := ttl, QueuePollInterval := poll, BackupTimeout := backup,
         QueueMaxAttempts := attempts\<rparr>)))))))))))))))))"

section \<open>What a loaded configuration guarantees\<close>

lemma env_parsed_Inr:
  "env_parsed os parse err key fallback = Inr v \<longleftrightarrow>
     (case getenv os key of None \<Rightarrow> v = fallback | Some raw \<Rightarrow> parse (TrimSpace raw) = Some v)"
  by (auto simp: env_parsed_def split: option.splits)

lemma bootstrap_hash:
  assumes "ValidString p" and "length p \<le> 1024" and "12 \<le> RuneCount p"
  shows "random_bytes cr 16 = None \<or> (\<exists>stored. HashPassword cr p = Inr stored)"
  using assms by (cases "random_bytes cr 16") (auto simp: HashPassword_def maxPasswordBytes_def Let_def)

lemma Load_checked: "Load os = Inr c \<Longrightarrow> check_config c = Inr c"
proof -
  assume "Load os = Inr c"
  then obtain c0 where "check_config c0 = Inr c" unfolding Load_def by auto
  moreover from this have "c0 = c" by (simp add: check_config_def)
  ultimately show ?thesis by simp
qed

lemma loaded_access: "Load os = Inr c \<Longrightarrow> DevMode c \<or> SetupToken c \<noteq> [] \<or> BootstrapEmail c \<noteq> []"
  using Load_checked [of os c] unfolding check_config_def guard_err_Inr_iff by blast

text \<open>
  C39: a configuration that is loaded is safe to run. Its limits are consistent; outside of the
  development mode, which only a value that parses as true can turn on, there is a setup token or a
  bootstrap account, whose password will be accepted when it is hashed; automatic and static TLS
  exclude each other; a relay password is never kept without a relay to use it with.
\<close>

theorem loaded_config_safe:
  assumes "Load os = Inr c"
  shows "1024 \<le> MaxMessageBytes c \<and> MaxMessageBytes c \<le> MaxArchiveBytes c \<and> 0 \<le> MinFreeDiskBytes c
    \<and> minute \<le> BackupTimeout c \<and> 1 \<le> QueueMaxAttempts c
    \<and> (DevMode c = (\<exists>v. getenv os ''BRCLIO_DEV_MODE'' = Some v \<and> ParseBool (TrimSpace v) = Some True))
    \<and> (DevMode c \<or> SetupToken c \<noteq> [] \<or> BootstrapEmail c \<noteq> [])
    \<and> (BootstrapEmail c = [] \<or> (\<forall>cr. random_bytes cr 16 = None \<or> (\<exists>stored. HashPassword cr (BootstrapPassword c) = Inr stored)))
    \<and> \<not> (AutoTLS c \<and> TLSConfigured c) \<and> (TLSCertPath c = [] \<longleftrightarrow> TLSKeyPath c = [])
    \<and> (RelayPassword c = [] \<or> RelayAddr c \<noteq> [])"
proof -
  from assms obtain c0 dev auto where check: "check_config c0 = Inr c"
    and dev: "envBool os ''BRCLIO_DEV_MODE'' False = Inr dev" "DevMode c0 = dev" "minute \<le> BackupTimeout c0"
    unfolding Load_def by (auto simp: not_less)
  have c: "c0 = c" using check by (simp add: check_config_def)
  have "BootstrapEmail c = [] \<or> ValidString (BootstrapPassword c) \<and> length (BootstrapPassword c) \<le> 1024
      \<and> 12 \<le> RuneCount (BootstrapPassword c)"
    using check unfolding check_config_def c guard_err_Inr_iff by (meson not_le)
  then have "BootstrapEmail c = [] \<or> random_bytes cr 16 = None \<or> (\<exists>stored. HashPassword cr (BootstrapPassword c) = Inr stored)"
    for cr using bootstrap_hash [of "BootstrapPassword c" cr] by blast
  moreover have "DevMode c = (\<exists>v. getenv os ''BRCLIO_DEV_MODE'' = Some v \<and> ParseBool (TrimSpace v) = Some True)"
    using dev c by (cases dev) (auto simp: envBool_def env_parsed_Inr split: option.splits)
  ultimately show ?thesis
    using check dev(3) unfolding check_config_def c guard_err_Inr_iff by (simp add: not_less) blast
qed

definition ex_os :: os_lib where
  "ex_os = \<lparr>getenv = (\<lambda>k. if k = ''BRCLIO_SETUP_TOKEN'' then Some ''secret'' else
       if k = ''BRCLIO_QUEUE_MAX_ATTEMPTS'' then Some ''5'' else None),
     read_file = (\<lambda>_. None), join_path = (\<lambda>a b. a @ ''/'' @ b), parse_duration = (\<lambda>_. None)\<rparr>"

theorem loaded_config_safe_witness:
  "\<exists>c. Load ex_os = Inr c \<and> QueueMaxAttempts c = 5 \<and> \<not> DevMode c \<and> MaxMessageBytes c \<le> MaxArchiveBytes c"
proof -
  have "ParseInt ''5'' = Some 5" by code_simp
  then have "\<not> isl (Load ex_os) \<and> QueueMaxAttempts (projr (Load ex_os)) = 5"
    by (simp add: Load_def check_config_def text_config_def secretEnv_def envBool_def envInt64_def envDuration_def
        env_parsed_def Getenv_def env_or_def ex_os_def Let_def TrimSpace_def TrimBy_def TrimLeftBy_def
        TrimRightBy_def is_space_def)
  then obtain c where "Load ex_os = Inr c" "QueueMaxAttempts c = 5" by (cases "Load ex_os") auto
  with loaded_config_safe [of ex_os c] show ?thesis by (auto simp: ex_os_def)
qed

end
