(* ===== verification/MailService.thy ===== *)
theory MailService
  imports MailCore Config
begin

text \<open>
  \<open>internal/service/service.go\<close>: what the web interface and the process start-up do with mail and
  accounts, over the store and \<open>mailcore\<close>. A call maps the database to an error or to the new database
  and a result; an error leaves the database as it was. Every call is one step: the reads before the
  transaction of the store see the database that the transaction changes.
\<close>

text \<open>An error of the store or with its text (\<open>ErrText\<close>), or a panic.\<close>

datatype service_error = Failed store_error | Panicked

definition of_store :: "store_error + 'a \<Rightarrow> service_error + 'a" where
  "of_store r = (case r of Inl e \<Rightarrow> Inl (Failed e) | Inr v \<Rightarrow> Inr v)"

definition of_mail :: "mail_error + 'a \<Rightarrow> service_error + 'a" where
  "of_mail r =
     (case r of Inl (MailError t) \<Rightarrow> Inl (Failed (ErrText t)) | Inl Panic \<Rightarrow> Inl Panicked | Inr v \<Rightarrow> Inr v)"

lemma of_store_Inr [simp]: "of_store r = Inr v \<longleftrightarrow> r = Inr v"
  by (auto simp: of_store_def split: sum.splits)

lemma of_mail_Inr [simp]: "of_mail r = Inr v \<longleftrightarrow> r = Inr v"
  by (auto simp: of_mail_def split: sum.splits mail_error.splits)

lemma of_res_simps [simp]: "of_store (Inr v) = Inr v" "of_mail (Inr v) = Inr v"
  by (simp_all add: of_store_def of_mail_def)

text \<open>
  The service: its configuration, the limits it gives to the store (\<open>New\<close>), the libraries, the TXT
  resolver and the RSA key generator.
\<close>

record service =
  sv_config :: server_config
  sv_limits :: store_config
  sv_sql :: sql_lib
  sv_statfs :: "(int \<times> int) option"
  sv_mime :: mime_lib
  sv_lookup_txt :: "string \<Rightarrow> string list option"
  sv_dkim_key :: "(string \<times> string) option"

definition New_service :: "server_config \<Rightarrow> sql_lib \<Rightarrow> (int \<times> int) option \<Rightarrow> mime_lib
    \<Rightarrow> (string \<Rightarrow> string list option) \<Rightarrow> (string \<times> string) option \<Rightarrow> service" where
  "New_service cfg sql statfs mime txt key =
     \<lparr>sv_config = cfg,
      sv_limits = \<lparr>archiveLimit = MaxArchiveBytes cfg, minFreeDisk = MinFreeDiskBytes cfg, databasePath = DatabasePath cfg\<rparr>,
      sv_sql = sql, sv_statfs = statfs, sv_mime = mime, sv_lookup_txt = txt, sv_dkim_key = key\<rparr>"

definition DefaultQuotaBytes :: int where
  "DefaultQuotaBytes = 5 * 1024 * 1024 * 1024"

abbreviation sv_crypto :: "service \<Rightarrow> crypto" where
  "sv_crypto svc \<equiv> ml_crypto (sv_mime svc)"

section \<open>First-run setup\<close>

record setup_request =
  sr_domain :: string
  sr_email :: string
  sr_display_name :: string
  sr_password :: string
  sr_setup_token :: string

definition password_error_text :: "password_error \<Rightarrow> store_error" where
  "password_error_text e = ErrText (case e of NotUTF8 \<Rightarrow> ''password must be valid UTF-8''
     | TooLong \<Rightarrow> ''password must not exceed 1024 bytes'' | TooShort \<Rightarrow> ''password must contain at least 12 characters''
     | NoSalt \<Rightarrow> ''generate password salt'')"

definition hash_password :: "service \<Rightarrow> string \<Rightarrow> service_error + string" where
  "hash_password svc password =
     (case HashPassword (sv_crypto svc) password of Inl e \<Rightarrow> Inl (Failed (password_error_text e)) | Inr h \<Rightarrow> Inr h)"

lemma hash_password_Inr [simp]: "hash_password svc p = Inr h \<longleftrightarrow> HashPassword (sv_crypto svc) p = Inr h"
  by (auto simp: hash_password_def split: sum.splits)

definition GenerateDKIMKey :: "service \<Rightarrow> service_error + (string \<times> string)" where
  "GenerateDKIMKey svc = of_option (Failed (ErrText ''dkim key'')) (sv_dkim_key svc)"

text \<open>The mutex makes the count of the users and the transaction of \<open>Initialize\<close> one step.\<close>

definition Setup :: "service \<Rightarrow> env \<Rightarrow> string \<Rightarrow> setup_request \<Rightarrow> string \<Rightarrow> db
    \<Rightarrow> service_error + (db \<times> user \<times> domain)" where
  "Setup svc env token request ip db =
     guard_err (CountUsers db \<noteq> 0) (Failed ErrConflict)
     (guard_err (SetupToken (sv_config svc) \<noteq> []
         \<and> \<not> EqualToken (sv_crypto svc) (sr_setup_token request) (SetupToken (sv_config svc))) (Failed ErrForbidden)
     (let domainName = TrimSuffix (ToLower (TrimSpace (sr_domain request))) ''.'';
          email = (if sr_email request = [] then ''postmaster@'' @ domainName else sr_email request)
      in guard_err (\<not> HasSuffix (ToLower email) (''@'' @ domainName))
           (Failed (ErrText ''administrator email must belong to the configured domain''))
         (bind_res (hash_password svc (sr_password request)) (\<lambda>passwordHash.
          bind_res (GenerateDKIMKey svc) (\<lambda>(publicKey, privateKey).
          of_store (Initialize (\<lambda>v. map_option fst (ml_address (sv_mime svc) v)) env token
            \<lparr>is_domain_name = domainName, is_selector = ''brclio'', is_public_key = publicKey,
             is_private_key = privateKey, is_email = email, is_display_name = sr_display_name request,
             is_password_hash = passwordHash, is_quota_bytes = DefaultQuotaBytes, is_ip = ip\<rparr> db))))))"

definition Bootstrap :: "service \<Rightarrow> env \<Rightarrow> string \<Rightarrow> db \<Rightarrow> service_error + db" where
  "Bootstrap svc env token db =
     (if BootstrapEmail (sv_config svc) = [] then Inr db
      else if CountUsers db > 0 then Inr db
      else (case Split (BootstrapEmail (sv_config svc)) (CHR ''@'') of
          [local_part, domain_part] \<Rightarrow>
            map_sum id fst (Setup svc env token
              \<lparr>sr_domain = domain_part, sr_email = BootstrapEmail (sv_config svc),
               sr_display_name = ''Administrator'', sr_password = BootstrapPassword (sv_config svc),
               sr_setup_token = SetupToken (sv_config svc)\<rparr> ''bootstrap'' db)
        | _ \<Rightarrow> Inl (Failed (ErrText ''invalid BRCLIO_BOOTSTRAP_EMAIL''))))"

section \<open>Domains\<close>

definition createDomain_service :: "service \<Rightarrow> env \<Rightarrow> string \<Rightarrow> string \<Rightarrow> audit_event option \<Rightarrow> db
    \<Rightarrow> service_error + (db \<times> domain)" where
  "createDomain_service svc env token name event db =
     bind_res (GenerateDKIMKey svc) (\<lambda>(publicKey, privateKey).
     of_store (createDomain env token name ''brclio'' publicKey privateKey event db))"

definition verifyDomain :: "service \<Rightarrow> env \<Rightarrow> string \<Rightarrow> audit_event option \<Rightarrow> db \<Rightarrow> service_error + (db \<times> domain)" where
  "verifyDomain svc env i event db =
     bind_res (of_store (GetDomainByID db i)) (\<lambda>d.
     bind_res (of_option (Failed (ErrText ''lookup ownership TXT record'')) (sv_lookup_txt svc (''_brclio-mail.'' @ d_name d))) (\<lambda>records.
     guard_err (\<not> list_ex (\<lambda>r. EqualToken (sv_crypto svc) (TrimSpace r) (d_verification d)) records)
       (Failed ErrDomainUnverified)
     (bind_res (of_store (setDomainVerification env (d_id d) True event db)) (\<lambda>db1.
      bind_res (of_store (GetDomainByID db1 (d_id d))) (\<lambda>d1. Inr (db1, d1))))))"

section \<open>Sending, drafts, receiving\<close>

fun canonical_from :: "mime_lib \<Rightarrow> string list \<Rightarrow> string list \<Rightarrow> string list" where
  "canonical_from lib result [] = result"
| "canonical_from lib result (v # vs) =
     (case ml_address lib v of
        None \<Rightarrow> canonical_from lib result vs
      | Some (address, _) \<Rightarrow>
          canonical_from lib (if ToLower address \<in> set result then result else result @ [ToLower address]) vs)"

definition canonicalRecipients :: "mime_lib \<Rightarrow> string list \<Rightarrow> string list" where
  "canonicalRecipients lib values0 = canonical_from lib [] values0"

definition maxMessageBytes :: "service \<Rightarrow> int" where
  "maxMessageBytes svc =
     (if MaxMessageBytes (sv_config svc) > 0 then MaxMessageBytes (sv_config svc) else 25 * 1024 * 1024)"

text \<open>The loop of \<open>Send\<close> over the recipients: deliveries to local users, once each, and the others.\<close>

fun route_sent :: "db \<Rightarrow> string list \<Rightarrow> string list \<Rightarrow> service_error + (delivery list \<times> string list)" where
  "route_sent db delivered [] = Inr ([], [])"
| "route_sent db delivered (r # rs) =
     (case ResolveRecipient db r of
        Inr u \<Rightarrow>
          (if u_id u \<in> set delivered then route_sent db delivered rs
           else bind_res (route_sent db (u_id u # delivered) rs) (\<lambda>(dls, q).
                Inr (\<lparr>dl_user_id = u_id u, dl_mailbox = ''INBOX'', dl_flags = []\<rparr> # dls, q)))
      | Inl e \<Rightarrow>
          (if e \<noteq> ErrNotFound then Inl (Failed e)
           else bind_res (route_sent db delivered rs) (\<lambda>(dls, q). Inr (dls, r # q))))"

text \<open>A new message composed and parsed again, as \<open>Send\<close> and \<open>SaveDraft\<close> do; \<open>now\<close> and \<open>received\<close> are the clock.\<close>

definition composed :: "service \<Rightarrow> time \<Rightarrow> time \<Rightarrow> compose_request \<Rightarrow> string \<Rightarrow> string
    \<Rightarrow> service_error + (message \<times> attachment list)" where
  "composed svc now received req sender direction =
     bind_res (of_mail (Compose (sv_mime svc) req (Hostname (sv_config svc)) now)) (\<lambda>raw.
     guard_err (int (length raw) > maxMessageBytes svc) (Failed (ErrText ''message exceeds the configured size limit''))
     (of_mail (Parse (sv_mime svc) received raw
        \<lparr>ve_from = sender, ve_to = canonicalRecipients (sv_mime svc) (all_recipients req),
         ve_direction = direction\<rparr>)))"

definition submit_event :: "user \<Rightarrow> string \<Rightarrow> string \<Rightarrow> audit_event" where
  "submit_event actor action ip =
     \<lparr>ev_id = [], ev_actor_id = u_id actor, ev_action = action, ev_target_type = ''message'', ev_target_id = [],
      ev_reason = [], ev_metadata = [], ev_ip = ip, ev_created = zero_time\<rparr>"

definition save_from :: "service \<Rightarrow> env \<Rightarrow> user \<Rightarrow> string \<Rightarrow> message \<Rightarrow> attachment list \<Rightarrow> delivery list
    \<Rightarrow> string list \<Rightarrow> audit_event \<Rightarrow> db \<Rightarrow> service_error + (db \<times> message)" where
  "save_from svc env actor replaced m atts dls q event db =
     of_store (if replaced \<noteq> []
       then SaveMessageReplacingDraftAudited (sv_limits svc) (sv_sql svc) (sv_statfs svc) env (u_id actor) replaced
              m atts dls q event db
       else SaveMessageAudited (sv_limits svc) (sv_sql svc) (sv_statfs svc) env m atts dls q event db)"

definition check_sender_domain :: "service \<Rightarrow> user \<Rightarrow> string list \<Rightarrow> db \<Rightarrow> service_error + unit" where
  "check_sender_domain svc actor q db =
     (if q = [] \<or> DevMode (sv_config svc) then Inr ()
      else bind_res (of_store (GetDomainByName db (fst (snd (Cut (u_email actor) (CHR ''@'')))))) (\<lambda>d.
           guard_err (d_status d \<noteq> ''verified'') (Failed ErrDomainUnverified) (Inr ())))"

definition Send :: "service \<Rightarrow> env \<Rightarrow> time \<Rightarrow> time \<Rightarrow> user \<Rightarrow> compose_request \<Rightarrow> string \<Rightarrow> db
    \<Rightarrow> service_error + (db \<times> message)" where
  "Send svc env now received actor request0 ip db =
     (let request = request0\<lparr>cq_from := u_email actor\<rparr>
      in bind_res (composed svc now received request (u_email actor) ''outbound'') (\<lambda>(parsed, atts).
         bind_res (route_sent db [] (canonicalRecipients (sv_mime svc) (all_recipients request))) (\<lambda>(dls, q).
         bind_res (check_sender_domain svc actor q db) (\<lambda>_.
         save_from svc env actor (cq_draft_id request)
           (parsed\<lparr>m_status := (if q = [] then ''delivered'' else ''queued'')\<rparr>) atts
           (\<lparr>dl_user_id = u_id actor, dl_mailbox = ''Sent'', dl_flags = [Seen]\<rparr> # dls) q
           (submit_event actor ''message.submit'' ip) db))))"

definition SaveDraft :: "service \<Rightarrow> env \<Rightarrow> time \<Rightarrow> time \<Rightarrow> user \<Rightarrow> compose_request \<Rightarrow> string \<Rightarrow> string \<Rightarrow> db
    \<Rightarrow> service_error + (db \<times> message)" where
  "SaveDraft svc env now received actor request0 replaceID ip db =
     (let request = request0\<lparr>cq_from := u_email actor, cq_allow_none := True\<rparr>
      in bind_res (composed svc now received request (u_email actor) ''draft'') (\<lambda>(parsed, atts).
         save_from svc env actor replaceID (parsed\<lparr>m_status := ''draft''\<rparr>) atts
           [\<lparr>dl_user_id = u_id actor, dl_mailbox = ''Drafts'', dl_flags = [Draft, Seen]\<rparr>] []
           (submit_event actor ''draft.save'' ip) db))"

text \<open>\<open>Receive\<close>: every recipient must be local.\<close>

fun route_received :: "db \<Rightarrow> string list \<Rightarrow> string list \<Rightarrow> service_error + delivery list" where
  "route_received db delivered [] = Inr []"
| "route_received db delivered (r # rs) =
     bind_res (of_store (ResolveRecipient db r)) (\<lambda>u.
       if u_id u \<in> set delivered then route_received db delivered rs
       else bind_res (route_received db (u_id u # delivered) rs) (\<lambda>dls.
            Inr (\<lparr>dl_user_id = u_id u, dl_mailbox = ''INBOX'', dl_flags = []\<rparr> # dls)))"

definition Receive :: "service \<Rightarrow> env \<Rightarrow> time \<Rightarrow> string \<Rightarrow> string list \<Rightarrow> string \<Rightarrow> string \<Rightarrow> db
    \<Rightarrow> service_error + (db \<times> message)" where
  "Receive svc env received envelopeFrom recipients raw ip db =
     bind_res (route_received db [] (canonicalRecipients (sv_mime svc) recipients)) (\<lambda>dls.
     bind_res (of_mail (Parse (sv_mime svc) received raw
        \<lparr>ve_from = envelopeFrom, ve_to = recipients, ve_direction = ''inbound''\<rparr>)) (\<lambda>(parsed, atts).
     of_store (SaveMessageAudited (sv_limits svc) (sv_sql svc) (sv_statfs svc) env parsed atts dls []
       \<lparr>ev_id = [], ev_actor_id = [], ev_action = ''message.receive'', ev_target_type = ''message'',
        ev_target_id = [], ev_reason = [], ev_metadata = [], ev_ip = ip, ev_created = zero_time\<rparr> db)))"

section \<open>Reading the archive\<close>

definition AdminView :: "env \<Rightarrow> user \<Rightarrow> string \<Rightarrow> string \<Rightarrow> string \<Rightarrow> db \<Rightarrow> service_error + (db \<times> user_message)" where
  "AdminView env actor messageID reason0 ip db =
     guard_err (u_role actor \<noteq> RoleAdmin) (Failed ErrForbidden)
     (let reason = TrimSpace reason0
      in guard_err (RuneCount reason < 4) (Failed (ErrText ''a review reason of at least 4 characters is required''))
         (bind_res (of_store (GetMessage db [] messageID True)) (\<lambda>m.
          bind_res (of_store (Audit_event env db
            \<lparr>ev_id = [], ev_actor_id = u_id actor, ev_action = ''archive.message.view'', ev_target_type = ''message'',
             ev_target_id = m_id m, ev_reason = reason, ev_metadata = [], ev_ip = ip, ev_created = zero_time\<rparr>)) (\<lambda>db1.
          Inr (db1, m)))))"

end
