(* ===== verification/ServiceProperties.thy ===== *)
theory ServiceProperties
  imports MailService MailProperties StoreProperties
begin

text \<open>
  The mail service: every successful call is one operation of the store, so its histories are histories
  of the store; what a sent message does; who may read the archive.
\<close>

section \<open>Calls of the service as operations of the store\<close>

text \<open>
  The commands that are open to the calls: never those of the queue worker, and when \<open>out\<close> does not hold none
  that queues a message for another server.
\<close>

definition client_cmd :: "bool \<Rightarrow> store_cmd \<Rightarrow> bool" where
  "client_cmd out c = (case c of Mail x \<Rightarrow> (if out then \<not> worker_cmd x else quiet_cmd x) | _ \<Rightarrow> True)"

definition evolves :: "bool \<Rightarrow> db \<Rightarrow> db \<Rightarrow> bool" where
  "evolves out db db' \<longleftrightarrow> (\<exists>cs. list_all (client_cmd out) cs \<and> db' = foldl store_step db cs)"

lemma evolves_refl [simp, intro]: "evolves out db db"
  by (auto simp: evolves_def intro: exI [of _ "[]"])

lemma evolves_trans: "evolves out a b \<Longrightarrow> evolves out b c \<Longrightarrow> evolves out a c"
  unfolding evolves_def by (metis foldl_append list_all_append)

lemma evolves_step: "db' = store_step db c \<Longrightarrow> client_cmd out c \<Longrightarrow> evolves out db db'"
  unfolding evolves_def by (auto intro: exI [of _ "[c]"])

lemma evolves_run: "evolves out db db' \<Longrightarrow> \<exists>cs. db' = foldl store_step db cs"
  unfolding evolves_def by blast

lemma client_cmd_mono: "client_cmd out c \<Longrightarrow> client_cmd True c"
  by (auto simp: client_cmd_def quiet_not_worker split: store_cmd.splits if_splits)

lemma evolves_mono: "evolves out db db' \<Longrightarrow> evolves True db db'"
  unfolding evolves_def by (metis client_cmd_mono list_all_iff)

text \<open>Each operation of the store, when it succeeds.\<close>

lemma evolves_ops:
  "saveMessage cfg lib statfs env m atts dls q rep ev db = Inr (db', m') \<Longrightarrow> q = [] \<or> out \<Longrightarrow> evolves out db db'"
  "UpdateFlags u i fs db = Inr db' \<Longrightarrow> evolves out db db'"
  "MoveMessage env u i b db = Inr db' \<Longrightarrow> evolves out db db'"
  "ExpungeMessage env u i db = Inr db' \<Longrightarrow> evolves out db db'"
  "Audit_event env db event = Inr db' \<Longrightarrow> evolves out db db'"
  "Initialize pa env token inp db = Inr (db', r) \<Longrightarrow> evolves out db db'"
  "createDomain env token n sel pub priv ev db = Inr (db', d) \<Longrightarrow> evolves out db db'"
  "setDomainVerification env i v ev db = Inr db' \<Longrightarrow> evolves out db db'"
  "createUser env email dn h role quota ev db = Inr (db', x) \<Longrightarrow> evolves out db db'"
  "updateUser env i up ev db = Inr db' \<Longrightarrow> evolves out db db'"
  "CreateSession vl env u ver tok ip ua expire db = Inr (db', s) \<Longrightarrow> evolves out db db'"
  "CreateAppPassword env u n h db = Inr (db', p) \<Longrightarrow> evolves out db db'"
  "RevokeAppPassword env u i db = Inr db' \<Longrightarrow> evolves out db db'"
  "createAlias env a t ev db = Inr (db', al) \<Longrightarrow> evolves out db db'"
  apply (rule evolves_step [where c = "Mail (CSave cfg lib statfs env m atts dls q rep ev)"]; auto simp: commit_def client_cmd_def)
  apply (rule evolves_step [where c = "Mail (CUpdateFlags u i fs)"]; simp add: commit_def client_cmd_def)
  apply (rule evolves_step [where c = "Mail (CMoveMessage env u i b)"]; simp add: commit_def client_cmd_def)
  apply (rule evolves_step [where c = "Mail (CExpungeMessage env u i)"]; simp add: commit_def client_cmd_def)
  apply (rule evolves_step [where c = "Mail (CAudit env event)"]; simp add: commit_def client_cmd_def)
  apply (rule evolves_step [where c = "AInitialize pa env token inp"]; simp add: commit_def client_cmd_def)
  apply (rule evolves_step [where c = "ACreateDomain env token n sel pub priv ev"]; simp add: commit_def client_cmd_def)
  apply (rule evolves_step [where c = "ASetVerification env i v ev"]; simp add: commit_def client_cmd_def)
  apply (rule evolves_step [where c = "ACreateUser env email dn h role quota ev"]; simp add: commit_def client_cmd_def)
  apply (rule evolves_step [where c = "AUpdateUser env i up ev"]; simp add: commit_def client_cmd_def)
  apply (rule evolves_step [where c = "ACreateSession vl env u ver tok ip ua expire"]; simp add: commit_def client_cmd_def)
  apply (rule evolves_step [where c = "ACreateAppPassword env u n h"]; simp add: commit_def client_cmd_def)
  apply (rule evolves_step [where c = "ARevokeAppPassword env u i"]; simp add: commit_def client_cmd_def)
  apply (rule evolves_step [where c = "ACreateAlias env a t ev"]; simp add: commit_def client_cmd_def)
  done

lemma evolves_sessions:
  "evolves out db (fst (UserForSession env tok db))"
  "evolves out db (fst (Authenticate verify th env email pw app db))"
  "evolves out db (DeleteSession tok db)"
  by (rule evolves_step [where c = "AUserForSession env tok"] evolves_step [where c = "AAuthenticate verify th env email pw app"]
      evolves_step [where c = "ADeleteSession tok"]; simp add: client_cmd_def)+

text \<open>Each call of the service.\<close>

lemma save_from_evolves: "save_from svc env actor rep m atts dls q ev db = Inr (db', m') \<Longrightarrow> q = [] \<or> out \<Longrightarrow> evolves out db db'"
  by (auto simp: save_from_def SaveMessageReplacingDraftAudited_def SaveMessageAudited_def
      intro: evolves_ops split: if_splits)

lemma service_evolves:
  "Send svc env now rcv actor req ip db = Inr (db', m) \<Longrightarrow> evolves True db db'"
  "SaveDraft svc env now rcv actor req rep ip db = Inr (db', m) \<Longrightarrow> evolves out db db'"
  "Receive svc env rcv sender rcpts raw ip db = Inr (db', m) \<Longrightarrow> evolves out db db'"
  "Setup svc env token sreq ip db = Inr (db', r) \<Longrightarrow> evolves out db db'"
  "createDomain_service svc env token n ev db = Inr (db', d) \<Longrightarrow> evolves out db db'"
  "verifyDomain svc env i ev db = Inr (db', d) \<Longrightarrow> evolves out db db'"
  "AdminView env actor i reason ip db = Inr (db', um) \<Longrightarrow> evolves out db db'"
  subgoal by (auto simp: Send_def Let_def elim!: save_from_evolves)
  subgoal by (auto simp: SaveDraft_def Let_def elim!: save_from_evolves)
  subgoal by (auto simp: Receive_def SaveMessageAudited_def elim!: evolves_ops(1))
  subgoal by (auto simp: Setup_def Let_def elim!: evolves_ops(6))
  subgoal by (auto simp: createDomain_service_def elim!: evolves_ops(7))
  subgoal by (auto simp: verifyDomain_def) (rule evolves_ops(8))
  subgoal by (auto simp: AdminView_def Let_def elim!: evolves_ops(5))
  done

section \<open>What a sent message does\<close>

definition local_users :: "db \<Rightarrow> string list \<Rightarrow> string set" where
  "local_users db rs = {i. \<exists>r \<in> set rs. \<exists>u. ResolveRecipient db r = Inr u \<and> i = u_id u}"

definition external :: "db \<Rightarrow> string \<Rightarrow> bool" where
  "external db r \<longleftrightarrow> ResolveRecipient db r = Inl ErrNotFound"

lemma route_sent_Inr:
  "route_sent db D rs = Inr (dls, q) \<Longrightarrow>
   q = filter (external db) rs \<and> (\<forall>r \<in> set rs. external db r \<or> (\<exists>u. ResolveRecipient db r = Inr u))
   \<and> dl_user_id ` set dls = local_users db rs - set D \<and> distinct (map dl_user_id dls)"
proof (induction db D rs arbitrary: dls q rule: route_sent.induct)
  case (2 db D r rs)
  show ?case
  proof (cases "ResolveRecipient db r")
    case (Inl e)
    then have e: "e = ErrNotFound" using "2.prems" by (simp split: if_splits)
    then obtain q' where q': "route_sent db D rs = Inr (dls, q')" "q = r # q'" using "2.prems" Inl by auto
    have "local_users db (r # rs) = local_users db rs" using Inl by (auto simp: local_users_def)
    with "2.IH"(1) [OF Inl _ q'(1)] e Inl q'(2) show ?thesis by (simp add: external_def)
  next
    case (Inr u)
    then have ext: "\<not> external db r" by (simp add: external_def)
    have lu: "local_users db (r # rs) = insert (u_id u) (local_users db rs)" using Inr by (auto simp: local_users_def)
    show ?thesis
    proof (cases "u_id u \<in> set D")
      case True
      then have "route_sent db D rs = Inr (dls, q)" using "2.prems" Inr by simp
      with "2.IH"(2) [OF Inr True] Inr ext lu True show ?thesis by auto
    next
      case False
      then obtain dls' where d: "route_sent db (u_id u # D) rs = Inr (dls', q)"
        "dls = \<lparr>dl_user_id = u_id u, dl_mailbox = ''INBOX'', dl_flags = []\<rparr> # dls'"
        using "2.prems" Inr by auto
      from "2.IH"(3) [OF Inr False d(1)] Inr ext lu False d(2) show ?thesis
        by (auto simp: image_iff)
    qed
  qed
qed (simp add: local_users_def)

lemma canonical_from_set:
  "set (canonical_from lib D vs) = set D \<union> {ToLower a |a. \<exists>v \<in> set vs. \<exists>n. ml_address lib v = Some (a, n)}"
proof (induction lib D vs rule: canonical_from.induct)
  case (2 lib D v vs)
  show ?case
  proof (cases "ml_address lib v")
    case None
    then show ?thesis using "2.IH" by auto
  next
    case (Some p)
    then show ?thesis using "2.IH" by (cases p) auto
  qed
qed simp

lemma composed_valid:
  assumes "composed svc now rcv req sender dir = Inr (p, atts)"
  shows "\<forall>v \<in> set (all_recipients req). \<exists>a n. ml_address (sv_mime svc) v = Some (a, n)
      \<and> ToLower a \<in> set (canonicalRecipients (sv_mime svc) (all_recipients req))"
    and "m_direction p = dir" "m_envelope_from p = normalizeAddress (sv_mime svc) sender"
    and "m_envelope_to p = normalizeAddresses (sv_mime svc) (canonicalRecipients (sv_mime svc) (all_recipients req))"
proof -
  from assms obtain raw where c: "Compose (sv_mime svc) req (Hostname (sv_config svc)) now = Inr raw"
    and parse: "Parse (sv_mime svc) rcv raw \<lparr>ve_from = sender,
        ve_to = canonicalRecipients (sv_mime svc) (all_recipients req), ve_direction = dir\<rparr> = Inr (p, atts)"
    by (auto simp: composed_def)
  have "\<forall>v \<in> set (all_recipients req). ml_address (sv_mime svc) v \<noteq> None"
    using c by (auto simp: Compose_def validateRecipients_def list_ex_iff split: option.splits if_splits)
  then show "\<forall>v \<in> set (all_recipients req). \<exists>a n. ml_address (sv_mime svc) v = Some (a, n)
      \<and> ToLower a \<in> set (canonicalRecipients (sv_mime svc) (all_recipients req))"
    by (fastforce simp: canonicalRecipients_def canonical_from_set)
  show "m_direction p = dir" "m_envelope_from p = normalizeAddress (sv_mime svc) sender"
    "m_envelope_to p = normalizeAddresses (sv_mime svc) (canonicalRecipients (sv_mime svc) (all_recipients req))"
    using parse by (auto simp: Parse_def Let_def)
qed

lemma defaultMessage_keeps:
  "m_direction (defaultMessage env m) = m_direction m" "m_envelope_from (defaultMessage env m) = m_envelope_from m"
  "m_envelope_to (defaultMessage env m) = m_envelope_to m"
  by (simp_all add: defaultMessage_def Let_def)

lemma saved_after_replacement:
  assumes "saveMessage cfg lib statfs env m0 atts dls q rep ev db = Inr (db', m)"
  shows "\<exists>db1. removeReplacedDraft rep db = Inr db1
    \<and> saveMessage cfg lib statfs env m0 atts dls q None ev db1 = Inr (db', m) \<and> m = defaultMessage env m0"
  using assms by (auto simp: saveMessage_def Let_def removeReplacedDraft_def [of None] split: option.splits)

lemma removeReplacedDraft_audit: "removeReplacedDraft rep db = Inr db1 \<Longrightarrow> audit_log db1 = audit_log db"
  by (auto simp: removeReplacedDraft_def delete_entries_def delete_messages_def Let_def
      split: option.splits prod.splits if_splits)


section \<open>An example\<close>

definition ex_entity :: mime_entity where
  "ex_entity = \<lparr>me_subject = ''hello'', me_message_id = ''id@x'', me_addresses = (\<lambda>_. None), me_date = None,
     me_references = [], me_in_reply_to = [], me_parts = []\<rparr>"

definition ex_service :: service where
  "ex_service = New_service
     \<lparr>DataDir = [], DatabasePath = [], HTTPAddr = [], HTTPSAddr = [], ACMEHTTPAddr = [], SMTPAddr = [],
      SubmissionAddr = [], SMTPSAddr = [], IMAPAddr = [], IMAPSAddr = [], Hostname = ''mail.b.io'', BaseURL = ''https://mail.b.io'',
      TLSCertPath = [], TLSKeyPath = [], AutoTLS = False, ACMEEmail = [], SetupToken = ''t'', BootstrapEmail = [],
      BootstrapPassword = [], RelayAddr = [], RelayUsername = [], RelayPassword = [], RelayImplicitTLS = False,
      DirectDelivery = False, DevMode = False, DisableMailServers = False, MaxMessageBytes = 25000, MaxArchiveBytes = 0,
      MinFreeDiskBytes = 0, SessionTTL = 7 * 24 * hour, QueuePollInterval = 30 * second, BackupTimeout = hour,
      QueueMaxAttempts = 12\<rparr>
     ex_lib None
     (ex_mime_lib\<lparr>ml_read := (\<lambda>_. Some ex_entity), ml_crypto := ex_crypto\<lparr>url64 := (\<lambda>s. s)\<rparr>\<rparr>) (\<lambda>_. None) (Some ([], []))"

definition ex_actor :: user where
  "ex_actor = (hd (users ex_db))\<lparr>u_quota_bytes := 0\<rparr>"

definition send_db :: db where
  "send_db = ex_db\<lparr>users := [ex_actor], domains := map (\<lambda>d. d\<lparr>d_status := ''verified''\<rparr>) (domains ex_db)\<rparr>"

definition send_env :: env where
  "send_env = \<lparr>clock = (\<lambda>k. 7), new_id = (\<lambda>p k. p @ replicate k (CHR ''x''))\<rparr>"

definition ex_letter :: compose_request where
  "ex_letter = ex_request\<lparr>cq_to := [''AL@b.io''], cq_bcc := [''y@c.io''], cq_reply_to := []\<rparr>"

lemma length_normalizeCRLF: "length (normalizeCRLF s) \<le> 2 * length s"
proof -
  have lf: "length (crlf_to_lf s) \<le> length s" by (induction s rule: crlf_to_lf.induct) auto
  have one: "length (ReplaceChar t CR [LF]) = length t" for t by (induction t) (auto simp: ReplaceChar_def)
  have "length (ReplaceChar t LF CRLF) \<le> 2 * length t" for t
    by (induction t) (auto simp: ReplaceChar_def)
  from this [of "ReplaceChar (crlf_to_lf s) CR [LF]"] lf show ?thesis
    unfolding normalizeCRLF_def one by linarith
qed

lemma normalizeCRLF_Nil: "normalizeCRLF s = [] \<longleftrightarrow> s = []"
proof -
  have "crlf_to_lf s = [] \<longleftrightarrow> s = []" by (induction s rule: crlf_to_lf.induct) auto
  moreover have "new \<noteq> [] \<Longrightarrow> ReplaceChar t c new = [] \<longleftrightarrow> t = []" for t c new
    by (cases t) (auto simp: ReplaceChar_def)
  ultimately show ?thesis by (simp add: normalizeCRLF_def)
qed

definition ex_mime :: mime_lib where
  "ex_mime = sv_mime ex_service"

lemma ex_mime_fields [simp]:
  "sv_mime ex_service = ex_mime" "ml_read ex_mime raw = Some ex_entity" "ml_qencode ex_mime s = s"
  "ml_date ex_mime t = ''now''" "ml_boundary ex_mime 0 = ''mixed''" "ml_header_order ex_mime = rev"
  "RandomToken (ml_crypto ex_mime) 18 = Some (replicate 18 (CHR ''r''))"
  "ml_address ex_mime s = (if ContainsChar s (CHR ''@'') \<and> list_all (\<lambda>c. c \<noteq> CR \<and> c \<noteq> LF) s then Some (s, s) else None)"
  by (simp_all add: ex_mime_def ex_service_def New_service_def ex_mime_lib_def ex_crypto_def RandomToken_def Let_def)

lemma ex_letter_fields:
  "all_recipients (ex_letter\<lparr>cq_from := s\<rparr>) = [''AL@b.io'', ''y@c.io'']"
  by (simp add: all_recipients_def ex_letter_def ex_request_def)

lemma ex_parsed:
  "raw \<noteq> [] \<Longrightarrow> \<exists>p. Parse ex_mime now raw ve = Inr (p, []) \<and> m_id p = [] \<and> m_size p = int (length raw)
     \<and> m_created p = 0 \<and> m_received p = now \<and> m_direction p = ve_direction ve"
  by (simp add: Parse_def Let_def threadKey_def ex_entity_def)

lemma ex_composed:
  "\<exists>p. composed ex_service 1 2 (ex_letter\<lparr>cq_from := ''al@b.io''\<rparr>) ''al@b.io'' ''outbound'' = Inr (p, [])
    \<and> m_id p = [] \<and> 0 < m_size p \<and> m_size p \<le> 25000 \<and> m_created p = 0 \<and> m_received p = 2 \<and> m_direction p = ''outbound''"
proof -
  let ?req = "ex_letter\<lparr>cq_from := ''al@b.io''\<rparr>"
  let ?body = "write_fields (rev (compose_fields ex_mime ?req ''al@b.io''
      (''<'' @ replicate 18 (CHR ''r'') @ ''@'' @ ''mail.b.io'' @ ''>'') 1)) @ CRLF @ write_multipart ''mixed'' [body_part ex_mime ?req]"
  let ?raw = "normalizeCRLF ?body"
  have "Hostname (sv_config ex_service) = ''mail.b.io''" "maxMessageBytes ex_service = 25000"
    by (simp_all add: ex_service_def New_service_def maxMessageBytes_def)
  moreover have "Compose ex_mime ?req ''mail.b.io'' 1 = Inr ?raw"
    unfolding Compose_def ex_letter_fields
    by (simp add: validateRecipients_def ContainsChar_def ContainsAny_def maxAttachments_def ex_request_def ex_letter_def Let_def)
  moreover have "length ?body \<le> 1000"
    by (simp add: write_fields_def compose_fields_def ex_request_def ex_letter_def quoted_def body_part_def text_part_def
        write_part_def ReplaceChar_def formatAddressHeader_def List.map_filter_def ContainsChar_def Let_def)
  then have "length ?raw \<le> 25000" using length_normalizeCRLF [of ?body] by linarith
  moreover have "?raw \<noteq> []" by (simp add: normalizeCRLF_Nil)
  moreover have "0 < length ?raw" using \<open>?raw \<noteq> []\<close> by blast
  moreover obtain p where "Parse ex_mime 2 ?raw \<lparr>ve_from = ''al@b.io'',
      ve_to = canonicalRecipients ex_mime (all_recipients ?req), ve_direction = ''outbound''\<rparr> = Inr (p, [])"
    "m_id p = []" "m_size p = int (length ?raw)" "m_created p = 0" "m_received p = 2" "m_direction p = ''outbound''" using ex_parsed [OF \<open>?raw \<noteq> []\<close>] by fastforce
  ultimately show ?thesis unfolding composed_def by (intro exI [of _ p]) (simp del: write_multipart.simps)
qed

lemma ex_sent:
  "\<exists>db' m. Send ex_service send_env 1 2 ex_actor ex_letter ''ip'' send_db = Inr (db', m)"
proof -
  obtain p where p: "composed ex_service 1 2 (ex_letter\<lparr>cq_from := ''al@b.io''\<rparr>) ''al@b.io'' ''outbound'' = Inr (p, [])"
    "m_id p = []" "0 < m_size p" "m_size p \<le> 25000" "m_created p = 0" "m_received p = 2" "m_direction p = ''outbound''" using ex_composed by blast
  have actor: "u_email ex_actor = ''al@b.io''" "u_id ex_actor = ''usrAA''" by (simp_all add: ex_actor_def ex_db_def)
  have lower: "ToLower ''AL@b.io'' = ''al@b.io''" "ToLower ''y@c.io'' = ''y@c.io''" by code_simp+
  have rs: "canonicalRecipients ex_mime [''AL@b.io'', ''y@c.io''] = [''al@b.io'', ''y@c.io'']"
    by (simp add: canonicalRecipients_def ContainsChar_def lower)
  have route: "route_sent send_db [] [''al@b.io'', ''y@c.io'']
      = Inr ([\<lparr>dl_user_id = ''usrAA'', dl_mailbox = ''INBOX'', dl_flags = []\<rparr>], [''y@c.io''])" by code_simp
  have domain: "check_sender_domain ex_service ex_actor [''y@c.io''] send_db = Inr ()" by code_simp
  have svc: "sv_limits ex_service = ex_config" "sv_sql ex_service = ex_lib" "sv_statfs ex_service = None"
    by (simp_all add: ex_service_def New_service_def ex_config_def)
  let ?m = "p\<lparr>m_status := ''queued''\<rparr>"
  have draft: "cq_draft_id ex_letter = []" by (simp add: ex_letter_def ex_request_def)
  have size: "m_size p \<noteq> 0" "\<not> m_size p < 0" using p(3) by simp_all
  have names: "EqualFold ''INBOX'' ''Sent'' = False" "EqualFold ''Drafts'' ''Sent'' = False" by code_simp+
  have "\<exists>d x. saveMessage ex_config ex_lib None send_env ?m []
     [\<lparr>dl_user_id = ''usrAA'', dl_mailbox = ''Sent'', dl_flags = [Seen]\<rparr>, \<lparr>dl_user_id = ''usrAA'', dl_mailbox = ''INBOX'', dl_flags = []\<rparr>]
     [''y@c.io''] None (Some (submit_event ex_actor ''message.submit'' ''ip'')) send_db = Inr (d, x)"
    using size
    by (simp add: saveMessage_def defaultMessage_def p(2,5-7) Let_def mapSQLError_def ensureDiskReserve_def ex_config_def removeReplacedDraft_def
      checkArchive_def checkQuotas_def checkQuota_def ex_actor_def send_db_def ex_db_def insert_message_def message_exists_def
      ex_message_def send_env_def saveDelivery_def saveMailboxEntry_def mailbox_named_def ex_mailbox_def names insert_entry_def
      user_exists_def empty_db_def bump_uid_def update_where_def enqueue_def insert_queue_def audit_if_def insertAudit_def
      audit_row_def insert_audit_row_def submit_event_def)
  then show ?thesis
    unfolding Send_def Let_def actor
    by (simp add: p(1) ex_letter_fields rs route domain save_from_def SaveMessageAudited_def svc draft
        del: route_sent.simps)
qed


end
