(* ===== verification/StoreReads.thy ===== *)
theory StoreReads
  imports MailboxOps AuditLog QueueStore GoText "HOL-Library.Multiset"
begin

text \<open>
  The remaining queries of \<open>internal/store\<close>: lists of messages (\<open>mail.go\<close>), the counters of
  \<open>audit.go\<close> and the DNS records of \<open>domains.go\<close>. The full-text index is the parameter \<open>fts\<close>, which says
  whether a query matches a message.
\<close>

section \<open>LIKE\<close>

text \<open>
  SQLite's LIKE with the backslash as escape character, on bytes, without regard to ASCII case.
\<close>

datatype like_token = Any | One | Lit char

fun like_tokens :: "string \<Rightarrow> like_token list" where
  "like_tokens [] = []"
| "like_tokens [c] = [if c = CHR ''%'' then Any else if c = CHR ''_'' then One else Lit c]"
| "like_tokens (c # d # s) =
     (if c = CHR 0x5C then Lit d # like_tokens s
      else (if c = CHR ''%'' then Any else if c = CHR ''_'' then One else Lit c) # like_tokens (d # s))"

fun like_match :: "like_token list \<Rightarrow> string \<Rightarrow> bool" where
  "like_match [] s = (s = [])"
| "like_match (Lit c # ts) s = (case s of [] \<Rightarrow> False | x # xs \<Rightarrow> lower_char c = lower_char x \<and> like_match ts xs)"
| "like_match (One # ts) s = (case s of [] \<Rightarrow> False | x # xs \<Rightarrow> like_match ts xs)"
| "like_match (Any # ts) [] = like_match ts []"
| "like_match (Any # ts) (x # xs) = (like_match ts (x # xs) \<or> like_match (Any # ts) xs)"

definition LIKE :: "string \<Rightarrow> string \<Rightarrow> bool" where
  "LIKE s pat = like_match (like_tokens pat) s"

definition escapeLike :: "string \<Rightarrow> string" where
  "escapeLike v =
     ReplaceChar (ReplaceChar (ReplaceChar v (CHR 0x5C) [CHR 0x5C, CHR 0x5C]) (CHR ''%'') [CHR 0x5C, CHR ''%''])
       (CHR ''_'') [CHR 0x5C, CHR ''_'']"

definition ftsQuery :: "string \<Rightarrow> string" where
  "ftsQuery v =
     (let quoted = map (\<lambda>w. [CHR 0x22] @ ReplaceChar w (CHR 0x22) [CHR 0x22, CHR 0x22] @ [CHR 0x22] @ ''*'') (Fields v)
      in if quoted = [] then [CHR 0x22, CHR 0x22] else Join quoted '' AND '')"

section \<open>Lists of messages\<close>

record message_query =
  mq_user_id :: string
  mq_mailbox :: string
  mq_search :: string
  mq_limit :: int
  mq_offset :: int
  mq_admin :: bool

text \<open>What every list leaves out, and what the archive leaves out besides.\<close>

definition without_content :: "user_message \<Rightarrow> user_message" where
  "without_content v = v\<lparr>m_text := [], m_html := [], m_raw := [], m_envelope_to := [], m_bcc := []\<rparr>"

definition archive_match :: "sql_lib \<Rightarrow> string \<Rightarrow> message \<Rightarrow> bool" where
  "archive_match lib search m =
     (let pat = ''%'' @ escapeLike (ToLower (TrimSpace search)) @ ''%''
      in LIKE (ToLower (m_subject m)) pat \<or> LIKE (ToLower (m_from m)) pat
         \<or> LIKE (ToLower (json_list lib (m_to m))) pat \<or> LIKE (ToLower (json_list lib (m_cc m))) pat)"

definition mailbox_filter :: "sql_lib \<Rightarrow> db \<Rightarrow> string \<Rightarrow> mailbox_entry \<Rightarrow> bool" where
  "mailbox_filter lib db mailbox e =
     (if mailbox = ''Starred''
      then Contains (ToLower (json_list lib (e_flags e))) ([CHR 0x5C, CHR 0x5C] @ ''flagged'')
      else mailbox = [] \<or> EqualFold (mailbox_name_of db (e_mailbox_id e)) mailbox)"

definition query_page :: "message_query \<Rightarrow> 'a list \<Rightarrow> 'a list" where
  "query_page q rows =
     (let limit = (if mq_limit q < 1 \<or> mq_limit q > 200 then 50 else mq_limit q);
          offset = (if mq_offset q < 0 then 0 else mq_offset q)
      in take (nat limit) (drop (nat offset) rows))"

definition ListMessages :: "sql_lib \<Rightarrow> (string \<Rightarrow> message \<Rightarrow> bool) \<Rightarrow> db \<Rightarrow> message_query \<Rightarrow> user_message list" where
  "ListMessages lib fts db q =
     (let searching = (TrimSpace (mq_search q) \<noteq> [])
      in if mq_admin q
         then map (\<lambda>m. (without_content (admin_view m))\<lparr>m_snippet := []\<rparr>)
                (query_page q (rev (sort_key (\<lambda>m. (m_created m, m_id m))
                  (filter (\<lambda>m. m_direction m \<noteq> ''draft'' \<and> (searching \<longrightarrow> archive_match lib (mq_search q) m)) (messages db)))))
         else map (\<lambda>(e, m). without_content (user_view db e m))
                (query_page q (rev (sort_key (\<lambda>(e, m). (m_received m, e_id e))
                  (filter (\<lambda>(e, m). e_user_id e = mq_user_id q \<and> e_expunged e = None
                      \<and> mailbox_filter lib db (mq_mailbox q) e
                      \<and> (searching \<longrightarrow> fts (ftsQuery (mq_search q)) m)) (joined db))))))"

section \<open>Counters and DNS records\<close>

record system_stats =
  st_domains :: int
  st_users :: int
  st_active_users :: int
  st_messages :: int
  st_user_copies :: int
  st_archived_bytes :: int
  st_estimated_bytes :: int
  st_queued :: int
  st_failed :: int

definition Stats :: "sql_lib \<Rightarrow> db \<Rightarrow> system_stats" where
  "Stats lib db =
     \<lparr>st_domains = int (length (domains db)), st_users = int (length (users db)),
      st_active_users = int (count_where (\<lambda>u. u_status u = StatusActive) (users db)),
      st_messages = int (count_where (\<lambda>m. m_direction m \<noteq> ''draft'') (messages db)),
      st_user_copies = int (count_where (\<lambda>e. e_expunged e = None) (entries db)),
      st_archived_bytes = sum_list (map m_size (filter (\<lambda>m. m_direction m \<noteq> ''draft'') (messages db))),
      st_estimated_bytes = archiveStorage lib db,
      st_queued = int (count_where (\<lambda>q. q_status q = Queued \<or> q_status q = Delivering) (queue db)),
      st_failed = int (count_where (\<lambda>q. q_status q = Failed) (queue db))\<rparr>"

record dns_record =
  dr_type :: string
  dr_host :: string
  dr_value :: string
  dr_purpose :: string

definition DNSExpectedRecords :: "domain \<Rightarrow> string \<Rightarrow> dns_record list" where
  "DNSExpectedRecords d hostname =
     map (\<lambda>(t, h, v, p). \<lparr>dr_type = t, dr_host = h, dr_value = v, dr_purpose = p\<rparr>)
     [(''A/AAAA'', hostname, ''<your-server-public-IP>'', ''mail server address''),
      (''MX'', d_name d, ''10 '' @ hostname @ ''.'', ''inbound mail routing''),
      (''TXT'', d_name d, ''v=spf1 mx -all'', ''SPF sender policy''),
      (''TXT'', d_selector d @ ''._domainkey.'' @ d_name d, ''v=DKIM1; k=rsa; p='' @ d_public_key d, ''DKIM public key''),
      (''TXT'', ''_dmarc.'' @ d_name d,
         ''v=DMARC1; p=none; rua=mailto:dmarc@'' @ d_name d @ ''; adkim=r; aspf=r'', ''DMARC policy''),
      (''TXT'', ''_brclio-mail.'' @ d_name d, d_verification d, ''domain ownership''),
      (''PTR'', ''<your-server-public-IP>'', hostname, ''reverse DNS; configure with hosting provider''),
      (''TXT'', ''_smtp._tls.'' @ d_name d, ''v=TLSRPTv1; rua=mailto:tlsrpt@'' @ d_name d, ''TLS aggregate reports''),
      (''SRV'', ''_submission._tcp.'' @ d_name d, ''0 1 587 '' @ hostname @ ''.'', ''mail client submission discovery''),
      (''SRV'', ''_imaps._tcp.'' @ d_name d, ''0 1 993 '' @ hostname @ ''.'', ''mail client IMAPS discovery'')]"

section \<open>Searching the archive\<close>

definition like_escape :: "char \<Rightarrow> string" where
  "like_escape c = (if c \<in> {CHR 0x5C, CHR ''%'', CHR ''_''} then [CHR 0x5C, c] else [c])"

lemma escapeLike_concat: "escapeLike v = concat (map like_escape v)"
proof -
  have one: "ReplaceChar (ReplaceChar (ReplaceChar [c] (CHR 0x5C) [CHR 0x5C, CHR 0x5C]) (CHR ''%'') [CHR 0x5C, CHR ''%''])
      (CHR ''_'') [CHR 0x5C, CHR ''_''] = like_escape c" for c
    by (auto simp: ReplaceChar_def like_escape_def)
  have app: "ReplaceChar (s @ t) c new = ReplaceChar s c new @ ReplaceChar t c new" for s t c new
    by (simp add: ReplaceChar_def)
  show ?thesis
  proof (induction v)
    case Nil
    show ?case by (simp add: escapeLike_def ReplaceChar_def)
  next
    case (Cons c v)
    have "escapeLike ([c] @ v) = like_escape c @ escapeLike v"
      by (simp only: escapeLike_def app one)
    then show ?case using Cons by simp
  qed
qed

lemma like_tokens_escaped: "like_tokens (like_escape c @ s) = Lit c # like_tokens s"
  by (cases s) (auto simp: like_escape_def)

lemma like_tokens_escapeLike: "like_tokens (escapeLike w @ ''%'') = map Lit w @ [Any]"
  unfolding escapeLike_concat by (induction w) (simp_all add: like_tokens_escaped)

lemma like_tokens_pattern: "like_tokens (''%'' @ escapeLike w @ ''%'') = Any # map Lit w @ [Any]"
proof -
  have "like_tokens (CHR ''%'' # s) = Any # like_tokens s" for s by (cases s) simp_all
  then show ?thesis by (simp add: like_tokens_escapeLike)
qed

lemma like_match_Any: "like_match (Any # ts) s \<longleftrightarrow> (\<exists>a b. s = a @ b \<and> like_match ts b)"
proof (induction s)
  case (Cons x xs)
  show ?case
  proof
    assume "like_match (Any # ts) (x # xs)"
    then show "\<exists>a b. x # xs = a @ b \<and> like_match ts b"
      using Cons by (metis append_Cons append_Nil like_match.simps(5))
  next
    assume "\<exists>a b. x # xs = a @ b \<and> like_match ts b"
    then obtain a b where "x # xs = a @ b" "like_match ts b" by blast
    then show "like_match (Any # ts) (x # xs)" using Cons by (cases a) auto
  qed
qed simp

lemma like_match_prefix: "like_match (map Lit w @ [Any]) s \<longleftrightarrow> (\<exists>t. ToLower s = ToLower w @ t)"
proof (induction w arbitrary: s)
  case Nil
  show ?case by (auto simp: like_match_Any)
next
  case (Cons c w)
  then show ?case by (cases s) (auto simp: ToLower_def)
qed

text \<open>The escaped pattern finds exactly the texts that contain the search text, in any case.\<close>

lemma LIKE_substring: "LIKE s (''%'' @ escapeLike w @ ''%'') \<longleftrightarrow> sublist (ToLower w) (ToLower s)"
proof
  assume "LIKE s (''%'' @ escapeLike w @ ''%'')"
  then obtain a b t where "s = a @ b" "ToLower b = ToLower w @ t"
    unfolding LIKE_def like_tokens_pattern like_match_Any like_match_prefix by blast
  then show "sublist (ToLower w) (ToLower s)" by (auto simp: sublist_def)
next
  assume "sublist (ToLower w) (ToLower s)"
  then obtain a t where s: "ToLower s = a @ ToLower w @ t" by (auto simp: sublist_def)
  have "s = take (length a) s @ drop (length a) s" by simp
  moreover have "ToLower (drop (length a) s) = ToLower w @ t"
    using arg_cong [OF s, of "drop (length a)"] by (simp add: ToLower_def drop_map)
  ultimately show "LIKE s (''%'' @ escapeLike w @ ''%'')"
    unfolding LIKE_def like_tokens_pattern like_match_Any like_match_prefix by blast
qed

definition metadata_contains :: "sql_lib \<Rightarrow> string \<Rightarrow> message \<Rightarrow> bool" where
  "metadata_contains lib w m \<longleftrightarrow>
     (\<exists>s \<in> {m_subject m, m_from m, json_list lib (m_to m), json_list lib (m_cc m)}. sublist (ToLower w) (ToLower s))"

lemma archive_match_iff: "archive_match lib search m \<longleftrightarrow> metadata_contains lib (TrimSpace search) m"
  unfolding archive_match_def Let_def LIKE_substring metadata_contains_def by simp

text \<open>
  the archive that administrators list has no content in it, whatever they search for: its pages
  are, newest first, exactly the messages that are not drafts and whose subject, sender or recipients
  contain the search text, without text, snippet, raw message, envelope and Bcc recipients.
\<close>

theorem archive_listing_metadata_only:
  assumes "mq_admin q" and "ListMessages lib fts db q = vs"
  shows "\<exists>ms. vs = map (\<lambda>m. (without_content (admin_view m))\<lparr>m_snippet := []\<rparr>) (query_page q ms)
    \<and> mset ms = filter_mset (\<lambda>m. m_direction m \<noteq> ''draft''
        \<and> (TrimSpace (mq_search q) = [] \<or> metadata_contains lib (TrimSpace (mq_search q)) m)) (mset (messages db))
    \<and> sorted_wrt (\<lambda>a b. m_created b \<le> m_created a) ms
    \<and> (\<forall>v \<in> set vs. m_text v = [] \<and> m_html v = [] \<and> m_snippet v = [] \<and> m_raw v = []
         \<and> m_envelope_to v = [] \<and> m_bcc v = [])"
proof -
  let ?ok = "\<lambda>m. m_direction m \<noteq> ''draft'' \<and> (TrimSpace (mq_search q) \<noteq> [] \<longrightarrow> archive_match lib (mq_search q) m)"
  define ms where "ms = rev (sort_key (\<lambda>m. (m_created m, m_id m)) (filter ?ok (messages db)))"
  have vs: "vs = map (\<lambda>m. (without_content (admin_view m))\<lparr>m_snippet := []\<rparr>) (query_page q ms)"
    using assms by (simp add: ListMessages_def Let_def ms_def)
  have "mset ms = filter_mset ?ok (mset (messages db))" by (simp add: ms_def mset_filter)
  also have "\<dots> = filter_mset (\<lambda>m. m_direction m \<noteq> ''draft''
        \<and> (TrimSpace (mq_search q) = [] \<or> metadata_contains lib (TrimSpace (mq_search q)) m)) (mset (messages db))"
    by (rule filter_mset_cong) (auto simp: archive_match_iff)
  finally have m: "mset ms = filter_mset (\<lambda>m. m_direction m \<noteq> ''draft''
        \<and> (TrimSpace (mq_search q) = [] \<or> metadata_contains lib (TrimSpace (mq_search q)) m)) (mset (messages db))" .
  have "sorted (map (\<lambda>m. (m_created m, m_id m)) (rev ms))" by (simp add: ms_def)
  then have "sorted_wrt (\<lambda>a b. m_created b \<le> m_created a) ms"
    by (auto simp: sorted_map sorted_wrt_rev elim!: sorted_wrt_mono_rel [rotated])
  moreover have "\<forall>v \<in> set vs. m_text v = [] \<and> m_html v = [] \<and> m_snippet v = [] \<and> m_raw v = []
         \<and> m_envelope_to v = [] \<and> m_bcc v = []"
    by (auto simp: vs without_content_def)
  ultimately show ?thesis using vs m by blast
qed

definition archive_query :: message_query where
  "archive_query = \<lparr>mq_user_id = [], mq_mailbox = [], mq_search = ''50%'', mq_limit = 10, mq_offset = 0, mq_admin = True\<rparr>"

definition listed_message :: "string \<Rightarrow> string \<Rightarrow> message" where
  "listed_message i subject = \<lparr>m_id = i, m_rfc_id = [], m_thread_key = [], m_envelope_from = [], m_envelope_to = [''al''],
     m_from = ''x'', m_to = [], m_cc = [], m_bcc = [], m_reply_to = [], m_subject = subject, m_text = ''t'',
     m_html = [], m_snippet = ''t'', m_raw = ''raw'', m_size = 3, m_attachment_count = 0, m_direction = ''inbound'',
     m_status = ''received'', m_sent = None, m_received = 5, m_created = 5\<rparr>"

theorem archive_listing_metadata_only_witness:
  "(let db = empty_db\<lparr>messages := [listed_message ''a'' ''50% off'', listed_message ''b'' ''500 on'']\<rparr>;
        vs = ListMessages \<lparr>sql_length = (\<lambda>s. int (length s)), json_list = concat\<rparr> (\<lambda>_ _. True) db archive_query
    in map m_id vs = [''a''] \<and> map m_raw vs = [[]])"
proof -
  define vs where "vs = ListMessages \<lparr>sql_length = (\<lambda>s. int (length s)), json_list = concat\<rparr> (\<lambda>_ _. True)
     (empty_db\<lparr>messages := [listed_message ''a'' ''50% off'', listed_message ''b'' ''500 on'']\<rparr>) archive_query"
  have ids: "map m_id vs = [''a'']" unfolding vs_def by code_simp
  have "mq_admin archive_query" by (simp add: archive_query_def)
  from archive_listing_metadata_only [OF this vs_def [symmetric]]
  have "\<forall>v \<in> set vs. m_raw v = []" by blast
  with ids show ?thesis unfolding Let_def vs_def [symmetric] by (cases vs) auto
qed

end
