(* ===== verification/HttpServer.thy ===== *)
theory HttpServer
  imports MailService StoreReads "HOL-Library.Finite_Map"
begin

text \<open>
  \<open>internal/httpapi/server.go\<close>: requests and responses, routing, the checks before a handler (origin of the
  request, session, role), errors, and the limiter of logins and setups. The JSON decoders, \<open>url.Parse\<close>,
  \<open>net.SplitHostPort\<close> and file sizes are the fields of \<open>http_lib\<close>.
\<close>

section \<open>Requests and responses\<close>

text \<open>The path is its segments, as the multiplexer takes it apart; a trailing slash is an empty last segment.\<close>

record http_request =
  rq_method :: string
  rq_path :: "string list"
  rq_query :: "string \<Rightarrow> string"
  rq_header :: "string \<Rightarrow> string"
  rq_cookie :: "string option"
  rq_remote_addr :: string
  rq_body :: string

datatype http_body =
    ErrorBody string
  | HealthBody string string
  | StatusBody string bool bool bool string string string
  | SetupBody user domain
  | UserBody user
  | MeBody user string
  | OkBody
  | MailboxesBody "mailbox_summary list"
  | MessagesBody "user_message list" int bool
  | MessageBody user_message "attachment list"
  | AttachmentBody attachment
  | FlagsBody "string list"
  | SavedBody message
  | AppPasswordsBody "app_password list"
  | AppPasswordBody app_password string
  | StatsBody system_stats int int "int \<times> int \<times> int"
  | DomainsBody "domain list"
  | DomainBody domain "dns_record list"
  | VerifiedBody domain
  | UsersBody "user list"
  | AliasesBody "(alias_row \<times> string) list"
  | AliasBody alias_row
  | QueueBody "queue_item list"
  | AuditBody "(audit_event \<times> string) list" int bool
  | StaticBody string
  | MuxBody

text \<open>A session cookie that is set, with its value, expiry and the \<open>Secure\<close> attribute, or cleared.\<close>

datatype cookie_action = SetCookie string time bool | ClearCookie bool

record http_response =
  rs_status :: nat
  rs_cookie :: "cookie_action option"
  rs_body :: http_body

definition reply :: "nat \<Rightarrow> http_body \<Rightarrow> http_response" where
  "reply status body = \<lparr>rs_status = status, rs_cookie = None, rs_body = body\<rparr>"

definition writeError :: "nat \<Rightarrow> string \<Rightarrow> http_response" where
  "writeError status code = reply status (ErrorBody code)"

record create_user_request =
  cu_email :: string
  cu_display_name :: string
  cu_password :: string
  cu_role :: string
  cu_quota_bytes :: int

record update_user_request =
  uu_display_name :: "string option"
  uu_status :: "string option"
  uu_role :: "string option"
  uu_quota_bytes :: "int option"
  uu_password :: "string option"

record http_lib =
  hl_split_host_port :: "string \<Rightarrow> (string \<times> string) option"
  hl_url :: "string \<Rightarrow> (string \<times> string \<times> string) option"
  hl_fts :: "string \<Rightarrow> message \<Rightarrow> bool"
  hl_quote :: "string \<Rightarrow> string"
  hl_list_metadata :: "string \<Rightarrow> int \<Rightarrow> nat \<Rightarrow> string"
  hl_file_size :: "string \<Rightarrow> int option"
  hl_setup :: "string \<Rightarrow> setup_request option"
  hl_login :: "string \<Rightarrow> (string \<times> string) option"
  hl_field :: "string \<Rightarrow> string \<Rightarrow> string option"
  hl_flags :: "string \<Rightarrow> (bool option \<times> bool option \<times> bool option) option"
  hl_compose :: "string \<Rightarrow> compose_request option"
  hl_draft :: "string \<Rightarrow> (string \<times> compose_request) option"
  hl_create_user :: "string \<Rightarrow> create_user_request option"
  hl_update_user :: "string \<Rightarrow> update_user_request option"
  hl_alias :: "string \<Rightarrow> (string \<times> string) option"
  hl_empty :: "string \<Rightarrow> unit option"

text \<open>
  One request meets the server with its libraries, and the surroundings of its store calls: \<open>he_store k\<close>
  for the \<open>k\<close>-th one, \<open>he_now\<close> for the clock of the handler, \<open>he_token\<close> for a domain's token.
\<close>

record http_server =
  hs_service :: service
  hs_lib :: http_lib
  hs_version :: string
  hs_sqlite_version :: string
  hs_static :: "(http_request \<Rightarrow> nat \<times> string) option"

record http_env =
  he_store :: "nat \<Rightarrow> env"
  he_now :: time
  he_token :: string

abbreviation hs_config :: "http_server \<Rightarrow> server_config" where
  "hs_config srv \<equiv> sv_config (hs_service srv)"

abbreviation hs_crypto :: "http_server \<Rightarrow> crypto" where
  "hs_crypto srv \<equiv> sv_crypto (hs_service srv)"

section \<open>Errors\<close>

definition handleStoreError :: "store_error \<Rightarrow> http_response" where
  "handleStoreError e =
     (case e of
        ErrNotFound \<Rightarrow> writeError 404 ''not_found''
      | ErrConflict \<Rightarrow> writeError 409 ''conflict''
      | ErrForbidden \<Rightarrow> writeError 403 ''forbidden''
      | ErrQuotaExceeded \<Rightarrow> writeError 507 ''quota_exceeded''
      | ErrArchiveFull \<Rightarrow> writeError 507 ''archive_full''
      | ErrAuditFailed \<Rightarrow> writeError 500 ''audit_unavailable''
      | ErrResourceLimit \<Rightarrow> writeError 507 ''resource_limit''
      | ErrDomainUnverified \<Rightarrow> writeError 409 ''domain_unverified''
      | _ \<Rightarrow> writeError 400 ''request_failed'')"

text \<open>A panic is answered by \<open>recoverer\<close>.\<close>

definition service_error_reply :: "service_error \<Rightarrow> http_response" where
  "service_error_reply e = (case e of Failed s \<Rightarrow> handleStoreError s | Panicked \<Rightarrow> writeError 500 ''internal_error'')"

definition store_res :: "store_error + 'a \<Rightarrow> http_response + 'a" where
  "store_res r = (case r of Inl e \<Rightarrow> Inl (handleStoreError e) | Inr v \<Rightarrow> Inr v)"

definition service_res :: "service_error + 'a \<Rightarrow> http_response + 'a" where
  "service_res r = (case r of Inl e \<Rightarrow> Inl (service_error_reply e) | Inr v \<Rightarrow> Inr v)"

lemma res_Inr [simp]: "store_res r = Inr v \<longleftrightarrow> r = Inr v" "service_res s = Inr v \<longleftrightarrow> s = Inr v"
  by (auto simp: store_res_def service_res_def split: sum.splits)

lemma res_simps [simp]: "store_res (Inr v) = Inr v" "service_res (Inr v) = Inr v"
  by (simp_all add: store_res_def service_res_def)

text \<open>The body must be one JSON object within the limit.\<close>

definition decodeJSON :: "(string \<Rightarrow> 'a option) \<Rightarrow> http_request \<Rightarrow> int \<Rightarrow> http_response + 'a" where
  "decodeJSON decode r maxBytes0 =
     (let maxBytes = (if maxBytes0 \<le> 0 then 1024 * 1024 else maxBytes0)
      in of_option (writeError 400 ''invalid_json'')
           (if int (length (rq_body r)) > maxBytes then None else decode (rq_body r)))"

section \<open>Helpers\<close>

definition clientIP :: "http_server \<Rightarrow> http_request \<Rightarrow> string" where
  "clientIP srv r =
     (case hl_split_host_port (hs_lib srv) (rq_remote_addr r) of Some (host, _) \<Rightarrow> host | None \<Rightarrow> rq_remote_addr r)"

definition clampInt :: "int \<Rightarrow> int \<Rightarrow> int \<Rightarrow> int" where
  "clampInt v lo hi = (if v < lo then lo else if v > hi then hi else v)"

text \<open>\<open>fmt.Sscanf(value, "%d", &result)\<close>\<close>

definition parseInt :: "string \<Rightarrow> int \<Rightarrow> int" where
  "parseInt v fallback =
     (let t = dropWhile (\<lambda>c. is_space c \<and> c \<noteq> LF) v;
          sign = (if take 1 t \<in> {''-'', ''+''} then take 1 t else []);
          digits = takeWhile is_digit (drop (length sign) t)
      in case ParseInt (sign @ digits) of Some n \<Rightarrow> n | None \<Rightarrow> fallback)"

definition secure_cookie :: "http_server \<Rightarrow> bool" where
  "secure_cookie srv \<longleftrightarrow> HasPrefix (ToLower (BaseURL (hs_config srv))) ''https://'' \<and> \<not> DevMode (hs_config srv)"

definition setSessionCookie :: "http_server \<Rightarrow> string \<Rightarrow> time \<Rightarrow> http_response \<Rightarrow> http_response" where
  "setSessionCookie srv token expires resp = resp\<lparr>rs_cookie := Some (SetCookie token expires (secure_cookie srv))\<rparr>"

definition clearSessionCookie :: "http_server \<Rightarrow> http_response \<Rightarrow> http_response" where
  "clearSessionCookie srv resp = resp\<lparr>rs_cookie := Some (ClearCookie (secure_cookie srv))\<rparr>"

text \<open>The headers of every response.\<close>

definition securityHeaders :: "http_server \<Rightarrow> http_request \<Rightarrow> (string \<times> string) list" where
  "securityHeaders srv r =
     [(''X-Content-Type-Options'', ''nosniff''), (''X-Frame-Options'', ''DENY''), (''Referrer-Policy'', ''same-origin''),
      (''Permissions-Policy'', ''camera=(), microphone=(), geolocation=()''),
      (''Cross-Origin-Opener-Policy'', ''same-origin''), (''Cross-Origin-Resource-Policy'', ''same-origin'')]
     @ (if secure_cookie srv then [(''Strict-Transport-Security'', ''max-age=31536000'')] else [])
     @ (case rq_path r of p # _ # _ \<Rightarrow> if p = ''api'' then [(''Cache-Control'', ''no-store'')] else [] | _ \<Rightarrow> [])
     @ [(''Content-Security-Policy'', ''default-src 'self'; img-src 'self' data: blob:; style-src 'self'; script-src 'self'; connect-src 'self'; frame-src 'none'; object-src 'none'; base-uri 'self'; form-action 'self'; frame-ancestors 'none'' @ [CHR 0x27])]"

section \<open>The origin of a request\<close>

definition origin_allowed :: "http_server \<Rightarrow> string \<Rightarrow> bool" where
  "origin_allowed srv origin =
     (case hl_url (hs_lib srv) origin of
        None \<Rightarrow> False
      | Some (scheme, host, hostname) \<Rightarrow>
          (case hl_url (hs_lib srv) (BaseURL (hs_config srv)) of
             None \<Rightarrow> False
           | Some (base_scheme, base_host, _) \<Rightarrow> EqualFold scheme base_scheme \<and> EqualFold host base_host)
          \<or> DevMode (hs_config srv) \<and> (hostname = ''localhost'' \<or> hostname = ''127.0.0.1''))"

definition csrf :: "http_server \<Rightarrow> http_request \<Rightarrow> http_response option" where
  "csrf srv r =
     (if rq_method r \<in> {''GET'', ''HEAD'', ''OPTIONS''} then None
      else if \<not> HasPrefix (rq_header r ''Content-Type'') ''application/json'' then Some (writeError 415 ''json_required'')
      else if rq_header r ''Origin'' \<noteq> [] \<and> \<not> origin_allowed srv (rq_header r ''Origin'')
      then Some (writeError 403 ''origin_rejected'') else None)"

section \<open>Routing\<close>

datatype endpoint =
    Health | StatusPage | SetupPage | Login | Logout | Me | Mailboxes | Messages | OneMessage string | OneAttachment string
  | Flags string | Move string | Expunge string | ComposePage | DraftPage | AppPasswords | NewAppPassword
  | DeleteAppPassword string
  | AdminStats | AdminDomains | AdminCreateDomain | AdminDomainDNS string | AdminDomainVerify string | AdminUsers
  | AdminCreateUser | AdminUpdateUser string | AdminAliases | AdminCreateAlias | AdminArchive | AdminArchiveView string
  | AdminAttachment string string | AdminQueue | AdminAudit
  | Static

definition is_get :: "string \<Rightarrow> bool" where
  "is_get m \<longleftrightarrow> m = ''GET'' \<or> m = ''HEAD''"

text \<open>The patterns below \<open>/api/admin\<close>, the other patterns, and the static files for everything else.\<close>

definition route_admin :: "string \<Rightarrow> string list \<Rightarrow> endpoint" where
  "route_admin m path =
     (case path of
        [a] \<Rightarrow>
          (if is_get m then
             (if a = ''stats'' then AdminStats else if a = ''domains'' then AdminDomains
              else if a = ''users'' then AdminUsers else if a = ''aliases'' then AdminAliases
              else if a = ''archive'' then AdminArchive else if a = ''queue'' then AdminQueue
              else if a = ''audit'' then AdminAudit else Static)
           else if m = ''POST'' then
             (if a = ''domains'' then AdminCreateDomain else if a = ''users'' then AdminCreateUser
              else if a = ''aliases'' then AdminCreateAlias else Static)
           else Static)
      | [a, i] \<Rightarrow> if m = ''PATCH'' \<and> a = ''users'' then AdminUpdateUser i else Static
      | [a, i, b] \<Rightarrow>
          (if is_get m \<and> a = ''domains'' \<and> b = ''dns'' then AdminDomainDNS i
           else if m = ''POST'' \<and> a = ''domains'' \<and> b = ''verify'' then AdminDomainVerify i
           else if m = ''POST'' \<and> a = ''archive'' \<and> b = ''view'' then AdminArchiveView i else Static)
      | [a, i, b, j] \<Rightarrow>
          (if m = ''POST'' \<and> a = ''archive'' \<and> b = ''attachments'' then AdminAttachment i j else Static)
      | _ \<Rightarrow> Static)"

definition route_api :: "string \<Rightarrow> string list \<Rightarrow> endpoint" where
  "route_api m path =
     (case path of
        [a] \<Rightarrow>
          (if is_get m then
             (if a = ''status'' then StatusPage else if a = ''me'' then Me else if a = ''mailboxes'' then Mailboxes
              else if a = ''messages'' then Messages else if a = ''app-passwords'' then AppPasswords else Static)
           else if m = ''POST'' then
             (if a = ''setup'' then SetupPage else if a = ''compose'' then ComposePage
              else if a = ''drafts'' then DraftPage else if a = ''app-passwords'' then NewAppPassword else Static)
           else Static)
      | [a, i] \<Rightarrow>
          (if m = ''POST'' \<and> a = ''auth'' \<and> i = ''login'' then Login
           else if m = ''POST'' \<and> a = ''auth'' \<and> i = ''logout'' then Logout
           else if is_get m \<and> a = ''messages'' then OneMessage i
           else if is_get m \<and> a = ''attachments'' then OneAttachment i
           else if m = ''DELETE'' \<and> a = ''app-passwords'' then DeleteAppPassword i
           else if a = ''admin'' then route_admin m [i] else Static)
      | [a, i, b] \<Rightarrow>
          (if m = ''POST'' \<and> a = ''messages'' \<and> b = ''flags'' then Flags i
           else if m = ''POST'' \<and> a = ''messages'' \<and> b = ''move'' then Move i
           else if m = ''POST'' \<and> a = ''messages'' \<and> b = ''expunge'' then Expunge i
           else if a = ''admin'' then route_admin m [i, b] else Static)
      | a # rest \<Rightarrow> if a = ''admin'' then route_admin m rest else Static
      | [] \<Rightarrow> Static)"

definition route :: "string \<Rightarrow> string list \<Rightarrow> endpoint" where
  "route m path =
     (case path of
        [] \<Rightarrow> Static
      | p # rest \<Rightarrow>
          if [] \<in> set path then Static
          else if p = ''healthz'' \<and> rest = [] \<and> is_get m then Health
          else if p = ''api'' then route_api m rest else Static)"

section \<open>The limiter\<close>

type_synonym login_limiter = "(string, time list) fmap"

definition stale :: "time \<Rightarrow> time list \<Rightarrow> bool" where
  "stale cutoff ts \<longleftrightarrow> ts = [] \<or> last ts < cutoff"

definition allow :: "login_limiter \<Rightarrow> time \<Rightarrow> string \<Rightarrow> nat \<Rightarrow> duration \<Rightarrow> bool \<times> login_limiter" where
  "allow l now key limit span =
     (let cutoff = now - span;
          crowded = (fmlookup l key = None \<and> fcard (fmdom l) \<ge> 10000);
          l1 = (if crowded then fmfilter (\<lambda>k. \<not> stale cutoff (the (fmlookup l k))) l else l)
      in if crowded \<and> fcard (fmdom l1) \<ge> 10000 then (False, l1)
         else (let recent = filter (\<lambda>t. t > cutoff) (case fmlookup l1 key of None \<Rightarrow> [] | Some ts \<Rightarrow> ts)
               in if length recent \<ge> limit then (False, fmupd key recent l1)
                  else (True, fmupd key (recent @ [now]) l1)))"

definition clear :: "login_limiter \<Rightarrow> string \<Rightarrow> login_limiter" where
  "clear l key = fmdrop key l"

end
