(* ===== verification/HttpHandlers.thy ===== *)
theory HttpHandlers
  imports HttpServer MailInvariants
begin

text \<open>
  \<open>internal/httpapi/handlers_*.go\<close>: one definition per handler, and \<open>serve\<close>, the whole way of a request
  through the origin check, the multiplexer, the session check and its handler. A handler returns the
  database after it and the response; an error that the code ignores leaves the database (\<open>commit\<close>).
\<close>

type_synonym handled = "db \<times> http_response"

definition finish :: "db \<Rightarrow> http_response + handled \<Rightarrow> handled" where
  "finish db r = (case r of Inl resp \<Rightarrow> (db, resp) | Inr p \<Rightarrow> p)"

definition web_event :: "http_server \<Rightarrow> http_request \<Rightarrow> user \<Rightarrow> string \<Rightarrow> string \<Rightarrow> string \<Rightarrow> audit_event" where
  "web_event srv r u action target_type target_id =
     \<lparr>ev_id = [], ev_actor_id = u_id u, ev_action = action, ev_target_type = target_type, ev_target_id = target_id,
      ev_reason = [], ev_metadata = [], ev_ip = clientIP srv r, ev_created = zero_time\<rparr>"

definition small_body :: int where "small_body = 64 * 1024"

text \<open>Page and limit of a list, and a list with one element more than the limit to see whether there is more.\<close>

definition paging :: "http_request \<Rightarrow> int \<times> int" where
  "paging r = (clampInt (parseInt (rq_query r ''page'') 1) 1 100000, clampInt (parseInt (rq_query r ''limit'') 50) 1 100)"

definition cut_page :: "int \<Rightarrow> 'a list \<Rightarrow> 'a list \<times> bool" where
  "cut_page limit items = (take (nat limit) items, int (length items) > limit)"

section \<open>Mail\<close>

definition setFlag :: "string list \<Rightarrow> string \<Rightarrow> bool \<Rightarrow> string list" where
  "setFlag flags flag enabled =
     (let result = concat (map (\<lambda>item. if EqualFold item flag then (if enabled then [flag] else []) else [item]) flags)
      in if enabled \<and> \<not> list_ex (\<lambda>item. EqualFold item flag) flags then result @ [flag] else result)"

definition mailboxes_page :: "user \<Rightarrow> db \<Rightarrow> handled" where
  "mailboxes_page u db = (db, reply 200 (MailboxesBody (ListMailboxes db (u_id u))))"

definition messages_page :: "http_server \<Rightarrow> http_request \<Rightarrow> user \<Rightarrow> db \<Rightarrow> handled" where
  "messages_page srv r u db =
     (let (pg, limit) = paging r;
          items = ListMessages (sv_sql (hs_service srv)) (hl_fts (hs_lib srv)) db
            \<lparr>mq_user_id = u_id u, mq_mailbox = rq_query r ''mailbox'', mq_search = rq_query r ''q'',
             mq_limit = limit + 1, mq_offset = (pg - 1) * limit, mq_admin = False\<rparr>;
          (shown, more) = cut_page limit items
      in (db, reply 200 (MessagesBody shown pg more)))"

definition message_page :: "user \<Rightarrow> string \<Rightarrow> db \<Rightarrow> handled" where
  "message_page u i db =
     finish db (bind_res (store_res (GetMessage db (u_id u) i False)) (\<lambda>item.
       (let flags = setFlag (v_flags item) Seen True;
            db1 = commit db (UpdateFlags (u_id u) (v_entry_id item) flags db)
        in Inr (db1, reply 200 (MessageBody (item\<lparr>v_flags := flags\<rparr>) (ListAttachments db1 (m_id item)))))))"

definition serveAttachment :: "attachment \<Rightarrow> http_response" where
  "serveAttachment item =
     reply 200 (AttachmentBody (item\<lparr>at_filename := map (\<lambda>c. if c = CHR 0x22 then CHR ''_'' else c) (at_filename item)\<rparr>))"

definition attachment_page :: "user \<Rightarrow> string \<Rightarrow> db \<Rightarrow> handled" where
  "attachment_page u i db =
     finish db (bind_res (store_res (GetAttachment db (u_id u) i False)) (\<lambda>item.
       Inr (db, serveAttachment item)))"

definition flags_page :: "http_server \<Rightarrow> http_request \<Rightarrow> user \<Rightarrow> string \<Rightarrow> db \<Rightarrow> handled" where
  "flags_page srv r u i db =
     finish db (bind_res (store_res (GetMessage db (u_id u) i False)) (\<lambda>item.
       bind_res (decodeJSON (hl_flags (hs_lib srv)) r small_body) (\<lambda>(seen, starred, answered).
       (let f1 = (case seen of None \<Rightarrow> v_flags item | Some b \<Rightarrow> setFlag (v_flags item) Seen b);
            f2 = (case starred of None \<Rightarrow> f1 | Some b \<Rightarrow> setFlag f1 Flagged b);
            f3 = (case answered of None \<Rightarrow> f2 | Some b \<Rightarrow> setFlag f2 Answered b)
        in bind_res (store_res (UpdateFlags (u_id u) (v_entry_id item) f3 db)) (\<lambda>db1.
           Inr (db1, reply 200 (FlagsBody f3)))))))"

definition move_page :: "http_server \<Rightarrow> http_env \<Rightarrow> http_request \<Rightarrow> user \<Rightarrow> string \<Rightarrow> db \<Rightarrow> handled" where
  "move_page srv he r u i db =
     finish db (bind_res (store_res (GetMessage db (u_id u) i False)) (\<lambda>item.
       bind_res (decodeJSON (hl_field (hs_lib srv) ''mailbox'') r small_body) (\<lambda>mailbox.
       bind_res (store_res (MoveMessage (he_store he 1) (u_id u) (v_entry_id item) mailbox db)) (\<lambda>db1.
       Inr (commit db1 (Audit_event (he_store he 2) db1 ((web_event srv r u ''message.move'' ''message'' (m_id item))
              \<lparr>ev_metadata := ''{'' @ quoted ''mailbox'' @ '':'' @ hl_quote (hs_lib srv) mailbox @ ''}''\<rparr>)),
            reply 200 OkBody)))))"

definition expunge_page :: "http_server \<Rightarrow> http_env \<Rightarrow> http_request \<Rightarrow> user \<Rightarrow> string \<Rightarrow> db \<Rightarrow> handled" where
  "expunge_page srv he r u i db =
     finish db (bind_res (store_res (GetMessage db (u_id u) i False)) (\<lambda>item.
       bind_res (store_res (ExpungeMessage (he_store he 1) (u_id u) (v_entry_id item) db)) (\<lambda>db1.
       Inr (commit db1 (Audit_event (he_store he 2) db1 (web_event srv r u ''message.expunge'' ''message'' (m_id item))),
            reply 200 OkBody))))"

text \<open>\<open>AllowNoRecipients\<close> is not a field of the JSON object.\<close>

definition compose_page :: "http_server \<Rightarrow> http_env \<Rightarrow> http_request \<Rightarrow> user \<Rightarrow> db \<Rightarrow> handled" where
  "compose_page srv he r u db =
     finish db (bind_res (decodeJSON (hl_compose (hs_lib srv)) r (wrap64 (MaxMessageBytes (hs_config srv) * 2))) (\<lambda>request.
       bind_res (service_res (Send (hs_service srv) (he_store he 1) (he_now he) (he_now he) u
          (request\<lparr>cq_allow_none := False\<rparr>) (clientIP srv r) db)) (\<lambda>(db1, m).
       Inr (db1, reply 202 (SavedBody m)))))"

definition draft_request :: "compose_request \<Rightarrow> compose_request" where
  "draft_request q =
     \<lparr>cq_draft_id = [], cq_from = [], cq_to = cq_to q, cq_cc = cq_cc q, cq_bcc = cq_bcc q, cq_reply_to = [],
      cq_subject = cq_subject q, cq_text = cq_text q, cq_html = cq_html q, cq_in_reply_to = [], cq_references = [],
      cq_attachments = cq_attachments q, cq_allow_none = False\<rparr>"

definition draft_page :: "http_server \<Rightarrow> http_env \<Rightarrow> http_request \<Rightarrow> user \<Rightarrow> db \<Rightarrow> handled" where
  "draft_page srv he r u db =
     finish db (bind_res (decodeJSON (hl_draft (hs_lib srv)) r (wrap64 (MaxMessageBytes (hs_config srv) * 2))) (\<lambda>(i, request).
       bind_res (service_res (SaveDraft (hs_service srv) (he_store he 1) (he_now he) (he_now he) u
          (draft_request request) i (clientIP srv r) db)) (\<lambda>(db1, m).
       Inr (db1, reply 201 (SavedBody m)))))"

section \<open>Application passwords\<close>

definition appPasswords_page :: "user \<Rightarrow> db \<Rightarrow> handled" where
  "appPasswords_page u db = (db, reply 200 (AppPasswordsBody (ListAppPasswords db (u_id u))))"

definition createAppPassword_page :: "http_server \<Rightarrow> http_env \<Rightarrow> http_request \<Rightarrow> user \<Rightarrow> db \<Rightarrow> handled" where
  "createAppPassword_page srv he r u db =
     finish db (bind_res (decodeJSON (hl_field (hs_lib srv) ''name'') r small_body) (\<lambda>name.
       bind_res (of_option (writeError 400 ''request_failed'') (RandomToken (hs_crypto srv) 18)) (\<lambda>token.
       (let secret = ''brclio-'' @ token
        in bind_res (store_res (CreateAppPassword (he_store he 1) (u_id u) name (TokenHash (hs_crypto srv) secret) db)) (\<lambda>(db1, item).
           Inr (commit db1 (Audit_event (he_store he 2) db1
                  (web_event srv r u ''app_password.create'' ''app_password'' (p_id item))),
                reply 201 (AppPasswordBody item secret)))))))"

definition revokeAppPassword_page :: "http_server \<Rightarrow> http_env \<Rightarrow> http_request \<Rightarrow> user \<Rightarrow> string \<Rightarrow> db \<Rightarrow> handled" where
  "revokeAppPassword_page srv he r u i db =
     finish db (bind_res (store_res (RevokeAppPassword (he_store he 1) (u_id u) i db)) (\<lambda>db1.
       Inr (commit db1 (Audit_event (he_store he 2) db1 (web_event srv r u ''app_password.revoke'' ''app_password'' i)),
            reply 200 OkBody)))"

section \<open>Sessions\<close>

definition logout_page :: "http_server \<Rightarrow> http_env \<Rightarrow> http_request \<Rightarrow> user \<Rightarrow> db \<Rightarrow> handled" where
  "logout_page srv he r u db =
     (let db1 = (case rq_cookie r of None \<Rightarrow> db | Some c \<Rightarrow> DeleteSession (TokenHash (hs_crypto srv) c) db);
          db2 = commit db1 (Audit_event (he_store he 1) db1 (web_event srv r u ''auth.logout'' ''session'' ''web''))
      in (db2, clearSessionCookie srv (reply 200 OkBody)))"

definition me_page :: "http_server \<Rightarrow> user \<Rightarrow> db \<Rightarrow> handled" where
  "me_page srv u db =
     finish db (bind_res (store_res (GetUserByID db (u_id u))) (\<lambda>fresh.
       Inr (db, reply 200 (MeBody fresh (Hostname (hs_config srv))))))"

section \<open>Administration\<close>

definition adminStats_page :: "http_server \<Rightarrow> db \<Rightarrow> handled" where
  "adminStats_page srv db =
     (let file = (\<lambda>p. case hl_file_size (hs_lib srv) p of None \<Rightarrow> 0 | Some n \<Rightarrow> n)
      in (db, reply 200 (StatsBody (Stats (sv_sql (hs_service srv)) db) (file (DatabasePath (hs_config srv)))
            (file (DatabasePath (hs_config srv) @ ''-wal''))
            (MaxArchiveBytes (hs_config srv), MaxMessageBytes (hs_config srv), MinFreeDiskBytes (hs_config srv)))))"

definition adminDomains_page :: "db \<Rightarrow> handled" where
  "adminDomains_page db = (db, reply 200 (DomainsBody (ListDomains db)))"

definition adminCreateDomain_page :: "http_server \<Rightarrow> http_env \<Rightarrow> http_request \<Rightarrow> user \<Rightarrow> db \<Rightarrow> handled" where
  "adminCreateDomain_page srv he r u db =
     finish db (bind_res (decodeJSON (hl_field (hs_lib srv) ''name'') r small_body) (\<lambda>name.
       bind_res (service_res (createDomain_service (hs_service srv) (he_store he 1) (he_token he) name
          (Some (web_event srv r u ''domain.create'' ''domain'' [])) db)) (\<lambda>(db1, d).
       Inr (db1, reply 201 (DomainBody d (DNSExpectedRecords d (Hostname (hs_config srv))))))))"

definition adminDomainDNS_page :: "http_server \<Rightarrow> string \<Rightarrow> db \<Rightarrow> handled" where
  "adminDomainDNS_page srv i db =
     (case find (\<lambda>d. d_id d = i) (ListDomains db) of
        Some d \<Rightarrow> (db, reply 200 (DomainBody d (DNSExpectedRecords d (Hostname (hs_config srv)))))
      | None \<Rightarrow> (db, writeError 404 ''not_found''))"

definition adminDomainVerify_page :: "http_server \<Rightarrow> http_env \<Rightarrow> http_request \<Rightarrow> user \<Rightarrow> string \<Rightarrow> db \<Rightarrow> handled" where
  "adminDomainVerify_page srv he r u i db =
     finish db (bind_res (decodeJSON (hl_empty (hs_lib srv)) r 1024) (\<lambda>_.
       bind_res (service_res (verifyDomain (hs_service srv) (he_store he 1) i
          (Some (web_event srv r u ''domain.verify'' ''domain'' i)) db)) (\<lambda>(db1, d).
       Inr (db1, reply 200 (VerifiedBody d)))))"

definition adminUsers_page :: "db \<Rightarrow> handled" where
  "adminUsers_page db = (db, reply 200 (UsersBody (ListUsers db)))"

definition adminCreateUser_page :: "http_server \<Rightarrow> http_env \<Rightarrow> http_request \<Rightarrow> user \<Rightarrow> db \<Rightarrow> handled" where
  "adminCreateUser_page srv he r u db =
     finish db (bind_res (decodeJSON (hl_create_user (hs_lib srv)) r (128 * 1024)) (\<lambda>request.
       (let role = (if cu_role request = [] then RoleUser else cu_role request);
            quota = (if cu_quota_bytes request = 0 then 5 * 1024 * 1024 * 1024 else cu_quota_bytes request)
        in bind_res (service_res (hash_password (hs_service srv) (cu_password request))) (\<lambda>hash.
           bind_res (store_res (createUser (he_store he 1) (cu_email request) (cu_display_name request) hash role quota
              (Some (web_event srv r u ''user.create'' ''user'' [])) db)) (\<lambda>(db1, item).
           Inr (db1, reply 201 (UserBody item)))))))"

definition adminUpdateUser_page :: "http_server \<Rightarrow> http_env \<Rightarrow> http_request \<Rightarrow> user \<Rightarrow> string \<Rightarrow> db \<Rightarrow> handled" where
  "adminUpdateUser_page srv he r u i db =
     finish db (bind_res (decodeJSON (hl_update_user (hs_lib srv)) r (128 * 1024)) (\<lambda>request.
       bind_res (case uu_password request of
           None \<Rightarrow> Inr None
         | Some pw \<Rightarrow> service_res (map_sum id Some (hash_password (hs_service srv) pw))) (\<lambda>hash.
       guard_err (u_id u = i \<and> uu_status request = Some StatusSuspended) (writeError 400 ''self_suspend'')
       (bind_res (store_res (updateUser (he_store he 1) i
           \<lparr>up_display_name = uu_display_name request, up_status = uu_status request, up_role = uu_role request,
            up_quota_bytes = uu_quota_bytes request, up_password_hash = hash\<rparr>
           (Some (web_event srv r u ''user.update'' ''user'' i)) db)) (\<lambda>db1.
        Inr (db1, reply 200 OkBody))))))"

definition adminAliases_page :: "db \<Rightarrow> handled" where
  "adminAliases_page db = (db, reply 200 (AliasesBody (ListAliases db)))"

definition adminCreateAlias_page :: "http_server \<Rightarrow> http_env \<Rightarrow> http_request \<Rightarrow> user \<Rightarrow> db \<Rightarrow> handled" where
  "adminCreateAlias_page srv he r u db =
     finish db (bind_res (decodeJSON (hl_alias (hs_lib srv)) r small_body) (\<lambda>(address, target).
       bind_res (store_res (createAlias (he_store he 1) address target
          (Some (web_event srv r u ''alias.create'' ''alias'' [])) db)) (\<lambda>(db1, item).
       Inr (db1, reply 201 (AliasBody item)))))"

definition adminArchive_page :: "http_server \<Rightarrow> http_env \<Rightarrow> http_request \<Rightarrow> user \<Rightarrow> db \<Rightarrow> handled" where
  "adminArchive_page srv he r u db =
     (let (pg, limit) = paging r;
          items = ListMessages (sv_sql (hs_service srv)) (hl_fts (hs_lib srv)) db
            \<lparr>mq_user_id = [], mq_mailbox = [], mq_search = rq_query r ''q'',
             mq_limit = limit + 1, mq_offset = (pg - 1) * limit, mq_admin = True\<rparr>;
          (shown, more) = cut_page limit items;
          event = (web_event srv r u ''archive.list'' ''archive'' ''messages'')
            \<lparr>ev_metadata := hl_list_metadata (hs_lib srv) (rq_query r ''q'') pg (length shown)\<rparr>
      in finish db (bind_res (store_res (Audit_event (he_store he 1) db event)) (\<lambda>db1.
           Inr (db1, reply 200 (MessagesBody shown pg more)))))"

definition adminArchiveView_page :: "http_server \<Rightarrow> http_env \<Rightarrow> http_request \<Rightarrow> user \<Rightarrow> string \<Rightarrow> db \<Rightarrow> handled" where
  "adminArchiveView_page srv he r u i db =
     finish db (bind_res (decodeJSON (hl_field (hs_lib srv) ''reason'') r small_body) (\<lambda>reason.
       bind_res (service_res (AdminView (he_store he 1) u i reason (clientIP srv r) db)) (\<lambda>(db1, item).
       Inr (db1, reply 200 (MessageBody item (ListAttachments db1 (m_id item)))))))"

definition adminAttachment_page :: "http_server \<Rightarrow> http_env \<Rightarrow> http_request \<Rightarrow> user \<Rightarrow> string \<Rightarrow> string \<Rightarrow> db \<Rightarrow> handled" where
  "adminAttachment_page srv he r u i attachment_id db =
     finish db (bind_res (decodeJSON (hl_field (hs_lib srv) ''reason'') r small_body) (\<lambda>reason0.
       (let reason = TrimSpace reason0
        in guard_err (RuneCount reason < 4) (writeError 400 ''reason_required'')
          (bind_res (store_res (GetAttachment db [] attachment_id True)) (\<lambda>item.
           guard_err (at_message_id item \<noteq> i) (writeError 404 ''not_found'')
           (bind_res (store_res (GetMessage db [] (at_message_id item) True)) (\<lambda>_.
            bind_res (store_res (Audit_event (he_store he 1) db
              ((web_event srv r u ''archive.attachment.download'' ''attachment'' (at_id item))
               \<lparr>ev_reason := reason,
                ev_metadata := ''{'' @ quoted ''messageId'' @ '':'' @ hl_quote (hs_lib srv) (at_message_id item) @ ''}''\<rparr>))) (\<lambda>db1.
            Inr (db1, serveAttachment item)))))))))"

definition adminQueue_page :: "db \<Rightarrow> handled" where
  "adminQueue_page db = (db, reply 200 (QueueBody (ListQueue db 100)))"

definition adminAudit_page :: "http_request \<Rightarrow> db \<Rightarrow> handled" where
  "adminAudit_page r db =
     (let (pg, limit) = paging r;
          (shown, more) = cut_page limit (ListAuditPage db (limit + 1) ((pg - 1) * limit) (rq_query r ''action''))
      in (db, reply 200 (AuditBody shown pg more)))"

section \<open>Requests without a session\<close>

record http_world =
  hw_db :: db
  hw_limiter :: login_limiter

definition health_page :: "http_server \<Rightarrow> http_response" where
  "health_page srv = reply 200 (HealthBody (hs_version srv) (hs_sqlite_version srv))"

definition status_page :: "http_server \<Rightarrow> db \<Rightarrow> http_response" where
  "status_page srv db =
     reply 200 (StatusBody (hs_version srv) (CountUsers db > 0) (MailTLSAvailable (hs_config srv)) (DevMode (hs_config srv))
       (Hostname (hs_config srv)) (BaseURL (hs_config srv)) (hs_sqlite_version srv))"

definition new_session :: "http_server \<Rightarrow> http_env \<Rightarrow> http_request \<Rightarrow> nat \<Rightarrow> user \<Rightarrow> db
    \<Rightarrow> http_response + (db \<times> string \<times> time)" where
  "new_session srv he r k u db =
     bind_res (of_option (writeError 400 ''request_failed'') (RandomToken (hs_crypto srv) 32)) (\<lambda>token.
     (let expires = he_now he + SessionTTL (hs_config srv)
      in bind_res (store_res (CreateSession ValidString (he_store he k) (u_id u) (u_auth_version u)
           (TokenHash (hs_crypto srv) token) (clientIP srv r) (rq_header r ''User-Agent'') expires db)) (\<lambda>(db1, _).
         Inr (db1, token, expires))))"

definition setup_page :: "http_server \<Rightarrow> http_env \<Rightarrow> http_request \<Rightarrow> http_world \<Rightarrow> http_world \<times> http_response" where
  "setup_page srv he r w =
     (let key = ''setup:'' @ clientIP srv r;
          (allowed, l1) = allow (hw_limiter w) (he_now he) key 10 hour;
          w1 = w\<lparr>hw_limiter := l1\<rparr>
      in if \<not> allowed then (w1, writeError 429 ''rate_limited'')
         else (case decodeJSON (hl_setup (hs_lib srv)) r small_body of
             Inl resp \<Rightarrow> (w1, resp)
           | Inr request \<Rightarrow>
               (case Setup (hs_service srv) (he_store he 1) (he_token he) request (clientIP srv r) (hw_db w1) of
                  Inl e \<Rightarrow> (w1, service_error_reply e)
                | Inr (db1, u, d) \<Rightarrow>
                    (case new_session srv he r 2 u db1 of
                       Inl resp \<Rightarrow> (w1\<lparr>hw_db := db1\<rparr>, resp)
                     | Inr (db2, token, expires) \<Rightarrow>
                         (w1\<lparr>hw_db := db2, hw_limiter := clear l1 key\<rparr>,
                          setSessionCookie srv token expires (reply 201 (SetupBody u d)))))))"

definition login_page :: "http_server \<Rightarrow> http_env \<Rightarrow> http_request \<Rightarrow> http_world \<Rightarrow> http_world \<times> http_response" where
  "login_page srv he r w =
     (case decodeJSON (hl_login (hs_lib srv)) r small_body of
        Inl resp \<Rightarrow> (w, resp)
      | Inr (email, password) \<Rightarrow>
          (let ipKey = ''login-ip:'' @ clientIP srv r;
               accountKey = ''login-account:'' @ ToLower (TrimSpace email);
               (ok1, l1) = allow (hw_limiter w) (he_now he) ipKey 100 (15 * minute);
               (ok2, l2) = (if ok1 then allow l1 (he_now he) accountKey 10 (15 * minute) else (False, l1));
               w1 = w\<lparr>hw_limiter := l2\<rparr>
           in if \<not> ok2 then (w1, writeError 429 ''rate_limited'')
              else (case Authenticate (VerifyPassword (hs_crypto srv)) (TokenHash (hs_crypto srv)) (he_store he 1)
                       email password False (hw_db w1) of
                  (db1, Inl _) \<Rightarrow> (w1\<lparr>hw_db := db1\<rparr>, writeError 401 ''invalid_credentials'')
                | (db1, Inr u) \<Rightarrow>
                    (case new_session srv he r 2 u db1 of
                       Inl resp \<Rightarrow> (w1\<lparr>hw_db := db1\<rparr>, resp)
                     | Inr (db2, token, expires) \<Rightarrow>
                         (w1\<lparr>hw_db := commit db2 (Audit_event (he_store he 3) db2
                               (web_event srv r u ''auth.login'' ''session'' ''web'')),
                             hw_limiter := clear l2 accountKey\<rparr>,
                          setSessionCookie srv token expires (reply 200 (UserBody u)))))))"

section \<open>Serving a request\<close>

definition withUser :: "http_server \<Rightarrow> http_env \<Rightarrow> http_request \<Rightarrow> (user \<Rightarrow> db \<Rightarrow> handled) \<Rightarrow> db \<Rightarrow> handled" where
  "withUser srv he r nxt db =
     (case rq_cookie r of
        None \<Rightarrow> (db, writeError 401 ''authentication_required'')
      | Some c \<Rightarrow>
          if c = [] then (db, writeError 401 ''authentication_required'')
          else (case UserForSession (he_store he 0) (TokenHash (hs_crypto srv) c) db of
              (db1, Inl _) \<Rightarrow> (db1, clearSessionCookie srv (writeError 401 ''authentication_required''))
            | (db1, Inr u) \<Rightarrow> nxt u db1))"

definition withAdmin :: "http_server \<Rightarrow> http_env \<Rightarrow> http_request \<Rightarrow> (user \<Rightarrow> db \<Rightarrow> handled) \<Rightarrow> db \<Rightarrow> handled" where
  "withAdmin srv he r nxt db =
     withUser srv he r (\<lambda>u db1. if u_role u \<noteq> RoleAdmin then (db1, writeError 403 ''admin_required'') else nxt u db1) db"

text \<open>The pages for every user, and those for administrators.\<close>

fun user_page :: "http_server \<Rightarrow> http_env \<Rightarrow> http_request \<Rightarrow> endpoint \<Rightarrow> (user \<Rightarrow> db \<Rightarrow> handled) option" where
  "user_page srv he r Logout = Some (logout_page srv he r)"
| "user_page srv he r Me = Some (me_page srv)"
| "user_page srv he r Mailboxes = Some mailboxes_page"
| "user_page srv he r Messages = Some (messages_page srv r)"
| "user_page srv he r (OneMessage i) = Some (\<lambda>u. message_page u i)"
| "user_page srv he r (OneAttachment i) = Some (\<lambda>u. attachment_page u i)"
| "user_page srv he r (Flags i) = Some (\<lambda>u. flags_page srv r u i)"
| "user_page srv he r (Move i) = Some (\<lambda>u. move_page srv he r u i)"
| "user_page srv he r (Expunge i) = Some (\<lambda>u. expunge_page srv he r u i)"
| "user_page srv he r ComposePage = Some (compose_page srv he r)"
| "user_page srv he r DraftPage = Some (draft_page srv he r)"
| "user_page srv he r AppPasswords = Some appPasswords_page"
| "user_page srv he r NewAppPassword = Some (createAppPassword_page srv he r)"
| "user_page srv he r (DeleteAppPassword i) = Some (\<lambda>u. revokeAppPassword_page srv he r u i)"
| "user_page srv he r _ = None"

fun admin_page :: "http_server \<Rightarrow> http_env \<Rightarrow> http_request \<Rightarrow> endpoint \<Rightarrow> (user \<Rightarrow> db \<Rightarrow> handled) option" where
  "admin_page srv he r AdminStats = Some (\<lambda>u. adminStats_page srv)"
| "admin_page srv he r AdminDomains = Some (\<lambda>u. adminDomains_page)"
| "admin_page srv he r AdminCreateDomain = Some (adminCreateDomain_page srv he r)"
| "admin_page srv he r (AdminDomainDNS i) = Some (\<lambda>u. adminDomainDNS_page srv i)"
| "admin_page srv he r (AdminDomainVerify i) = Some (\<lambda>u. adminDomainVerify_page srv he r u i)"
| "admin_page srv he r AdminUsers = Some (\<lambda>u. adminUsers_page)"
| "admin_page srv he r AdminCreateUser = Some (adminCreateUser_page srv he r)"
| "admin_page srv he r (AdminUpdateUser i) = Some (\<lambda>u. adminUpdateUser_page srv he r u i)"
| "admin_page srv he r AdminAliases = Some (\<lambda>u. adminAliases_page)"
| "admin_page srv he r AdminCreateAlias = Some (adminCreateAlias_page srv he r)"
| "admin_page srv he r AdminArchive = Some (adminArchive_page srv he r)"
| "admin_page srv he r (AdminArchiveView i) = Some (\<lambda>u. adminArchiveView_page srv he r u i)"
| "admin_page srv he r (AdminAttachment i j) = Some (\<lambda>u. adminAttachment_page srv he r u i j)"
| "admin_page srv he r AdminQueue = Some (\<lambda>u. adminQueue_page)"
| "admin_page srv he r AdminAudit = Some (\<lambda>u. adminAudit_page r)"
| "admin_page srv he r _ = None"

text \<open>The static files get every other request; without them the multiplexer answers, with 405 for another method.\<close>

definition not_routed :: "http_server \<Rightarrow> http_request \<Rightarrow> http_response" where
  "not_routed srv r =
     (case hs_static srv of
        Some h \<Rightarrow> (case h r of (status, content) \<Rightarrow> reply status (StaticBody content))
      | None \<Rightarrow>
          if list_ex (\<lambda>m. route m (rq_path r) \<noteq> Static) [''GET'', ''POST'', ''PATCH'', ''DELETE'']
          then reply 405 MuxBody else reply 404 MuxBody)"

definition open_page :: "http_server \<Rightarrow> http_env \<Rightarrow> http_request \<Rightarrow> endpoint \<Rightarrow> http_world \<Rightarrow> http_world \<times> http_response" where
  "open_page srv he r e w =
     (case e of
        Health \<Rightarrow> (w, health_page srv)
      | StatusPage \<Rightarrow> (w, status_page srv (hw_db w))
      | SetupPage \<Rightarrow> setup_page srv he r w
      | Login \<Rightarrow> login_page srv he r w
      | _ \<Rightarrow> (w, not_routed srv r))"

definition serve :: "http_server \<Rightarrow> http_env \<Rightarrow> http_request \<Rightarrow> http_world \<Rightarrow> http_world \<times> http_response" where
  "serve srv he r w =
     (let e = route (rq_method r) (rq_path r);
          on_db = (\<lambda>(db1, resp). (w\<lparr>hw_db := db1\<rparr>, resp))
      in case csrf srv r of
           Some resp \<Rightarrow> (w, resp)
         | None \<Rightarrow>
             (case (user_page srv he r e, admin_page srv he r e) of
                (Some h, _) \<Rightarrow> on_db (withUser srv he r h (hw_db w))
              | (None, Some h) \<Rightarrow> on_db (withAdmin srv he r h (hw_db w))
              | (None, None) \<Rightarrow> open_page srv he r e w))"

end
