(* ===== verification/HttpProperties.thy ===== *)
theory HttpProperties
  imports HttpHandlers ServiceProperties
begin

text \<open>
  The web interface: a request is a run of store operations, what a request needs to get past the session
  check, and who sees the content of a message.
\<close>

section \<open>Requests as runs of store operations\<close>

lemma finish_evolves: "(\<And>db' resp. x = Inr (db', resp) \<Longrightarrow> evolves out db db') \<Longrightarrow> evolves out db (fst (finish db x))"
  by (auto simp: finish_def split: sum.splits)

lemma commit_evolves: "evolves out db db1 \<Longrightarrow> (\<And>d. r = Inr d \<Longrightarrow> evolves out db1 d) \<Longrightarrow> evolves out db (commit db1 r)"
  by (cases r) (auto simp: commit_def intro: evolves_trans)

lemmas page_evolves = finish_evolves commit_evolves evolves_ops service_evolves evolves_sessions

lemma mail_pages_evolve:
  "evolves out db (fst (message_page u i db))" "evolves out db (fst (flags_page srv r u i db))"
  "evolves out db (fst (move_page srv he r u i db))" "evolves out db (fst (expunge_page srv he r u i db))"
  "evolves True db (fst (compose_page srv he r u db))" "evolves out db (fst (draft_page srv he r u db))"
  "evolves out db (fst (createAppPassword_page srv he r u db))" "evolves out db (fst (revokeAppPassword_page srv he r u i db))"
  "evolves out db (fst (logout_page srv he r u db))"
  subgoal unfolding message_page_def Let_def by (rule finish_evolves) (auto intro!: commit_evolves dest: evolves_ops(2))
  subgoal unfolding flags_page_def Let_def by (rule finish_evolves) (auto dest: evolves_ops(2))
  subgoal unfolding move_page_def Let_def by (rule finish_evolves) (auto intro!: commit_evolves dest: evolves_ops(3,5))
  subgoal unfolding expunge_page_def Let_def by (rule finish_evolves) (auto intro!: commit_evolves dest: evolves_ops(4,5))
  subgoal unfolding compose_page_def by (rule finish_evolves) (auto dest: service_evolves(1))
  subgoal unfolding draft_page_def by (rule finish_evolves) (auto dest: service_evolves(2))
  subgoal unfolding createAppPassword_page_def Let_def
    by (rule finish_evolves) (auto intro!: commit_evolves dest: evolves_ops(5,12))
  subgoal unfolding revokeAppPassword_page_def by (rule finish_evolves) (auto intro!: commit_evolves dest: evolves_ops(5,13))
  subgoal unfolding logout_page_def Let_def fst_conv
    by (rule commit_evolves) (auto dest: evolves_ops(5) intro: evolves_sessions(3) split: option.splits)
  done

lemma admin_pages_evolve:
  "evolves out db (fst (adminCreateDomain_page srv he r u db))" "evolves out db (fst (adminDomainVerify_page srv he r u i db))"
  "evolves out db (fst (adminCreateUser_page srv he r u db))" "evolves out db (fst (adminUpdateUser_page srv he r u i db))"
  "evolves out db (fst (adminCreateAlias_page srv he r u db))" "evolves out db (fst (adminArchive_page srv he r u db))"
  "evolves out db (fst (adminArchiveView_page srv he r u i db))" "evolves out db (fst (adminAttachment_page srv he r u i j db))"
  "evolves out db (fst (adminDomainDNS_page srv i db))"
  subgoal unfolding adminCreateDomain_page_def by (rule finish_evolves) (auto dest: service_evolves(5))
  subgoal unfolding adminDomainVerify_page_def by (rule finish_evolves) (auto dest: service_evolves(6))
  subgoal unfolding adminCreateUser_page_def Let_def by (rule finish_evolves) (auto dest: evolves_ops(9))
  subgoal unfolding adminUpdateUser_page_def by (rule finish_evolves) (auto, (erule evolves_ops(10))+)
  subgoal unfolding adminCreateAlias_page_def by (rule finish_evolves) (auto dest: evolves_ops(14))
  subgoal unfolding adminArchive_page_def Let_def split_beta by (rule finish_evolves) (auto dest: evolves_ops(5))
  subgoal unfolding adminArchiveView_page_def by (rule finish_evolves) (auto dest: service_evolves(7))
  subgoal unfolding adminAttachment_page_def Let_def by (rule finish_evolves) (auto, erule evolves_ops(5))
  subgoal by (simp add: adminDomainDNS_page_def split: option.splits)
  done

lemma reading_pages_evolve:
  "evolves out db (fst (mailboxes_page u db))" "evolves out db (fst (messages_page srv r u db))"
  "evolves out db (fst (attachment_page u i db))" "evolves out db (fst (appPasswords_page u db))" "evolves out db (fst (me_page srv u db))"
  "evolves out db (fst (adminStats_page srv db))" "evolves out db (fst (adminDomains_page db))" "evolves out db (fst (adminUsers_page db))"
  "evolves out db (fst (adminAliases_page db))" "evolves out db (fst (adminQueue_page db))" "evolves out db (fst (adminAudit_page r db))"
  by (auto simp: mailboxes_page_def messages_page_def attachment_page_def appPasswords_page_def me_page_def adminStats_page_def
      adminDomains_page_def adminUsers_page_def adminAliases_page_def adminQueue_page_def adminAudit_page_def Let_def
      split: prod.splits intro!: finish_evolves)

lemma pages_evolve:
  "user_page srv he r e = Some h \<Longrightarrow> evolves (e = ComposePage) db (fst (h u db))"
  "admin_page srv he r e = Some h \<Longrightarrow> evolves out db (fst (h u db))"
  by (cases e; auto simp: mail_pages_evolve reading_pages_evolve admin_pages_evolve)+

lemma withUser_evolves:
  assumes "\<And>u d. evolves out d (fst (h u d))"
  shows "evolves out db (fst (withUser srv he r h db))"
proof -
  have "evolves out db d" if "UserForSession env tok db = (d, x)" for env tok d x
    using evolves_sessions(1) [of out db env tok] that by simp
  with assms show ?thesis
    by (auto simp: withUser_def split: option.splits prod.splits sum.splits) (metis evolves_trans fst_conv)+
qed

lemma withAdmin_evolves:
  assumes "\<And>u d. evolves out d (fst (h u d))"
  shows "evolves out db (fst (withAdmin srv he r h db))"
  unfolding withAdmin_def by (rule withUser_evolves) (use assms in auto)

lemma new_session_evolves: "new_session srv he r k u db = Inr (db', t, x) \<Longrightarrow> evolves out db db'"
  by (auto simp: new_session_def Let_def dest: evolves_ops(11))

lemma setup_page_evolves: "evolves out (hw_db w) (hw_db (fst (setup_page srv he r w)))"
  by (auto simp: setup_page_def Let_def split: prod.splits sum.splits
      dest!: service_evolves(4) new_session_evolves intro: evolves_trans)

lemma login_page_evolves: "evolves out (hw_db w) (hw_db (fst (login_page srv he r w)))"
proof -
  have auth: "evolves out db d" if "Authenticate verify th env email pw app db = (d, x)" for verify th env email pw app db d x
    using evolves_sessions(2) [of out db verify th env email pw app] that by simp
  show ?thesis
    by (auto simp: login_page_def Let_def split: prod.splits sum.splits
      dest!: new_session_evolves auth dest: evolves_ops(5) intro!: commit_evolves intro: evolves_trans)
qed

lemma open_page_evolves: "evolves out (hw_db w) (hw_db (fst (open_page srv he r e w)))"
  by (cases e) (simp_all add: open_page_def setup_page_evolves login_page_evolves)

text \<open>Only composing a message can put something into the queue.\<close>

lemma serve_evolves:
  "evolves (route (rq_method r) (rq_path r) = ComposePage) (hw_db w) (hw_db (fst (serve srv he r w)))"
proof -
  let ?e = "route (rq_method r) (rq_path r)"
  have "evolves (?e = ComposePage) (hw_db w) (fst (withUser srv he r h (hw_db w)))" if "user_page srv he r ?e = Some h" for h
    by (rule withUser_evolves) (rule pages_evolve(1) [OF that])
  moreover have "evolves (?e = ComposePage) (hw_db w) (fst (withAdmin srv he r h (hw_db w)))" if "admin_page srv he r ?e = Some h" for h
    by (rule withAdmin_evolves) (rule pages_evolve(2) [OF that])
  ultimately show ?thesis
    by (simp add: serve_def Let_def split_beta open_page_evolves split: option.split)
qed

section \<open>The session check\<close>

text \<open>A cookie opens a user's session if it is the token of one that is not expired, of an active user and of
  this user's present generation of sessions.\<close>

definition live_session :: "http_server \<Rightarrow> http_env \<Rightarrow> http_request \<Rightarrow> db \<Rightarrow> user \<Rightarrow> bool" where
  "live_session srv he r db u \<longleftrightarrow> u \<in> set (users db) \<and> u_status u = StatusActive
     \<and> (\<exists>c s. rq_cookie r = Some c \<and> c \<noteq> [] \<and> s \<in> set (sessions db) \<and> s_token_hash s = TokenHash (hs_crypto srv) c
          \<and> s_user_id s = u_id u \<and> clock (he_store he 0) 0 < s_expires s \<and> s_auth_version s = u_auth_version u)"

definition touched :: "db \<Rightarrow> db \<Rightarrow> bool" where
  "touched db db' \<longleftrightarrow> (\<exists>P t. db' = db\<lparr>sessions := update_where P (\<lambda>s. s\<lparr>s_last_seen := t\<rparr>) (sessions db)\<rparr>)"

lemma touched_refl [simp]: "touched db db"
proof -
  have "update_where (\<lambda>_. False) f xs = xs" for f and xs :: "session list" by (simp add: update_where_def)
  then have "db = db\<lparr>sessions := update_where (\<lambda>_. False) (\<lambda>s. s\<lparr>s_last_seen := 0\<rparr>) (sessions db)\<rparr>" by simp
  then show ?thesis unfolding touched_def by blast
qed

lemma UserForSession_cases:
  obtains "UserForSession env tok db = (db, Inl ErrInvalidCredentials)"
  | s u db1 where "UserForSession env tok db = (db1, Inr u)" "touched db db1" "u \<in> set (users db)" "s \<in> set (sessions db)"
      "s_user_id s = u_id u" "s_token_hash s = tok" "clock env 0 < s_expires s" "u_status u = StatusActive"
      "s_auth_version s = u_auth_version u"
proof (cases "find (\<lambda>(s, u). s_user_id s = u_id u \<and> s_token_hash s = tok \<and> s_expires s > clock env 0
      \<and> u_status u = StatusActive \<and> s_auth_version s = u_auth_version u) (List.product (sessions db) (users db))")
  case None
  then show thesis using that(1) by (simp add: UserForSession_def)
next
  case (Some p)
  obtain s u where p: "p = (s, u)" by (cases p)
  note found = find_SomeD [OF Some [unfolded p]]
  have "UserForSession env tok db = (db\<lparr>sessions := update_where (\<lambda>x. s_token_hash x = tok)
                (\<lambda>x. x\<lparr>s_last_seen := clock env 1\<rparr>) (sessions db)\<rparr>, Inr u)"
    unfolding UserForSession_def Some p by simp
  moreover have "touched db (db\<lparr>sessions := update_where (\<lambda>x. s_token_hash x = tok)
                (\<lambda>x. x\<lparr>s_last_seen := clock env 1\<rparr>) (sessions db)\<rparr>)" unfolding touched_def by blast
  ultimately show thesis using found by (intro that(2) [of _ u s]) auto
qed

text \<open>Either the request is turned away, or its handler runs for the user of a live session.\<close>

lemma withUser_cases:
  obtains (refused) resp where "withUser srv he r h db = (db, resp)" "rs_status resp = 401"
      "rs_body resp = ErrorBody ''authentication_required''"
  | (granted) u db1 where "withUser srv he r h db = h u db1" "live_session srv he r db u" "touched db db1"
proof (cases "rq_cookie r")
  case None
  then show thesis using refused by (simp add: withUser_def writeError_def reply_def)
next
  case (Some c)
  show thesis
  proof (cases "c = []")
    case True
    then show thesis using refused Some by (simp add: withUser_def writeError_def reply_def)
  next
    case False
    show thesis
    proof (rule UserForSession_cases [of "he_store he 0" "TokenHash (hs_crypto srv) c" db], goal_cases)
      case 1
      then show ?case using refused Some False
        by (simp add: withUser_def writeError_def reply_def clearSessionCookie_def)
    next
      case (2 s u db1)
      then show ?case using Some False granted [of u db1]
        by (auto simp: withUser_def live_session_def)
    qed
  qed
qed

text \<open>The patterns below \<open>/api/admin\<close> are all wrapped by \<open>withAdmin\<close>, and the rest, but for the open ones, by
  \<open>withUser\<close>.\<close>

definition open_endpoints :: "endpoint set" where
  "open_endpoints = {Health, StatusPage, SetupPage, Login, Static}"

definition admin_only :: "endpoint \<Rightarrow> bool" where
  "admin_only e \<longleftrightarrow> e = Static
     \<or> (\<forall>srv he r. admin_page srv he r e \<noteq> None \<and> user_page srv he r e = None)"

lemma admin_only_endpoints:
  "admin_only Static" "admin_only AdminStats" "admin_only AdminDomains" "admin_only AdminCreateDomain"
  "admin_only (AdminDomainDNS i)" "admin_only (AdminDomainVerify i)" "admin_only AdminUsers" "admin_only AdminCreateUser"
  "admin_only (AdminUpdateUser i)" "admin_only AdminAliases" "admin_only AdminCreateAlias" "admin_only AdminArchive"
  "admin_only (AdminArchiveView i)" "admin_only (AdminAttachment i j)" "admin_only AdminQueue" "admin_only AdminAudit"
  by (simp_all add: admin_only_def)

lemma admin_only_if: "admin_only a \<Longrightarrow> admin_only b \<Longrightarrow> admin_only (if c then a else b)"
  by simp

lemma admin_only_list:
  "P [] \<Longrightarrow> (\<And>a. P [a]) \<Longrightarrow> (\<And>a b. P [a, b]) \<Longrightarrow> (\<And>a b c. P [a, b, c]) \<Longrightarrow> (\<And>a b c d. P [a, b, c, d])
    \<Longrightarrow> (\<And>a b c d e xs. P (a # b # c # d # e # xs)) \<Longrightarrow> P xs"
  by (metis list.exhaust)

lemma route_admin_only: "admin_only (route_admin m path)"
proof (rule admin_only_list [of "\<lambda>path. admin_only (route_admin m path)"])
qed (simp_all only: route_admin_def list.case, (intro admin_only_if admin_only_endpoints)+)

lemma route_under_admin: "admin_only (route m (''api'' # ''admin'' # rest))"
proof -
  have "route_api m (''admin'' # xs) = (if xs = [] then Static else route_admin m xs)" for xs
    unfolding route_api_def by (simp split: list.split)
  then have "admin_only (route_api m (''admin'' # rest))" by (simp add: route_admin_only admin_only_endpoints)
  moreover have "route m (''api'' # p) = (if [] \<in> set p then Static else route_api m p)" for p
    by (simp add: route_def)
  ultimately show ?thesis by (simp add: admin_only_endpoints del: route_api_def)
qed

lemma page_of_endpoint:
  assumes "e \<notin> open_endpoints"
  shows "user_page srv he r e \<noteq> None \<or> admin_page srv he r e \<noteq> None"
  using assms by (cases e) (auto simp: open_endpoints_def)

lemma serve_cases:
  assumes "serve srv he r w = (w', resp)" and "route (rq_method r) (rq_path r) = e" and "e \<notin> open_endpoints"
  obtains (rejected) "csrf srv r = Some resp" "w' = w"
  | (refused) "csrf srv r = None" "w' = w" "rs_status resp = 401" "rs_body resp = ErrorBody ''authentication_required''"
  | (not_admin) u where "csrf srv r = None" "live_session srv he r (hw_db w) u" "touched (hw_db w) (hw_db w')"
      "rs_status resp = 403" "rs_body resp = ErrorBody ''admin_required''" "hw_limiter w' = hw_limiter w"
  | (user) h u db1 where "csrf srv r = None" "live_session srv he r (hw_db w) u" "touched (hw_db w) db1"
      "user_page srv he r e = Some h" "h u db1 = (hw_db w', resp)" "hw_limiter w' = hw_limiter w"
  | (admin) h u db1 where "csrf srv r = None" "live_session srv he r (hw_db w) u" "touched (hw_db w) db1"
      "u_role u = RoleAdmin" "user_page srv he r e = None" "admin_page srv he r e = Some h"
      "h u db1 = (hw_db w', resp)" "hw_limiter w' = hw_limiter w"
proof (cases "csrf srv r")
  case (Some x)
  then show thesis using assms(1) by (intro rejected) (simp_all add: serve_def Let_def)
next
  case ok: None
  show thesis
  proof (cases "user_page srv he r e")
    case (Some h)
    then have eq: "w' = w\<lparr>hw_db := fst (withUser srv he r h (hw_db w))\<rparr>" "resp = snd (withUser srv he r h (hw_db w))"
      using assms(1) ok by (simp_all add: serve_def Let_def split_beta assms(2))
    show thesis
    proof (rule withUser_cases [of srv he r h "hw_db w"], goal_cases)
      case (1 x)
      then show ?case using eq ok by (intro refused) simp_all
    next
      case (2 u db1)
      then show ?case using eq ok Some by (intro user) simp_all
    qed
  next
    case None
    then obtain h where h: "admin_page srv he r e = Some h" using page_of_endpoint [OF assms(3)] by blast
    let ?h = "\<lambda>u db1. if u_role u \<noteq> RoleAdmin then (db1, writeError 403 ''admin_required'') else h u db1"
    have eq: "w' = w\<lparr>hw_db := fst (withUser srv he r ?h (hw_db w))\<rparr>" "resp = snd (withUser srv he r ?h (hw_db w))"
      using assms(1) ok None h by (simp_all add: serve_def Let_def split_beta assms(2) withAdmin_def)
    show thesis
    proof (rule withUser_cases [of srv he r ?h "hw_db w"], goal_cases)
      case (1 x)
      then show ?case using eq ok by (intro refused) simp_all
    next
      case (2 u db1)
      show ?case
      proof (cases "u_role u = RoleAdmin")
        case True
        then show ?thesis using eq ok h None 2 by (intro admin) simp_all
      next
        case False
        then show ?thesis using eq ok 2 by (intro not_admin) (simp_all add: writeError_def reply_def)
      qed
    qed
  qed
qed


section \<open>Who sees the content of a message\<close>

text \<open>The messages a response shows the text, the source or an attachment of.\<close>

fun shown_content :: "http_body \<Rightarrow> string set" where
  "shown_content (MessageBody m atts) = {m_id m}"
| "shown_content (AttachmentBody a) = {at_message_id a}"
| "shown_content (SavedBody m) = {m_id m}"
| "shown_content (MessagesBody vs pg rest) =
     set (map m_id (filter (\<lambda>v. \<not> (m_text v = [] \<and> m_html v = [] \<and> m_snippet v = [] \<and> m_raw v = [])) vs))"
| "shown_content _ = {}"

definition has_copy :: "db \<Rightarrow> user \<Rightarrow> string \<Rightarrow> bool" where
  "has_copy db u i \<longleftrightarrow> (\<exists>e \<in> set (entries db). e_user_id e = u_id u \<and> e_message_id e = i)"

lemma joined_mem: "(e, m) \<in> set (joined db) \<Longrightarrow> e \<in> set (entries db) \<and> e_message_id e = m_id m"
  by (auto simp: joined_def List.map_filter_def message_by_id_def) (drule find_SomeD, simp)

lemma view_ids [simp]: "m_id (user_view db e m) = m_id m" "m_id (admin_view m) = m_id m" "m_id (without_envelope v) = m_id v"
  "m_id (without_content v) = m_id v"
  by (simp_all add: user_view_def admin_view_def as_view_def without_envelope_def without_content_def message.defs)

lemma GetMessage_copy:
  assumes "GetMessage db (u_id u) i False = Inr v"
  shows "has_copy db u (m_id v)"
proof -
  obtain e m where l: "latest (e_created \<circ> fst) (filter (\<lambda>(e, m). (m_id m = i \<or> e_id e = i)
      \<and> e_user_id e = u_id u \<and> e_expunged e = None) (joined db)) = Some (e, m)"
    and v: "v = without_envelope (user_view db e m)"
    using assms by (auto simp: GetMessage_def split: option.splits)
  then show ?thesis using joined_mem [of e m db] latest_mem [OF l] by (auto simp: has_copy_def)
qed

lemma GetAttachment_copy: "GetAttachment db (u_id u) i False = Inr a \<Longrightarrow> has_copy db u (at_message_id a)"
  by (auto simp: GetAttachment_def has_copy_def list_ex_iff dest!: find_SomeD)

lemma ListMessages_copy:
  assumes "mq_user_id q = u_id u" and "\<not> mq_admin q" and "v \<in> set (ListMessages lib fts db q)"
  shows "has_copy db u (m_id v)"
  using assms joined_mem by (fastforce simp: ListMessages_def Let_def query_page_def has_copy_def
      dest!: in_set_takeD in_set_dropD)

lemma save_from_copy:
  assumes "save_from svc env u rep m0 atts dls q ev db = Inr (db', m)" and "\<exists>d \<in> set dls. dl_user_id d = u_id u"
  shows "has_copy db' u (m_id m)"
proof -
  obtain db1 lib cfg statfs ev' where saved: "saveMessage cfg lib statfs env m0 atts dls q None ev' db1 = Inr (db', m)"
    using assms(1) saved_after_replacement
    by (fastforce simp: save_from_def SaveMessageReplacingDraftAudited_def SaveMessageAudited_def split: if_splits)
  obtain es where es: "entries db' = entries db1 @ es" "map e_user_id es = map dl_user_id dls"
    "\<forall>e \<in> set es. e_message_id e = m_id m" using saved_rows(2) [OF saved] by blast
  have "u_id u \<in> e_user_id ` set es"
    using assms(2) arg_cong [OF es(2), of set] by (auto intro: rev_image_eqI)
  then show ?thesis using es unfolding has_copy_def by auto
qed

lemma sending_copy:
  "Send svc env now rcv u req ip db = Inr (db', m) \<Longrightarrow> has_copy db' u (m_id m)"
  "SaveDraft svc env now rcv u req rep ip db = Inr (db', m) \<Longrightarrow> has_copy db' u (m_id m)"
  by (auto simp: Send_def SaveDraft_def Let_def elim!: save_from_copy)

lemma error_shows_nothing [simp]:
  "shown_content (rs_body (handleStoreError e)) = {}" "shown_content (rs_body (service_error_reply se)) = {}"
  "shown_content (rs_body (writeError n code)) = {}"
  by (auto simp: handleStoreError_def service_error_reply_def writeError_def reply_def
      split: store_error.split service_error.split)

text \<open>What the pages show: own mail, or, to administrators, mail whose view is in the audit trail.\<close>

lemma decode_shows_nothing: "decodeJSON d r n = Inl e \<Longrightarrow> shown_content (rs_body e) = {}"
  by (auto simp: decodeJSON_def Let_def of_option_def split: option.splits if_splits)

lemmas show_simps = finish_def bind_res_def guard_err_def store_res_def service_res_def of_option_def Let_def reply_def split_beta

lemma mail_pages_show:
  "message_page u j db = (db', resp) \<Longrightarrow> i \<in> shown_content (rs_body resp) \<Longrightarrow> has_copy db u i"
  "attachment_page u j db = (db', resp) \<Longrightarrow> i \<in> shown_content (rs_body resp) \<Longrightarrow> has_copy db u i"
  "messages_page srv r u db = (db', resp) \<Longrightarrow> i \<in> shown_content (rs_body resp) \<Longrightarrow> has_copy db u i"
  "compose_page srv he r u db = (db', resp) \<Longrightarrow> i \<in> shown_content (rs_body resp) \<Longrightarrow> has_copy db' u i"
  "draft_page srv he r u db = (db', resp) \<Longrightarrow> i \<in> shown_content (rs_body resp) \<Longrightarrow> has_copy db' u i"
  subgoal by (auto simp: message_page_def show_simps GetMessage_copy split: sum.splits)
  subgoal by (auto simp: attachment_page_def serveAttachment_def show_simps GetAttachment_copy split: sum.splits)
  subgoal by (auto simp: messages_page_def cut_page_def show_simps dest!: in_set_takeD ListMessages_copy [rotated -1])
  subgoal by (auto simp: compose_page_def show_simps dest: decode_shows_nothing sending_copy split: sum.splits)
  subgoal by (auto simp: draft_page_def show_simps dest: decode_shows_nothing sending_copy split: sum.splits)
  done

lemma mail_pages_show_nothing:
  "flags_page srv r u j db = (db', resp) \<Longrightarrow> shown_content (rs_body resp) = {}"
  "move_page srv he r u j db = (db', resp) \<Longrightarrow> shown_content (rs_body resp) = {}"
  "expunge_page srv he r u j db = (db', resp) \<Longrightarrow> shown_content (rs_body resp) = {}"
  "createAppPassword_page srv he r u db = (db', resp) \<Longrightarrow> shown_content (rs_body resp) = {}"
  "revokeAppPassword_page srv he r u j db = (db', resp) \<Longrightarrow> shown_content (rs_body resp) = {}"
  "logout_page srv he r u db = (db', resp) \<Longrightarrow> shown_content (rs_body resp) = {}"
  "mailboxes_page u db = (db', resp) \<Longrightarrow> shown_content (rs_body resp) = {}"
  "appPasswords_page u db = (db', resp) \<Longrightarrow> shown_content (rs_body resp) = {}"
  "me_page srv u db = (db', resp) \<Longrightarrow> shown_content (rs_body resp) = {}"
  by (auto simp: flags_page_def move_page_def expunge_page_def createAppPassword_page_def revokeAppPassword_page_def
      logout_page_def mailboxes_page_def appPasswords_page_def me_page_def clearSessionCookie_def show_simps
      dest: decode_shows_nothing split: sum.splits option.splits)

lemma user_page_shows:
  assumes "user_page srv he r e = Some h" and "h u db = (db', resp)" and "i \<in> shown_content (rs_body resp)"
  shows "has_copy db u i \<or> has_copy db' u i"
  using assms by (cases e) (auto dest: mail_pages_show mail_pages_show_nothing)

definition reviewed :: "db \<Rightarrow> db \<Rightarrow> user \<Rightarrow> string \<Rightarrow> bool" where
  "reviewed db db' u i \<longleftrightarrow> (\<exists>row. audit_log db' = audit_log db @ [row] \<and> ev_actor_id row = u_id u \<and> 4 \<le> RuneCount (ev_reason row)
     \<and> (ev_action row = ''archive.message.view'' \<and> ev_target_id row = i
        \<or> ev_action row = ''archive.attachment.download''
          \<and> (\<exists>a \<in> set (attachments db). at_id a = ev_target_id row \<and> at_message_id a = i)))"

lemma Audit_event_row:
  "Audit_event env db ev = Inr db' \<Longrightarrow> \<exists>row. audit_log db' = audit_log db @ [row] \<and> ev_action row = ev_action ev
     \<and> ev_actor_id row = ev_actor_id ev \<and> ev_target_id row = ev_target_id ev \<and> ev_reason row = ev_reason ev"
  by (auto simp: Audit_event_def dest!: insertAudit_Inr(1))

lemma archive_pages_show:
  "adminArchiveView_page srv he r u j db = (db', resp) \<Longrightarrow> i \<in> shown_content (rs_body resp) \<Longrightarrow> reviewed db db' u i"
  "adminAttachment_page srv he r u j k db = (db', resp) \<Longrightarrow> i \<in> shown_content (rs_body resp) \<Longrightarrow> reviewed db db' u i"
  subgoal by (auto simp: adminArchiveView_page_def AdminView_def of_store_def reviewed_def show_simps
        dest: decode_shows_nothing dest!: Audit_event_row split: sum.splits if_splits)
  subgoal by (auto simp: adminAttachment_page_def serveAttachment_def web_event_def GetAttachment_def reviewed_def show_simps
        dest: decode_shows_nothing dest!: Audit_event_row find_SomeD split: sum.splits if_splits option.splits)
  done

lemma admin_list_blank:
  "mq_admin q \<Longrightarrow> m \<in> set (ListMessages lib fts db q) \<Longrightarrow> m_text m = [] \<and> m_html m = [] \<and> m_snippet m = [] \<and> m_raw m = []"
  by (auto simp: ListMessages_def Let_def without_content_def)

lemma admin_pages_show_nothing:
  "adminArchive_page srv he r u db = (db', resp) \<Longrightarrow> shown_content (rs_body resp) = {}"
  "adminCreateDomain_page srv he r u db = (db', resp) \<Longrightarrow> shown_content (rs_body resp) = {}"
  "adminDomainVerify_page srv he r u j db = (db', resp) \<Longrightarrow> shown_content (rs_body resp) = {}"
  "adminDomainDNS_page srv j db = (db', resp) \<Longrightarrow> shown_content (rs_body resp) = {}"
  "adminCreateUser_page srv he r u db = (db', resp) \<Longrightarrow> shown_content (rs_body resp) = {}"
  "adminUpdateUser_page srv he r u j db = (db', resp) \<Longrightarrow> shown_content (rs_body resp) = {}"
  "adminCreateAlias_page srv he r u db = (db', resp) \<Longrightarrow> shown_content (rs_body resp) = {}"
  "adminAudit_page r db = (db', resp) \<Longrightarrow> shown_content (rs_body resp) = {}"
  subgoal by (auto simp: adminArchive_page_def cut_page_def show_simps dest!: in_set_takeD admin_list_blank [rotated] split: sum.splits)
  by (auto simp: adminCreateDomain_page_def adminDomainVerify_page_def adminDomainDNS_page_def adminCreateUser_page_def
      adminUpdateUser_page_def adminCreateAlias_page_def adminAudit_page_def show_simps
      dest: decode_shows_nothing split: sum.splits option.splits if_splits)

lemma admin_page_shows:
  assumes "admin_page srv he r e = Some h" and "h u db = (db', resp)" and "i \<in> shown_content (rs_body resp)"
  shows "reviewed db db' u i"
  using assms
  by (cases e) (auto dest: archive_pages_show admin_pages_show_nothing
      simp: adminStats_page_def adminDomains_page_def adminUsers_page_def adminAliases_page_def adminQueue_page_def reply_def)

lemma touched_keeps: "touched db db' \<Longrightarrow> entries db' = entries db \<and> audit_log db' = audit_log db \<and> attachments db' = attachments db
    \<and> users db' = users db"
  by (auto simp: touched_def)

lemma open_page_shows_nothing:
  assumes "e \<in> open_endpoints"
  shows "shown_content (rs_body (snd (open_page srv he r e w))) = {}"
  using assms
  by (auto simp: open_endpoints_def open_page_def health_page_def status_page_def setup_page_def login_page_def new_session_def
      not_routed_def setSessionCookie_def show_simps dest!: decode_shows_nothing split: sum.splits option.splits prod.splits if_splits)


section \<open>An example\<close>

definition ex_http_lib :: http_lib where
  "ex_http_lib = \<lparr>hl_split_host_port = (\<lambda>_. None), hl_url = (\<lambda>_. None), hl_fts = (\<lambda>_ _. True), hl_quote = (\<lambda>s. s),
     hl_list_metadata = (\<lambda>_ _ _. ''{}''), hl_file_size = (\<lambda>_. None), hl_setup = (\<lambda>_. None), hl_login = (\<lambda>_. None),
     hl_field = (\<lambda>_. Some), hl_flags = (\<lambda>_. None), hl_compose = (\<lambda>_. None), hl_draft = (\<lambda>_. None),
     hl_create_user = (\<lambda>_. None), hl_update_user = (\<lambda>_. None), hl_alias = (\<lambda>_. None), hl_empty = (\<lambda>_. None)\<rparr>"

definition ex_server :: http_server where
  "ex_server = \<lparr>hs_service = ex_service, hs_lib = ex_http_lib, hs_version = ''1'', hs_sqlite_version = ''3'', hs_static = None\<rparr>"

definition ex_http_env :: http_env where
  "ex_http_env = \<lparr>he_store = (\<lambda>_. send_env), he_now = 7, he_token = ''t''\<rparr>"

definition ex_web_db :: db where
  "ex_web_db = send_db\<lparr>messages := [listed_message ''m1'' ''hi''], entries := [], sessions :=
     [\<lparr>s_id = ''ses1'', s_user_id = ''usrAA'', s_token_hash = TokenHash (hs_crypto ex_server) ''c'', s_auth_version = 1,
       s_created = 1, s_expires = 9, s_last_seen = 1, s_ip = [], s_user_agent = []\<rparr>]\<rparr>"

definition ex_view_request :: http_request where
  "ex_view_request = \<lparr>rq_method = ''POST'', rq_path = [''api'', ''admin'', ''archive'', ''m1'', ''view''], rq_query = (\<lambda>_. []),
     rq_header = (\<lambda>h. if h = ''Content-Type'' then ''application/json'' else []), rq_cookie = Some ''c'',
     rq_remote_addr = ''1.2.3.4'', rq_body = ''a dispute''\<rparr>"

definition ex_world :: http_world where
  "ex_world = \<lparr>hw_db = ex_web_db, hw_limiter = fmempty\<rparr>"

lemma ex_view:
  "(let (w, resp) = serve ex_server ex_http_env ex_view_request ex_world in (rs_status resp, shown_content (rs_body resp)))
     = (200, {''m1''})"
  by code_simp

lemma ex_view_entries: "entries (hw_db (fst (serve ex_server ex_http_env ex_view_request ex_world))) = []"
  by code_simp

lemma ex_view_route: "route (rq_method ex_view_request) (rq_path ex_view_request) = AdminArchiveView ''m1''"
  by code_simp



end
