(* ===== verification/WebLogin.thy ===== *)
theory WebLogin
  imports HttpProperties
begin

text \<open>
  The limiter of the web interface over histories of requests: its memory, and how many wrong passwords of
  an account are tried.
\<close>

section \<open>One call of the limiter\<close>

lemma fcard_filter_le: "fcard (fmdom (fmfilter P l)) \<le> fcard (fmdom l)"
  by (rule fcard_mono) auto

lemma fcard_upd: "fcard (fmdom (fmupd k v l)) = (if fmlookup l k = None then Suc (fcard (fmdom l)) else fcard (fmdom l))"
  by (auto simp: fcard_finsert_if fmlookup_dom_iff)

lemma allow_size:
  assumes "fcard (fmdom l) \<le> 10000"
  shows "fcard (fmdom (snd (allow l now key limit span))) \<le> 10000"
proof -
  define crowded where "crowded \<longleftrightarrow> fmlookup l key = None \<and> fcard (fmdom l) \<ge> 10000"
  define l1 where "l1 = (if crowded then fmfilter (\<lambda>k. \<not> stale (now - span) (the (fmlookup l k))) l else l)"
  have l1: "fcard (fmdom l1) \<le> 10000"
    using assms le_trans [OF fcard_filter_le assms] by (simp add: l1_def del: fmdom_filter)
  have "fmlookup l1 key = None \<longleftrightarrow> fmlookup l key = None" by (auto simp: l1_def crowded_def)
  then have upd: "fcard (fmdom (fmupd key x l1)) \<le> 10000" if "\<not> (crowded \<and> fcard (fmdom l1) \<ge> 10000)" for x
    using that l1 assms unfolding fcard_upd by (auto simp: l1_def crowded_def split: if_splits)
  have "snd (allow l now key limit span) = l1 \<and> crowded \<and> fcard (fmdom l1) \<ge> 10000
    \<or> \<not> (crowded \<and> fcard (fmdom l1) \<ge> 10000) \<and> (\<exists>x. snd (allow l now key limit span) = fmupd key x l1)"
    by (simp add: allow_def Let_def crowded_def l1_def) blast
  then show ?thesis using l1 upd by auto
qed

lemma clear_size: "fcard (fmdom (clear l key)) \<le> fcard (fmdom l)"
  unfolding clear_def by (rule fcard_mono) auto

text \<open>The attempts of a key that the limiter remembers, and how many of them are after a time.\<close>

definition remembered :: "login_limiter \<Rightarrow> string \<Rightarrow> time list" where
  "remembered l key = (case fmlookup l key of None \<Rightarrow> [] | Some ts \<Rightarrow> ts)"

definition after :: "time \<Rightarrow> time list \<Rightarrow> nat" where
  "after c ts = length (filter (\<lambda>t. t > c) ts)"

lemma after_append [simp]: "after c (xs @ ys) = after c xs + after c ys"
  by (simp add: after_def)

lemma after_filter: "c0 \<le> c \<Longrightarrow> after c (filter (\<lambda>t. t > c0) ts) = after c ts"
  by (induction ts) (auto simp: after_def)

lemma stale_after:
  assumes "stale cutoff ts" and "sorted ts" and "cutoff \<le> c"
  shows "after c ts = 0"
proof (cases ts rule: rev_exhaust)
  case (snoc xs x)
  then have "\<forall>t \<in> set ts. t \<le> x" "x < cutoff" using assms(1,2) by (auto simp: stale_def sorted_append)
  then show ?thesis using assms(3) by (fastforce simp: after_def filter_empty_conv)
qed (simp add: after_def)

lemma sweep_remembered:
  assumes "sorted (remembered l k)" and "cutoff \<le> c"
  shows "after c (remembered (fmfilter (\<lambda>j. \<not> stale cutoff (the (fmlookup l j))) l) k) = after c (remembered l k)"
  using assms stale_after [of cutoff _ c] by (auto simp: remembered_def after_def split: option.splits)

lemma allow_remembered:
  assumes "allow l now key limit span = (ok, l')"
  shows "ok \<Longrightarrow> remembered l' key = filter (\<lambda>t. t > now - span) (remembered l key) @ [now]"
    and "ok \<Longrightarrow> after (now - span) (remembered l key) < limit"
    and "\<not> ok \<Longrightarrow> remembered l' key \<in> {remembered l key, filter (\<lambda>t. t > now - span) (remembered l key)}"
    and "k \<noteq> key \<Longrightarrow> remembered l' k
      \<in> {remembered l k, remembered (fmfilter (\<lambda>j. \<not> stale (now - span) (the (fmlookup l j))) l) k}"
  using assms by (auto simp: allow_def Let_def remembered_def after_def split: if_splits option.splits)

section \<open>One key over time\<close>

text \<open>
  The limiter never forgets an attempt of the last \<open>W\<close> of time, so the attempts \<open>hist\<close> that count are at most
  \<open>L\<close> in every stretch of that length. \<open>T\<close> is the time of the last request.
\<close>

definition in_stretch :: "duration \<Rightarrow> time \<Rightarrow> time list \<Rightarrow> nat" where
  "in_stretch W t ts = length (filter (\<lambda>s. t - W < s \<and> s \<le> t) ts)"

definition key_inv :: "duration \<Rightarrow> nat \<Rightarrow> string \<Rightarrow> time \<Rightarrow> login_limiter \<Rightarrow> time list \<Rightarrow> bool" where
  "key_inv W L k T l hist \<longleftrightarrow> sorted (remembered l k) \<and> (\<forall>t \<in> set (remembered l k). t \<le> T)
     \<and> (\<forall>c. T - W \<le> c \<longrightarrow> after c hist \<le> after c (remembered l k)) \<and> (\<forall>t. in_stretch W t hist \<le> L)"

lemma key_inv_remembered:
  assumes "key_inv W L k T l hist" and "T \<le> now" and "sorted (remembered l' k)" and "\<forall>t \<in> set (remembered l' k). t \<le> now"
    and "\<And>c. now - W \<le> c \<Longrightarrow> after c (remembered l k) \<le> after c (remembered l' k)"
  shows "key_inv W L k now l' hist"
proof -
  have "after c hist \<le> after c (remembered l' k)" if "now - W \<le> c" for c
    using assms(1,2) assms(5) [OF that] that unfolding key_inv_def by (meson diff_right_mono order_trans)
  then show ?thesis using assms unfolding key_inv_def by blast
qed

lemma key_inv_allow:
  assumes inv: "key_inv W L k T l hist" and a: "allow l now key limit span = (ok, l')" and T: "T \<le> now" and W: "W \<le> span"
    and own: "key = k \<Longrightarrow> span = W"
  shows "key_inv W L k now l' hist"
proof -
  let ?ts = "remembered l k" and ?sweep = "fmfilter (\<lambda>j. \<not> stale (now - span) (the (fmlookup l j))) l"
  have sorted: "sorted ?ts" and bound: "\<forall>t \<in> set ?ts. t \<le> now" using inv T by (auto simp: key_inv_def)
  have keep: "key_inv W L k now l' hist" if "remembered l' k = ?ts"
    by (rule key_inv_remembered [OF inv T]) (simp_all add: that sorted bound)
  show ?thesis
  proof (cases "key = k")
    case False
    have "sorted (remembered ?sweep k)" "set (remembered ?sweep k) \<subseteq> set ?ts" using sorted by (auto simp: remembered_def)
    moreover have "after c (remembered ?sweep k) = after c ?ts" if "now - W \<le> c" for c
      by (rule sweep_remembered [OF sorted]) (use that W in simp)
    ultimately have "key_inv W L k now l' hist" if "remembered l' k = remembered ?sweep k"
      by (intro key_inv_remembered [OF inv T]) (use that bound in \<open>auto simp: subset_iff\<close>)
    then show ?thesis using keep allow_remembered(4) [OF a, of k] False by blast
  next
    case True
    let ?rs = "filter (\<lambda>t. t > now - W) ?ts"
    have rs: "sorted ?rs" "\<forall>t \<in> set ?rs. t \<le> now" using sorted bound by (auto intro: sorted_wrt_filter)
    have cnt: "after c ?rs = after c ?ts" if "now - W \<le> c" for c by (rule after_filter [OF that])
    have new: "key_inv W L k now l' hist" if "remembered l' k = ?rs @ ys" "set ys \<subseteq> {now}" "sorted ys" for ys
      by (rule key_inv_remembered [OF inv T]) (use that rs cnt in \<open>auto simp: sorted_append\<close>)
    show ?thesis
      using allow_remembered(1,3) [OF a] keep new [of "[now]"] new [of "[]"] True own by (cases ok) auto
  qed
qed

lemma in_stretch_append [simp]: "in_stretch W t (xs @ ys) = in_stretch W t xs + in_stretch W t ys"
  by (simp add: in_stretch_def)

lemma in_stretch_after: "in_stretch W t ts \<le> after (t - W) ts"
  by (induction ts) (auto simp: in_stretch_def after_def)

lemma key_inv_admitted:
  assumes inv: "key_inv W L k T l hist" and a: "allow l now k L W = (True, l')" and T: "T \<le> now"
  shows "key_inv W L k now l' (hist @ [now])"
proof -
  have le: "after c hist \<le> after c (remembered l k)" if "now - W \<le> c" for c
    using inv that T by (simp add: key_inv_def)
  have "in_stretch W t (hist @ [now]) \<le> L" for t
  proof (cases "t - W < now \<and> now \<le> t")
    case True
    have "in_stretch W t hist \<le> after (t - W) hist" by (rule in_stretch_after)
    also have "\<dots> \<le> after (now - W) hist" using True unfolding after_def by (induction hist) auto
    also have "\<dots> \<le> after (now - W) (remembered l k)" by (rule le) simp
    also have "\<dots> < L" using allow_remembered(2) [OF a] by simp
    finally show ?thesis using True by (simp add: in_stretch_def)
  next
    case False
    then show ?thesis using inv by (auto simp: key_inv_def in_stretch_def)
  qed
  moreover have "after c (hist @ [now]) \<le> after c (remembered l' k)" if "now - W \<le> c" for c
    using le [OF that] after_filter [OF that, of "remembered l k"] allow_remembered(1) [OF a] by simp
  moreover have "key_inv W L k now l' hist" by (rule key_inv_allow [OF inv a T]) simp_all
  ultimately show ?thesis by (simp add: key_inv_def)
qed

lemma key_inv_clear:
  assumes "key_inv W L k T l hist"
  shows "key_inv W L k T (clear l key) (if key = k then [] else hist)"
  using assms by (auto simp: key_inv_def remembered_def clear_def after_def in_stretch_def)

section \<open>Requests\<close>

lemma limiter_after_serve:
  "hw_limiter (fst (serve srv he r w)) = hw_limiter w
   \<or> csrf srv r = None \<and> route (rq_method r) (rq_path r) = SetupPage \<and> serve srv he r w = setup_page srv he r w
   \<or> csrf srv r = None \<and> route (rq_method r) (rq_path r) = Login \<and> serve srv he r w = login_page srv he r w"
  by (cases "route (rq_method r) (rq_path r)")
    (auto simp: serve_def Let_def open_page_def split: option.split prod.split)

text \<open>A login of the account \<open>a\<close>.\<close>

definition login_for :: "http_server \<Rightarrow> http_request \<Rightarrow> string \<Rightarrow> bool" where
  "login_for srv r a \<longleftrightarrow> csrf srv r = None \<and> route (rq_method r) (rq_path r) = Login
     \<and> (case decodeJSON (hl_login (hs_lib srv)) r small_body of Inl _ \<Rightarrow> False
          | Inr (email, _) \<Rightarrow> ToLower (TrimSpace email) = a)"

text \<open>
  A request, together with the times of the wrong passwords of \<open>a\<close> since its last successful login.
\<close>

fun web_step :: "http_server \<Rightarrow> string \<Rightarrow> http_world \<times> time list \<Rightarrow> http_env \<times> http_request \<Rightarrow> http_world \<times> time list" where
  "web_step srv a (w, wrong) (he, r) =
     (case serve srv he r w of (w', resp) \<Rightarrow>
        (w', if \<not> login_for srv r a then wrong
             else if rs_status resp = 401 then wrong @ [he_now he]
             else if rs_status resp = 200 then [] else wrong))"

definition account_key :: "string \<Rightarrow> string" where
  "account_key a = ''login-account:'' @ a"

abbreviation quarter :: duration where "quarter \<equiv> 15 * minute"

lemma other_keys: "account_key a \<noteq> ''setup:'' @ x" "account_key a \<noteq> ''login-ip:'' @ x"
  "account_key a = account_key b \<longleftrightarrow> a = b"
  by (simp_all add: account_key_def)

lemma setup_page_limiter:
  "hw_limiter (fst (setup_page srv he r w))
     \<in> {snd (allow (hw_limiter w) (he_now he) (''setup:'' @ clientIP srv r) 10 hour),
        clear (snd (allow (hw_limiter w) (he_now he) (''setup:'' @ clientIP srv r) 10 hour)) (''setup:'' @ clientIP srv r)}"
  by (auto simp: setup_page_def Let_def split: prod.splits sum.splits)

lemma login_page_cases:
  assumes "login_page srv he r w = (w', resp)"
  defines "ip \<equiv> ''login-ip:'' @ clientIP srv r"
  obtains (refused) "hw_limiter w' = hw_limiter w" "\<And>a. \<not> login_for srv r a"
  | (ip_limited) "hw_limiter w' = snd (allow (hw_limiter w) (he_now he) ip 100 quarter)" "rs_status resp = 429"
  | (limited) b l1 where "decodeJSON (hl_login (hs_lib srv)) r small_body = Inr b"
      "allow (hw_limiter w) (he_now he) ip 100 quarter = (True, l1)" "rs_status resp = 429"
      "hw_limiter w' = snd (allow l1 (he_now he) (account_key (ToLower (TrimSpace (fst b)))) 10 quarter)"
  | (tried) b l1 l2 where "decodeJSON (hl_login (hs_lib srv)) r small_body = Inr b"
      "allow (hw_limiter w) (he_now he) ip 100 quarter = (True, l1)"
      "allow l1 (he_now he) (account_key (ToLower (TrimSpace (fst b)))) 10 quarter = (True, l2)"
      "hw_limiter w' = (if rs_status resp = 200 then clear l2 (account_key (ToLower (TrimSpace (fst b)))) else l2)"
proof (cases "decodeJSON (hl_login (hs_lib srv)) r small_body")
  case (Inl e)
  then show thesis using refused assms(1) by (simp add: login_page_def login_for_def)
next
  case (Inr b)
  obtain ok1 l1 where a1: "allow (hw_limiter w) (he_now he) ip 100 quarter = (ok1, l1)" by fastforce
  show thesis
  proof (cases ok1)
    case False
    then show thesis using ip_limited assms Inr a1 by (auto simp: login_page_def Let_def writeError_def reply_def split: prod.splits)
  next
    case ok1: True
    obtain ok2 l2 where a2: "allow l1 (he_now he) (account_key (ToLower (TrimSpace (fst b)))) 10 quarter = (ok2, l2)" by fastforce
    show thesis
    proof (cases ok2)
      case False
      then show thesis using limited [OF Inr _ _ _, of l1] ok1 assms Inr a1 a2
        by (auto simp: login_page_def Let_def writeError_def reply_def account_key_def split: prod.splits)
    next
      case ok2: True
      have "new_session srv he r 2 u db = Inl e \<Longrightarrow> rs_status e \<noteq> 200" for u db e
        by (auto simp: new_session_def store_res_def of_option_def bind_res_def handleStoreError_def writeError_def reply_def Let_def
            split: sum.splits option.splits store_error.splits)
      then show thesis using tried [OF Inr] ok1 ok2 assms Inr a1 a2
        by (auto simp: login_page_def Let_def writeError_def reply_def account_key_def setSessionCookie_def split: prod.splits sum.splits)
    qed
  qed
qed

lemma web_step_inv:
  assumes inv: "key_inv quarter 10 (account_key a) T (hw_limiter w) wrong" and T: "T \<le> he_now he"
    and s: "web_step srv a (w, wrong) (he, r) = (w', wrong')"
  shows "key_inv quarter 10 (account_key a) (he_now he) (hw_limiter w') wrong'"
proof -
  let ?k = "account_key a" and ?now = "he_now he"
  have frame: "key_inv quarter 10 ?k ?now (hw_limiter w) wrong"
    by (rule key_inv_remembered [OF inv T]) (use inv T in \<open>auto simp: key_inv_def\<close>)
  have other: "key_inv quarter 10 ?k ?now (snd (allow l ?now key n span)) h"
    if "key_inv quarter 10 ?k ?now l h" "quarter \<le> span" "key = ?k \<Longrightarrow> span = quarter" for l h key n span
    using key_inv_allow [OF that(1), of ?now key n span] that by (cases "allow l ?now key n span") simp
  obtain resp where r: "serve srv he r w = (w', resp)" using s by (auto split: prod.splits)
  have wrong': "wrong' = (if \<not> login_for srv r a then wrong else if rs_status resp = 401 then wrong @ [?now]
      else if rs_status resp = 200 then [] else wrong)" using s r by simp
  consider (same) "hw_limiter w' = hw_limiter w" "route (rq_method r) (rq_path r) \<noteq> Login \<or> csrf srv r \<noteq> None"
    | (initial) "route (rq_method r) (rq_path r) = SetupPage" "setup_page srv he r w = (w', resp)"
    | (login) "csrf srv r = None" "route (rq_method r) (rq_path r) = Login" "login_page srv he r w = (w', resp)"
  proof -
    have "serve srv he r w = login_page srv he r w" if "csrf srv r = None" "route (rq_method r) (rq_path r) = Login"
      using that by (simp add: serve_def Let_def open_page_def)
    then show ?thesis using that limiter_after_serve [of srv he r w] r by fastforce
  qed
  then show ?thesis
  proof cases
    case same
    then have "\<not> login_for srv r a" by (auto simp: login_for_def)
    then show ?thesis using frame same wrong' by simp
  next
    case initial
    then have "wrong' = wrong" using wrong' by (simp add: login_for_def)
    moreover note setup_page_limiter [of srv he r w, unfolded initial(2)]
      other [OF frame, of hour "''setup:'' @ clientIP srv r" 10] other_keys(1) [of a "clientIP srv r"]
    moreover have "key_inv quarter 10 ?k ?now (clear l (''setup:'' @ clientIP srv r)) wrong"
      if "key_inv quarter 10 ?k ?now l wrong" for l
      using key_inv_clear [OF that, of "''setup:'' @ clientIP srv r"] other_keys(1) [of a "clientIP srv r"] by auto
    ultimately show ?thesis by auto
  next
    case login
    let ?ip = "''login-ip:'' @ clientIP srv r"
    have ip: "key_inv quarter 10 ?k ?now (snd (allow (hw_limiter w) ?now ?ip 100 quarter)) wrong"
      by (rule other [OF frame]) (use other_keys(2) [of a "clientIP srv r"] in auto)
    show ?thesis
    proof (rule login_page_cases [OF login(3)], goal_cases)
      case 1
      then show ?case using frame wrong' by simp
    next
      case 2
      then show ?case using ip wrong' by simp
    next
      case (3 b l1)
      then show ?case using other [OF ip, of quarter "account_key (ToLower (TrimSpace (fst b)))" 10] wrong' by simp
    next
      case (4 b l1 l2)
      let ?b = "ToLower (TrimSpace (fst b))"
      have mine: "login_for srv r a \<longleftrightarrow> a = ?b" using login 4(1) by (auto simp: login_for_def split: prod.splits)
      have l1: "key_inv quarter 10 ?k ?now l1 wrong" using ip 4(2) by simp
      have l2: "key_inv quarter 10 ?k ?now l2 wrong"
        using other [OF l1, of quarter "account_key ?b" 10] 4(3) by simp
      show ?case
      proof (cases "a = ?b")
        case True
        have "key_inv quarter 10 ?k ?now l2 (wrong @ [?now])"
          by (rule key_inv_admitted [OF l1]) (use 4(3) True in simp_all)
        then show ?thesis using 4(4) wrong' mine True l2 key_inv_clear [OF l2, of ?k] by auto
      next
        case False
        then show ?thesis using 4(4) wrong' mine l2 key_inv_clear [OF l2, of "account_key ?b"] other_keys(3) [of a ?b] by auto
      qed
    qed
  qed
qed

lemma web_run_inv:
  "key_inv quarter 10 (account_key a) T (hw_limiter (fst s)) (snd s) \<Longrightarrow> sorted (T # map (\<lambda>x. he_now (fst x)) reqs)
    \<Longrightarrow> \<exists>T'. key_inv quarter 10 (account_key a) T' (hw_limiter (fst (foldl (web_step srv a) s reqs))) (snd (foldl (web_step srv a) s reqs))"
proof (induction reqs arbitrary: s T)
  case (Cons x reqs)
  obtain w wrong he r where p: "s = (w, wrong)" "x = (he, r)" by (cases s, cases x)
  obtain w' wrong' where st: "web_step srv a (w, wrong) (he, r) = (w', wrong')" by fastforce
  have "key_inv quarter 10 (account_key a) (he_now he) (hw_limiter w') wrong'"
    by (rule web_step_inv [OF _ _ st]) (use Cons.prems p in auto)
  from Cons.IH [of "he_now he" "(w', wrong')"] this Cons.prems(2) show ?case by (simp add: p st del: web_step.simps)
qed auto

lemma serve_limiter_size:
  assumes "fcard (fmdom (hw_limiter w)) \<le> 10000"
  shows "fcard (fmdom (hw_limiter (fst (serve srv he r w)))) \<le> 10000"
proof -
  have clear: "fcard (fmdom (clear l k)) \<le> 10000" if "fcard (fmdom l) \<le> 10000" for l k
    using that clear_size le_trans by blast
  have "fcard (fmdom (hw_limiter (fst (setup_page srv he r w)))) \<le> 10000"
    using setup_page_limiter [of srv he r w] allow_size [OF assms] clear by auto
  moreover have "fcard (fmdom (hw_limiter (fst (login_page srv he r w)))) \<le> 10000"
  proof -
    obtain w' resp where l: "login_page srv he r w = (w', resp)" by fastforce
    show ?thesis
    proof (rule login_page_cases [OF l], goal_cases)
      case (3 b l1)
      then have "fcard (fmdom l1) \<le> 10000" using allow_size [OF assms] by (metis snd_conv)
      then show ?case using allow_size 3(4) l by simp
    next
      case (4 b l1 l2)
      then have "fcard (fmdom l1) \<le> 10000" using allow_size [OF assms] by (metis snd_conv)
      then have "fcard (fmdom l2) \<le> 10000" using allow_size 4(3) by (metis snd_conv)
      then show ?case using clear 4(4) l by simp
    qed (use l assms allow_size in simp_all)
  qed
  ultimately show ?thesis using limiter_after_serve [of srv he r w] assms by auto
qed

lemma web_run_size:
  "fcard (fmdom (hw_limiter (fst s))) \<le> 10000 \<Longrightarrow> fcard (fmdom (hw_limiter (fst (foldl (web_step srv a) s reqs)))) \<le> 10000"
proof (induction reqs arbitrary: s)
  case (Cons x reqs)
  have "fst (web_step srv a s x) = fst (serve srv (fst x) (snd x) (fst s))" by (cases s; cases x) (simp split: prod.split)
  then show ?case using Cons serve_limiter_size [of "fst s"] by simp
qed simp

text \<open>
  C11: Guessing passwords over the web. Whatever requests arrive, in any order of any clients, with a clock that
  does not go backwards, at most ten wrong passwords of one account are tried in any fifteen minutes since its
  last successful login, and the limiter never holds more than ten thousand keys.
\<close>

theorem web_guesses_bounded:
  assumes "sorted (map (\<lambda>x. he_now (fst x)) reqs)"
    and "foldl (web_step srv a) (\<lparr>hw_db = db, hw_limiter = fmempty\<rparr>, []) reqs = (w, wrong)"
  shows "in_stretch quarter t wrong \<le> 10 \<and> fcard (fmdom (hw_limiter w)) \<le> 10000"
proof -
  let ?s = "(\<lparr>hw_db = db, hw_limiter = fmempty\<rparr>, []) :: http_world \<times> time list"
  define T where "T = (case reqs of [] \<Rightarrow> 0 | x # _ \<Rightarrow> he_now (fst x))"
  have "key_inv quarter 10 (account_key a) T (hw_limiter (fst ?s)) (snd ?s)"
    by (simp add: key_inv_def remembered_def after_def in_stretch_def)
  moreover have "sorted (T # map (\<lambda>x. he_now (fst x)) reqs)"
    using assms(1) by (cases reqs) (auto simp: T_def)
  ultimately have "\<exists>T'. key_inv quarter 10 (account_key a) T' (hw_limiter w) wrong"
    using web_run_inv [of a T ?s reqs srv] assms(2) by simp
  moreover have "fcard (fmdom (hw_limiter w)) \<le> 10000"
    using web_run_size [of ?s srv a reqs] assms(2) by (simp add: fcard_fempty)
  ultimately show ?thesis by (auto simp: key_inv_def)
qed

definition guess_server :: http_server where
  "guess_server = ex_server\<lparr>hs_lib := ex_http_lib\<lparr>hl_login := (\<lambda>_. Some (''al@b.io'', ''guess''))\<rparr>\<rparr>"

definition guess_request :: http_request where
  "guess_request = ex_view_request\<lparr>rq_path := [''api'', ''auth'', ''login''], rq_cookie := None\<rparr>"

definition guesses :: "(http_env \<times> http_request) list" where
  "guesses = map (\<lambda>k. (ex_http_env\<lparr>he_now := int k\<rparr>, guess_request)) [0..<12]"

lemma guesses_run:
  "length (snd (foldl (web_step guess_server ''al@b.io'') (\<lparr>hw_db = ex_web_db, hw_limiter = fmempty\<rparr>, []) guesses)) = 10"
  by code_simp

theorem web_guesses_bounded_witness:
  "\<exists>w wrong. foldl (web_step guess_server ''al@b.io'') (\<lparr>hw_db = ex_web_db, hw_limiter = fmempty\<rparr>, []) guesses = (w, wrong)
     \<and> length guesses = 12 \<and> length wrong = 10 \<and> in_stretch quarter 11 wrong \<le> 10"
proof -
  obtain w wrong where run: "foldl (web_step guess_server ''al@b.io'') (\<lparr>hw_db = ex_web_db, hw_limiter = fmempty\<rparr>, []) guesses
      = (w, wrong)" by fastforce
  have "sorted (map (\<lambda>x. he_now (fst x)) guesses)" by (simp add: guesses_def comp_def sorted_map sorted_wrt_upt sorted_wrt_mono_rel [OF _ sorted_upt])
  from web_guesses_bounded [OF this run, of 11] guesses_run run show ?thesis
    by (simp add: guesses_def)
qed

end
