(* ===== verification/Listeners.thy ===== *)
theory Listeners
  imports Config SmtpSession ImapBackend
begin

text \<open>
  The listeners of the mail servers and their TLS: \<open>tlsconfig/provider.go\<close>, \<open>smtpserver/server.go\<close> and
  \<open>imapserver/server.go\<close>. The state is the server and the addresses of all sockets that listen; a bind,
  loading a key pair, making a directory and the loopback test of an IP are the fields of \<open>listen_lib\<close>.
  Serving the connections of a listener is the session of theory SmtpSession or ImapBackend.
\<close>

record listen_lib =
  ll_net :: netlib
  ll_loopback :: "string \<Rightarrow> bool"
  ll_key_pair :: "string \<Rightarrow> string \<Rightarrow> bool"
  ll_mkdir :: "string \<Rightarrow> bool"
  ll_join :: "string \<Rightarrow> string \<Rightarrow> string"
  ll_binds :: "string list \<Rightarrow> string \<Rightarrow> bool"

datatype start_error =
    BadKeyPair
  | NoCacheDir
  | NeedsTLS string
  | CleartextIMAP
  | ListenFailed string string
  | AlreadyStarted
  | AlreadyClosed

section \<open>TLS\<close>

datatype certificates = KeyPair string string | Autocert string string string

record tls_config =
  tc_certificates :: certificates
  tc_min_version :: nat

definition VersionTLS12 :: nat where "VersionTLS12 = 0x303"

definition loadTLSConfig :: "listen_lib \<Rightarrow> server_config \<Rightarrow> start_error + tls_config option" where
  "loadTLSConfig lib cfg =
     (if \<not> TLSConfigured cfg then Inr None
      else guard_err (\<not> ll_key_pair lib (TLSCertPath cfg) (TLSKeyPath cfg)) BadKeyPair
        (Inr (Some \<lparr>tc_certificates = KeyPair (TLSCertPath cfg) (TLSKeyPath cfg), tc_min_version = VersionTLS12\<rparr>)))"

definition secureTLSConfig :: "tls_config option \<Rightarrow> tls_config option" where
  "secureTLSConfig source =
     map_option (\<lambda>t. if tc_min_version t < VersionTLS12 then t\<lparr>tc_min_version := VersionTLS12\<rparr> else t) source"

definition hardened :: "tls_config \<Rightarrow> tls_config" where
  "hardened t = t\<lparr>tc_min_version := VersionTLS12\<rparr>"

record tls_provider =
  pv_tls :: "tls_config option"
  pv_challenge :: bool
  pv_automatic :: bool
  pv_cache_dir :: string

definition New_provider :: "listen_lib \<Rightarrow> server_config \<Rightarrow> start_error + tls_provider" where
  "New_provider lib cfg =
     (if TLSConfigured cfg
      then guard_err (\<not> ll_key_pair lib (TLSCertPath cfg) (TLSKeyPath cfg)) BadKeyPair
        (Inr \<lparr>pv_tls = Some (hardened \<lparr>tc_certificates = KeyPair (TLSCertPath cfg) (TLSKeyPath cfg), tc_min_version = 0\<rparr>),
              pv_challenge = False, pv_automatic = False, pv_cache_dir = []\<rparr>)
      else if \<not> AutoTLS cfg
      then Inr \<lparr>pv_tls = None, pv_challenge = False, pv_automatic = False, pv_cache_dir = []\<rparr>
      else (let cacheDir = ll_join lib (DataDir cfg) ''acme''
            in guard_err (\<not> ll_mkdir lib cacheDir) NoCacheDir
              (Inr \<lparr>pv_tls = Some (hardened \<lparr>tc_certificates = Autocert cacheDir (Hostname cfg) (ACMEEmail cfg), tc_min_version = 0\<rparr>),
                    pv_challenge = True, pv_automatic = True, pv_cache_dir = cacheDir\<rparr>)))"

section \<open>Binding a list of endpoints\<close>

type_synonym sockets = "string list"

definition close_sockets :: "string list \<Rightarrow> sockets \<Rightarrow> sockets" where
  "close_sockets addresses open = fold remove1 addresses open"

text \<open>
  The loop of both \<open>Start\<close> functions over the names and addresses of the endpoints: empty addresses are
  skipped, and a bind that fails closes what was bound.
\<close>

fun bind_all :: "listen_lib \<Rightarrow> (string \<times> string \<times> 's \<Rightarrow> 'e) \<Rightarrow> ('e \<Rightarrow> string) \<Rightarrow> (string \<times> string \<times> 's) list \<Rightarrow> 'e list \<Rightarrow> sockets
    \<Rightarrow> (start_error + 'e list) \<times> sockets" where
  "bind_all lib mk addr [] eps open = (Inr eps, open)"
| "bind_all lib mk addr ((name, address, s) # specs) eps open =
     (if address = [] then bind_all lib mk addr specs eps open
      else if \<not> ll_binds lib open address
      then (Inl (ListenFailed name address), close_sockets (map addr eps) open)
      else bind_all lib mk addr specs (eps @ [mk (name, address, s)]) (address # open))"

section \<open>The SMTP server\<close>

record smtp_endpoint =
  se_name :: string
  se_address :: string
  se_mode :: smtp_mode
  se_implicit :: "tls_config option"
  se_starttls :: "tls_config option"
  se_insecure_auth :: bool
  se_domain :: string
  se_max_bytes :: int
  se_max_recipients :: int

record smtp_server =
  ss_config :: server_config
  ss_tls :: "tls_config option"
  ss_started :: bool
  ss_closed :: bool
  ss_endpoints :: "smtp_endpoint list"

definition NewWithTLS_smtp :: "server_config \<Rightarrow> tls_config option \<Rightarrow> start_error + smtp_server" where
  "NewWithTLS_smtp cfg tls0 =
     (let tls = secureTLSConfig tls0
      in guard_err (SubmissionAddr cfg \<noteq> [] \<and> tls = None \<and> \<not> DevMode cfg) (NeedsTLS ''submission'')
        (guard_err (SMTPSAddr cfg \<noteq> [] \<and> tls = None) (NeedsTLS ''SMTPS'')
        (Inr \<lparr>ss_config = cfg, ss_tls = tls, ss_started = False, ss_closed = False, ss_endpoints = []\<rparr>)))"

definition smtp_specs :: "server_config \<Rightarrow> (string \<times> string \<times> smtp_mode \<times> bool) list" where
  "smtp_specs cfg =
     [(''smtp'', SMTPAddr cfg, Inbound, False), (''submission'', SubmissionAddr cfg, Submission, False),
      (''smtps'', SMTPSAddr cfg, Submission, True)]"

definition smtp_endpoint_of :: "smtp_server \<Rightarrow> string \<times> string \<times> smtp_mode \<times> bool \<Rightarrow> smtp_endpoint" where
  "smtp_endpoint_of srv spec =
     (case spec of (name, address, m, implicit) \<Rightarrow>
        \<lparr>se_name = name, se_address = address, se_mode = m, se_implicit = (if implicit then ss_tls srv else None),
         se_starttls = (if implicit then None else ss_tls srv),
         se_insecure_auth = (m = Submission \<and> DevMode (ss_config srv) \<and> \<not> implicit),
         se_domain = Hostname (ss_config srv), se_max_bytes = MaxMessageBytes (ss_config srv), se_max_recipients = 100\<rparr>)"

definition Start_smtp :: "listen_lib \<Rightarrow> smtp_server \<Rightarrow> sockets \<Rightarrow> start_error option \<times> smtp_server \<times> sockets" where
  "Start_smtp lib srv open =
     (if ss_started srv then (Some AlreadyStarted, srv, open)
      else if ss_closed srv then (Some AlreadyClosed, srv, open)
      else if DisableMailServers (ss_config srv) then (None, srv\<lparr>ss_started := True\<rparr>, open)
      else (case bind_all lib (smtp_endpoint_of srv) se_address (smtp_specs (ss_config srv)) (ss_endpoints srv) open of
          (Inl e, open1) \<Rightarrow> (Some e, srv\<lparr>ss_endpoints := []\<rparr>, open1)
        | (Inr eps, open1) \<Rightarrow> (None, srv\<lparr>ss_endpoints := eps, ss_started := True\<rparr>, open1)))"

definition Close_smtp :: "smtp_server \<Rightarrow> sockets \<Rightarrow> smtp_server \<times> sockets" where
  "Close_smtp srv open =
     (if ss_closed srv then (srv, open)
      else (srv\<lparr>ss_closed := True\<rparr>, close_sockets (map se_address (ss_endpoints srv)) open))"

definition Addr_smtp :: "smtp_server \<Rightarrow> string \<Rightarrow> string option" where
  "Addr_smtp srv name = map_option se_address (find (\<lambda>ep. se_name ep = name) (ss_endpoints srv))"

section \<open>The IMAP server\<close>

record imap_endpoint =
  ie_endpoint :: string
  ie_address :: string
  ie_implicit :: "tls_config option"

record imap_server =
  is_config :: server_config
  is_tls :: "tls_config option"
  is_insecure_auth :: bool
  is_max_literal :: u32
  is_guard :: guard_options
  is_started :: bool
  is_closed :: bool
  is_endpoints :: "imap_endpoint list"

definition isLoopbackListenAddress :: "listen_lib \<Rightarrow> string \<Rightarrow> bool" where
  "isLoopbackListenAddress lib address =
     (case split_host_port (ll_net lib) (TrimSpace address) of
        None \<Rightarrow> False
      | Some (host0, _) \<Rightarrow>
          (let host = TrimChars ''[]'' host0
           in EqualFold host ''localhost''
              \<or> (case parse_ip (ll_net lib) host of None \<Rightarrow> False | Some ip \<Rightarrow> ll_loopback lib ip)))"

definition NewWithTLS_imap :: "listen_lib \<Rightarrow> server_config \<Rightarrow> tls_config option \<Rightarrow> start_error + imap_server" where
  "NewWithTLS_imap lib cfg tls0 =
     (let tls = secureTLSConfig tls0
      in guard_err (IMAPAddr cfg \<noteq> [] \<and> \<not> DisableMailServers cfg
             \<and> (\<not> DevMode cfg \<or> \<not> isLoopbackListenAddress lib (IMAPAddr cfg) \<or> tls \<noteq> None)) CleartextIMAP
        (guard_err (IMAPSAddr cfg \<noteq> [] \<and> tls = None) (NeedsTLS ''IMAPS'')
        (Inr \<lparr>is_config = cfg, is_tls = tls, is_insecure_auth = DevMode cfg,
              is_max_literal = uint32Limit (MaxMessageBytes cfg), is_guard = defaultGuardOptions (MaxMessageBytes cfg),
              is_started = False, is_closed = False, is_endpoints = []\<rparr>)))"

definition imap_specs :: "server_config \<Rightarrow> (string \<times> string \<times> bool) list" where
  "imap_specs cfg = [(''imap'', IMAPAddr cfg, False), (''imaps'', IMAPSAddr cfg, True)]"

definition imap_endpoint_of :: "imap_server \<Rightarrow> string \<times> string \<times> bool \<Rightarrow> imap_endpoint" where
  "imap_endpoint_of srv spec =
     (case spec of (name, address, implicit) \<Rightarrow>
        \<lparr>ie_endpoint = name, ie_address = address, ie_implicit = (if implicit then is_tls srv else None)\<rparr>)"

definition Start_imap :: "listen_lib \<Rightarrow> imap_server \<Rightarrow> sockets \<Rightarrow> start_error option \<times> imap_server \<times> sockets" where
  "Start_imap lib srv open =
     (if is_started srv then (Some AlreadyStarted, srv, open)
      else if is_closed srv then (Some AlreadyClosed, srv, open)
      else if DisableMailServers (is_config srv) then (None, srv\<lparr>is_started := True\<rparr>, open)
      else (case bind_all lib (imap_endpoint_of srv) ie_address (imap_specs (is_config srv)) (is_endpoints srv) open of
          (Inl e, open1) \<Rightarrow> (Some e, srv\<lparr>is_endpoints := []\<rparr>, open1)
        | (Inr eps, open1) \<Rightarrow> (None, srv\<lparr>is_endpoints := eps, is_started := True\<rparr>, open1)))"

definition Close_imap :: "imap_server \<Rightarrow> sockets \<Rightarrow> imap_server \<times> sockets" where
  "Close_imap srv open =
     (if is_closed srv then (srv, open)
      else (srv\<lparr>is_closed := True\<rparr>, close_sockets (map ie_address (is_endpoints srv)) open))"

definition Addr_imap :: "imap_server \<Rightarrow> string \<Rightarrow> string option" where
  "Addr_imap srv name = map_option ie_address (find (\<lambda>ep. ie_endpoint ep = name) (is_endpoints srv))"

section \<open>Both servers as owners of sockets\<close>

text \<open>
  The contract of a server that listens: its calls change the table of sockets only by those it holds
  itself, and a closed one holds none.
\<close>

locale listener_service =
  fixes start :: "'srv \<Rightarrow> sockets \<Rightarrow> start_error option \<times> 'srv \<times> sockets"
    and close :: "'srv \<Rightarrow> sockets \<Rightarrow> 'srv \<times> sockets"
    and held :: "'srv \<Rightarrow> string list"
  assumes start_sockets: "start srv open = (result, srv', open') \<Longrightarrow> mset (held srv) \<subseteq># mset open \<Longrightarrow>
      mset open' + mset (held srv) = mset open + mset (held srv')"
    and start_fails: "start srv open = (Some e, srv', open') \<Longrightarrow> held srv = [] \<Longrightarrow> held srv' = []"
    and close_sockets: "close srv open = (srv', open') \<Longrightarrow> mset (held srv) \<subseteq># mset open \<Longrightarrow>
      mset open' + mset (held srv) = mset open \<and> held srv' = []"
begin

text \<open>Whatever is called in whatever order, what is open beside the server's own sockets stays open.\<close>

lemma calls_sockets:
  assumes "step = (\<lambda>s c. if c then snd (start (fst s) (snd s)) else close (fst s) (snd s))"
  shows "mset (snd s) = base + mset (held (fst s)) \<Longrightarrow> mset (snd (foldl step s cs)) = base + mset (held (fst (foldl step s cs)))"
proof (induction cs arbitrary: s)
  case (Cons c cs)
  have sub: "mset (held (fst s)) \<subseteq># mset (snd s)" using Cons.prems by simp
  have "mset (snd (step s c)) = base + mset (held (fst (step s c)))"
  proof (cases c)
    case True
    obtain e srv' open' where st: "start (fst s) (snd s) = (e, srv', open')" by (metis prod_cases3)
    have "mset open' + mset (held (fst s)) = (base + mset (held srv')) + mset (held (fst s))"
      using start_sockets [OF st sub] Cons.prems by (simp add: ac_simps)
    then show ?thesis using True st by (simp add: assms)
  next
    case False
    obtain srv' open' where cl: "close (fst s) (snd s) = (srv', open')" by fastforce
    then show ?thesis using False close_sockets [OF cl sub] Cons.prems by (simp add: assms)
  qed
  then show ?case using Cons.IH by simp
qed simp

lemma failed_start:
  assumes "start srv open = (Some e, srv', open')" and "held srv = []"
  shows "mset open' = mset open"
  using start_sockets [OF assms(1)] start_fails [OF assms] assms(2) by simp

end

lemma mset_close_sockets: "mset (close_sockets as open) = mset open - mset as"
  unfolding close_sockets_def by (induction as arbitrary: "open") (simp_all add: diff_diff_add_mset)

lemma bind_all_sockets:
  assumes "\<And>n a s. addr (mk (n, a, s)) = a"
  shows "bind_all lib mk addr specs eps open = (r, open') \<Longrightarrow>
    (case r of Inr eps' \<Rightarrow> \<exists>new. mset (map addr eps') = mset (map addr eps) + mset new \<and> mset open' = mset open + mset new
      | Inl _ \<Rightarrow> mset (map addr eps) \<subseteq># mset open \<longrightarrow> mset open' = mset open - mset (map addr eps))"
proof (induction specs arbitrary: eps "open")
  case Nil
  then show ?case by auto
next
  case (Cons x specs)
  obtain name address s where x: "x = (name, address, s)" by (metis prod_cases3)
  show ?case
  proof (cases "address = [] \<or> \<not> ll_binds lib open address")
    case True
    then show ?thesis using Cons x by (auto simp: mset_close_sockets split: if_splits)
  next
    case False
    then have r: "bind_all lib mk addr specs (eps @ [mk x]) (address # open) = (r, open')"
      using Cons.prems x by simp
    have a: "addr (mk x) = address" by (simp add: x assms)
    show ?thesis
    proof (cases r)
      case (Inl e)
      then show ?thesis using Cons.IH [OF r] by (simp add: a)
    next
      case (Inr eps')
      then obtain new where "mset (map addr eps') = mset (map addr (eps @ [mk x])) + mset new" "mset open' = mset (address # open) + mset new"
        using Cons.IH [OF r] by auto
      then show ?thesis using Inr a by (auto intro!: exI [of _ "address # new"])
    qed
  qed
qed

definition smtp_held :: "smtp_server \<Rightarrow> string list" where
  "smtp_held srv = (if ss_closed srv then [] else map se_address (ss_endpoints srv))"

definition imap_held :: "imap_server \<Rightarrow> string list" where
  "imap_held srv = (if is_closed srv then [] else map ie_address (is_endpoints srv))"

lemma smtp_address [simp]: "se_address (smtp_endpoint_of srv (n, a, s)) = a"
  by (cases s) (simp add: smtp_endpoint_of_def)

lemma imap_address [simp]: "ie_address (imap_endpoint_of srv (n, a, s)) = a"
  by (simp add: imap_endpoint_of_def)

lemmas bind_smtp = bind_all_sockets [where addr = se_address and mk = "smtp_endpoint_of srv" for srv, OF smtp_address]
lemmas bind_imap = bind_all_sockets [where addr = ie_address and mk = "imap_endpoint_of srv" for srv, OF imap_address]

interpretation smtp_listener: listener_service "Start_smtp lib" Close_smtp smtp_held for lib
proof (unfold_locales, goal_cases)
  case (1 srv "open" e srv' open')
  then show ?case
    by (auto simp: Start_smtp_def smtp_held_def subset_mset.diff_add split: if_splits prod.splits sum.splits dest!: bind_smtp)
next
  case (2 srv "open" e srv' open')
  then show ?case by (auto simp: Start_smtp_def smtp_held_def split: if_splits prod.splits sum.splits)
next
  case (3 srv "open" srv' open')
  then show ?case
    by (auto simp: Close_smtp_def smtp_held_def mset_close_sockets subset_mset.diff_add split: if_splits)
qed

interpretation imap_listener: listener_service "Start_imap lib" Close_imap imap_held for lib
proof (unfold_locales, goal_cases)
  case (1 srv "open" e srv' open')
  then show ?case
    by (auto simp: Start_imap_def imap_held_def subset_mset.diff_add split: if_splits prod.splits sum.splits dest!: bind_imap)
next
  case (2 srv "open" e srv' open')
  then show ?case by (auto simp: Start_imap_def imap_held_def split: if_splits prod.splits sum.splits)
next
  case (3 srv "open" srv' open')
  then show ?case
    by (auto simp: Close_imap_def imap_held_def mset_close_sockets subset_mset.diff_add split: if_splits)
qed

end
