(* ===== verification/Backup.thy ===== *)
theory Backup
  imports Schema
begin

text \<open>
  \<open>internal/store/maintenance.go\<close>: the integrity check and the backup of the database. The file system is a map
  from absolute paths to files. Calls of the operating system can fail (\<open>fl_fails\<close>); what other processes
  do while the snapshot is written is \<open>fl_meanwhile\<close>; the answers of SQLite's checks on a database file are
  \<open>fl_integrity\<close> and \<open>fl_foreign\<close>. The modes 420 and 384 are 0644 and 0600.
\<close>

record db_file =
  df_content :: "db option"
  df_mode :: nat

type_synonym filesystem = "string \<rightharpoonup> db_file"

datatype backup_call =
    StatCall | MkdirCall | CreateTempCall | CloseTempCall | RemovePlaceholder | VacuumCall | ChmodCall | OpenCall | CloseCall
  | LinkCall | RemoveStaging | DeferredRemove

record fs_lib =
  fl_abs :: "string \<Rightarrow> string option"
  fl_fails :: "backup_call \<Rightarrow> bool"
  fl_temp_name :: "filesystem \<Rightarrow> string"
  fl_partial :: "db_file option"
  fl_meanwhile :: "filesystem \<Rightarrow> filesystem"
  fl_integrity :: "db \<Rightarrow> string option"
  fl_foreign :: "db \<Rightarrow> bool option"

datatype backup_error =
    InvalidDestination | DestinationExists | CallFailed backup_call | IntegrityFailed | ForeignKeysFailed | Violations

text \<open>
  \<open>PRAGMA integrity_check\<close> answers \<open>ok\<close>; \<open>PRAGMA foreign_key_check\<close> has no row. \<open>None\<close> is a failing query.
\<close>

definition integrityCheck :: "fs_lib \<Rightarrow> db \<Rightarrow> backup_error + unit" where
  "integrityCheck lib db =
     (case fl_integrity lib db of
        None \<Rightarrow> Inl IntegrityFailed
      | Some answer \<Rightarrow>
          guard_err (\<not> EqualFold answer ''ok'') IntegrityFailed
          (case fl_foreign lib db of
             None \<Rightarrow> Inl ForeignKeysFailed
           | Some violations \<Rightarrow> guard_err violations Violations (Inr ())))"

definition remove_file :: "fs_lib \<Rightarrow> backup_call \<Rightarrow> string \<Rightarrow> filesystem \<Rightarrow> filesystem" where
  "remove_file lib call path fs = (if fl_fails lib call then fs else fs(path := None))"

text \<open>A file of SQLite that cannot be read is not a database; otherwise it is checked.\<close>

definition validate_file :: "fs_lib \<Rightarrow> db_file option \<Rightarrow> backup_error + unit" where
  "validate_file lib file =
     (case file of
        Some f \<Rightarrow> (case df_content f of Some db \<Rightarrow> integrityCheck lib db | None \<Rightarrow> Inl IntegrityFailed)
      | None \<Rightarrow> Inl IntegrityFailed)"

text \<open>From the snapshot on, the staging file is removed at the end whatever happens.\<close>

definition publish :: "fs_lib \<Rightarrow> db \<Rightarrow> string \<Rightarrow> string \<Rightarrow> filesystem \<Rightarrow> filesystem \<times> (backup_error + unit)" where
  "publish lib db destination temporary fs =
     (if fl_fails lib VacuumCall then (fs(temporary := fl_partial lib), Inl (CallFailed VacuumCall))
      else (let fs1 = fs(temporary \<mapsto> \<lparr>df_content = Some db, df_mode = 420\<rparr>)
            in if fl_fails lib ChmodCall then (fs1, Inl (CallFailed ChmodCall))
               else (let fs2 = fl_meanwhile lib (fs1(temporary \<mapsto> \<lparr>df_content = Some db, df_mode = 384\<rparr>))
                     in if fl_fails lib OpenCall then (fs2, Inl (CallFailed OpenCall))
                        else (case validate_file lib (fs2 temporary) of
                            Inl e \<Rightarrow> (fs2, Inl e)
                          | Inr _ \<Rightarrow>
                              if fl_fails lib CloseCall then (fs2, Inl (CallFailed CloseCall))
                              else if fl_fails lib LinkCall \<or> fs2 destination \<noteq> None then (fs2, Inl (CallFailed LinkCall))
                              else (let fs3 = fs2(destination := fs2 temporary)
                                    in if fl_fails lib RemoveStaging then (fs3, Inl (CallFailed RemoveStaging))
                                       else (fs3(temporary := None), Inr ()))))))"

definition Backup :: "fs_lib \<Rightarrow> db \<Rightarrow> string \<Rightarrow> filesystem \<Rightarrow> filesystem \<times> (backup_error + unit)" where
  "Backup lib db destination0 fs =
     (case fl_abs lib (TrimSpace destination0) of
        None \<Rightarrow> (fs, Inl InvalidDestination)
      | Some destination \<Rightarrow>
          if destination = [] then (fs, Inl InvalidDestination)
          else if fl_fails lib StatCall then (fs, Inl (CallFailed StatCall))
          else if fs destination \<noteq> None then (fs, Inl DestinationExists)
          else if fl_fails lib MkdirCall then (fs, Inl (CallFailed MkdirCall))
          else if fl_fails lib CreateTempCall then (fs, Inl (CallFailed CreateTempCall))
          else (let temporary = fl_temp_name lib fs;
                    fs1 = fs(temporary \<mapsto> \<lparr>df_content = None, df_mode = 384\<rparr>)
                in if fl_fails lib CloseTempCall
                   then (remove_file lib RemovePlaceholder temporary fs1, Inl (CallFailed CloseTempCall))
                   else if fl_fails lib RemovePlaceholder then (fs1, Inl (CallFailed RemovePlaceholder))
                   else (case publish lib db destination temporary (fs1(temporary := None)) of
                       (fs2, r) \<Rightarrow> (remove_file lib DeferredRemove temporary fs2, r))))"

section \<open>What a backup leaves\<close>

abbreviation snapshot :: "db \<Rightarrow> db_file" where
  "snapshot db \<equiv> \<lparr>df_content = Some db, df_mode = 384\<rparr>"

lemma publish_cases:
  assumes "publish lib db d tmp fs = (fs', r)" and "\<And>g. fl_meanwhile lib g tmp = g tmp"
  defines "later \<equiv> fl_meanwhile lib (fs(tmp \<mapsto> snapshot db))"
  obtains (early) x e where "fs' = fs(tmp := x)" "r = Inl e"
  | (stopped) e where "fs' = later" "r = Inl e"
  | (published) "later d = None" "integrityCheck lib db = Inr ()" "fs' = later(d \<mapsto> snapshot db)" "r = Inl (CallFailed RemoveStaging)"
  | (finished) "later d = None" "integrityCheck lib db = Inr ()" "fs' = later(d \<mapsto> snapshot db, tmp := None)" "r = Inr ()"
proof -
  have tmp: "later tmp = Some (snapshot db)" by (simp add: later_def assms(2))
  have same: "fs(tmp \<mapsto> f, tmp \<mapsto> snapshot db) = fs(tmp \<mapsto> snapshot db)" for f by simp
  show thesis
  proof (cases "fl_fails lib VacuumCall \<or> fl_fails lib ChmodCall")
    case True
    then have "\<exists>x e. fs' = fs(tmp := x) \<and> r = Inl e"
      using assms(1) by (auto simp: publish_def Let_def split: if_splits)
    then show thesis using early by blast
  next
    case False
    then have p: "publish lib db d tmp fs = (if fl_fails lib OpenCall then (later, Inl (CallFailed OpenCall))
        else (case integrityCheck lib db of Inl e \<Rightarrow> (later, Inl e) | Inr _ \<Rightarrow>
          if fl_fails lib CloseCall then (later, Inl (CallFailed CloseCall))
          else if fl_fails lib LinkCall \<or> later d \<noteq> None then (later, Inl (CallFailed LinkCall))
          else if fl_fails lib RemoveStaging then (later(d \<mapsto> snapshot db), Inl (CallFailed RemoveStaging))
          else (later(d \<mapsto> snapshot db, tmp := None), Inr ())))"
      unfolding publish_def Let_def same later_def [symmetric] tmp using False by (simp add: validate_file_def)
    show thesis
      using p assms(1) stopped published finished by (auto split: sum.splits if_splits)
  qed
qed

text \<open>
  C4: Backups. A backup that succeeds leaves at its destination, where no file was, a snapshot that has passed
  the integrity and foreign-key checks and that only its owner may read, and nothing else changed but what other
  processes did meanwhile. A backup that fails changes no file that existed and leaves no unchecked file at
  its destination. The staging file is gone unless its removal fails.
\<close>

theorem backup_safe:
  assumes "Backup lib db path fs = (fs', r)" and "tmp = fl_temp_name lib fs" and "fs tmp = None"
    and "\<And>g. fl_meanwhile lib g tmp = g tmp" and "later = fl_meanwhile lib (fs(tmp \<mapsto> snapshot db))"
  shows "(r = Inr () \<longrightarrow> integrityCheck lib db = Inr ()
        \<and> (\<exists>d. fl_abs lib (TrimSpace path) = Some d \<and> fs d = None \<and> later d = None \<and> fs' = later(d \<mapsto> snapshot db, tmp := None)))
    \<and> (r \<noteq> Inr () \<longrightarrow> (\<forall>p. p \<noteq> tmp \<longrightarrow> fs' p = fs p) \<or> (\<forall>p. p \<noteq> tmp \<longrightarrow> fs' p = later p
          \<or> fl_abs lib (TrimSpace path) = Some p \<and> later p = None \<and> fs' p = Some (snapshot db) \<and> integrityCheck lib db = Inr ()))
    \<and> (\<not> fl_fails lib DeferredRemove \<and> \<not> fl_fails lib RemovePlaceholder \<longrightarrow> fs' tmp = None)"
proof -
  let ?ready = "\<lambda>d. fl_abs lib (TrimSpace path) = Some d \<and> fs d = None \<and> \<not> fl_fails lib RemovePlaceholder"
  have same: "fs(tmp \<mapsto> f, tmp := None) = fs" for f using assms(3) by auto
  consider (no_file) e where "fs' = fs" "r = Inl e"
    | (placeholder) e x where "fs' = fs(tmp := x)" "r = Inl e" "\<not> fl_fails lib RemovePlaceholder \<longrightarrow> x = None"
    | (ready) d fs2 where "?ready d" "publish lib db d tmp fs = (fs2, r)" "fs' = remove_file lib DeferredRemove tmp fs2"
  proof (cases "fl_abs lib (TrimSpace path)")
    case None
    then show thesis using assms(1) no_file by (auto simp: Backup_def)
  next
    case (Some d)
    obtain fs2 r2 where p: "publish lib db d tmp fs = (fs2, r2)" by fastforce
    have b: "Backup lib db path fs = (if d = [] then (fs, Inl InvalidDestination)
          else if fl_fails lib StatCall then (fs, Inl (CallFailed StatCall))
          else if fs d \<noteq> None then (fs, Inl DestinationExists)
          else if fl_fails lib MkdirCall then (fs, Inl (CallFailed MkdirCall))
          else if fl_fails lib CreateTempCall then (fs, Inl (CallFailed CreateTempCall))
          else if fl_fails lib CloseTempCall
          then (remove_file lib RemovePlaceholder tmp (fs(tmp \<mapsto> \<lparr>df_content = None, df_mode = 384\<rparr>)), Inl (CallFailed CloseTempCall))
          else if fl_fails lib RemovePlaceholder
          then (fs(tmp \<mapsto> \<lparr>df_content = None, df_mode = 384\<rparr>), Inl (CallFailed RemovePlaceholder))
          else (remove_file lib DeferredRemove tmp fs2, r2))"
      unfolding Backup_def Some option.case Let_def assms(2) [symmetric] same p by simp
    show thesis
    proof (cases "fl_fails lib CloseTempCall \<or> fl_fails lib RemovePlaceholder")
      case True
      then show thesis using assms(1) b no_file placeholder
        by (simp add: remove_file_def same split: if_splits) blast+
    next
      case False
      then show thesis using assms(1) b no_file ready [of d fs2] Some p by (auto split: if_splits)
    qed
  qed
  then show ?thesis
  proof cases
    case no_file
    then show ?thesis using assms(3) by simp
  next
    case placeholder
    then show ?thesis by simp
  next
    case ready
    show ?thesis
    proof (rule publish_cases [OF ready(2) assms(4)], goal_cases)
      case (1 x e)
      then show ?case using ready by (auto simp: remove_file_def)
    next
      case (2 e)
      then show ?case using ready assms(5) by (auto simp: remove_file_def)
    next
      case 3
      then show ?case using ready assms(5) by (auto simp: remove_file_def)
    next
      case 4
      then show ?case using ready assms(5) by (auto simp: remove_file_def intro!: exI [of _ d])
    qed
  qed
qed

definition ex_fs_lib :: fs_lib where
  "ex_fs_lib = \<lparr>fl_abs = Some, fl_fails = (\<lambda>_. False), fl_temp_name = (\<lambda>_. ''/b/tmp''), fl_partial = None,
     fl_meanwhile = (\<lambda>g. g), fl_integrity = (\<lambda>_. Some ''ok''), fl_foreign = (\<lambda>_. Some False)\<rparr>"

theorem backup_safe_witness:
  "\<exists>fs'. Backup ex_fs_lib empty_db ''/b/new'' Map.empty = (fs', Inr ()) \<and> fs' ''/b/new'' = Some (snapshot empty_db)
     \<and> fs' ''/b/tmp'' = None"
proof -
  have trim: "TrimSpace ''/b/new'' = ''/b/new''" by code_simp
  have "snd (Backup ex_fs_lib empty_db ''/b/new'' Map.empty) = Inr ()"
    by (simp add: Backup_def publish_def validate_file_def integrityCheck_def ex_fs_lib_def trim Let_def)
  then obtain fs' where b: "Backup ex_fs_lib empty_db ''/b/new'' Map.empty = (fs', Inr ())" by (metis prod.collapse)
  have "fs' = Map.empty(''/b/new'' \<mapsto> snapshot empty_db)"
    using backup_safe [OF b refl _ _ refl] by (auto simp: trim ex_fs_lib_def)
  then show ?thesis by (intro exI [of _ fs']) (simp add: b)
qed

end
