(* ===== verification/Program.thy ===== *)
theory Program
  imports Listeners Backup MailService MailProperties QueueWorker StoreMachine
begin

text \<open>
  \<open>cmd/brclio-mail/main.go\<close>: the commands, and how \<open>serve\<close> starts and stops the parts of the server. The state
  is the database and the addresses of the sockets that listen. Opening the database, \<open>url.Parse\<close>,
  \<open>filepath.Dir\<close> and the libraries of the parts are the fields of \<open>program_lib\<close>. The goroutines that serve
  the listeners are the step relations of the other theories; an error one of them reports ends the program.
\<close>

record program_lib =
  pl_os :: os_lib
  pl_listen :: listen_lib
  pl_url :: "string \<Rightarrow> (string \<times> string) option"
  pl_dir :: "string \<Rightarrow> string"
  pl_open :: "string \<Rightarrow> db option"
  pl_sql :: sql_lib
  pl_statfs :: "(int \<times> int) option"
  pl_mime :: mime_lib
  pl_txt :: "string \<Rightarrow> string list option"
  pl_key :: "(string \<times> string) option"
  pl_env :: env
  pl_token :: string
  pl_fs :: fs_lib

datatype program_error =
    LoadFailed config_error
  | NoDataDir
  | NoDatabase
  | BadBaseURL
  | BootstrapFailed service_error
  | StartFailed start_error
  | NoTLS
  | WebListenFailed string
  | BadUsage
  | UnknownCommand string
  | BackupFailed backup_error

definition EnsureDataDir :: "program_lib \<Rightarrow> server_config \<Rightarrow> bool" where
  "EnsureDataDir lib cfg \<longleftrightarrow> ll_mkdir (pl_listen lib) (DataDir cfg) \<and> ll_mkdir (pl_listen lib) (pl_dir lib (DatabasePath cfg))"

section \<open>Starting the server\<close>

record running_server =
  rn_web :: string
  rn_web_tls :: "tls_config option"
  rn_https :: bool
  rn_redirect :: "(string \<times> bool) option"
  rn_mail :: "(smtp_server \<times> imap_server) option"
  rn_worker :: worker_options

text \<open>The base URL: absolute, http or https, and https outside of the development mode.\<close>

definition base_scheme :: "program_lib \<Rightarrow> server_config \<Rightarrow> program_error + string" where
  "base_scheme lib cfg =
     (case pl_url lib (BaseURL cfg) of
        None \<Rightarrow> Inl BadBaseURL
      | Some (scheme, host) \<Rightarrow>
          guard_err (scheme = [] \<or> host = []) BadBaseURL
          (guard_err (scheme \<noteq> ''http'' \<and> scheme \<noteq> ''https'') BadBaseURL
          (guard_err (\<not> DevMode cfg \<and> scheme \<noteq> ''https'') BadBaseURL (Inr scheme))))"

definition mail_config :: "server_config \<Rightarrow> tls_provider \<Rightarrow> server_config" where
  "mail_config cfg provider =
     (if DevMode cfg \<and> pv_tls provider = None then cfg\<lparr>SMTPSAddr := [], IMAPSAddr := []\<rparr> else cfg)"

definition mail_servers :: "program_lib \<Rightarrow> server_config \<Rightarrow> tls_provider \<Rightarrow> start_error + (smtp_server \<times> imap_server) option" where
  "mail_servers lib cfg provider =
     (if DisableMailServers cfg then Inr None
      else bind_res (NewWithTLS_smtp (mail_config cfg provider) (pv_tls provider)) (\<lambda>s.
           bind_res (NewWithTLS_imap (pl_listen lib) (mail_config cfg provider) (pv_tls provider)) (\<lambda>i.
           Inr (Some (s, i)))))"

text \<open>The listeners of the web interface: the application, and with https one that redirects or answers ACME.\<close>

definition web_listeners :: "program_lib \<Rightarrow> server_config \<Rightarrow> bool \<Rightarrow> tls_provider \<Rightarrow> sockets
    \<Rightarrow> sockets \<times> (program_error + string \<times> (string \<times> bool) option)" where
  "web_listeners lib cfg https provider open =
     (let address = (if https then HTTPSAddr cfg else HTTPAddr cfg)
      in if \<not> ll_binds (pl_listen lib) open address then (open, Inl (WebListenFailed address))
         else if \<not> https then (address # open, Inr (address, None))
         else (let redirect = (if pv_automatic provider then ACMEHTTPAddr cfg else HTTPAddr cfg)
               in if \<not> ll_binds (pl_listen lib) (address # open) redirect
                  then (close_sockets [address] (address # open), Inl (WebListenFailed redirect))
                  else (redirect # address # open, Inr (address, Some (redirect, pv_automatic provider)))))"

definition web_sockets :: "string \<times> (string \<times> bool) option \<Rightarrow> string list" where
  "web_sockets web = fst web # (case snd web of None \<Rightarrow> [] | Some (redirect, _) \<Rightarrow> [redirect])"

definition start_mail :: "program_lib \<Rightarrow> (smtp_server \<times> imap_server) option \<Rightarrow> sockets
    \<Rightarrow> sockets \<times> (start_error + (smtp_server \<times> imap_server) option)" where
  "start_mail lib mail open =
     (case mail of
        None \<Rightarrow> (open, Inr None)
      | Some (s, i) \<Rightarrow>
          (case Start_smtp (pl_listen lib) s open of
             (Some e, s1, open1) \<Rightarrow> (open1, Inl e)
           | (None, s1, open1) \<Rightarrow>
               (case Start_imap (pl_listen lib) i open1 of
                  (Some e, i1, open2) \<Rightarrow> (snd (Close_smtp s1 open2), Inl e)
                | (None, i1, open2) \<Rightarrow> (open2, Inr (Some (s1, i1))))))"

definition queue_options :: "server_config \<Rightarrow> worker_options" where
  "queue_options cfg = new_worker
     \<lparr>wo_hostname = Hostname cfg, wo_poll_interval = QueuePollInterval cfg, wo_max_attempts = QueueMaxAttempts cfg,
      wo_relay_addr = RelayAddr cfg, wo_relay_username = RelayUsername cfg, wo_relay_implicit_tls = RelayImplicitTLS cfg,
      wo_direct_delivery = DirectDelivery cfg, wo_batch_size = 0\<rparr>"

text \<open>The checks before any socket is bound; the expired sessions and the bootstrap are in the database then.\<close>

definition prepare :: "program_lib \<Rightarrow> server_config \<Rightarrow> db
    \<Rightarrow> db \<times> (program_error + string \<times> tls_provider \<times> (smtp_server \<times> imap_server) option)" where
  "prepare lib cfg db =
     (case base_scheme lib cfg of
        Inl e \<Rightarrow> (db, Inl e)
      | Inr scheme \<Rightarrow>
          (let db1 = DeleteExpiredSessions (pl_env lib) db;
               svc = New_service cfg (pl_sql lib) (pl_statfs lib) (pl_mime lib) (pl_txt lib) (pl_key lib)
           in case Bootstrap svc (pl_env lib) (pl_token lib) db1 of
                Inl e \<Rightarrow> (db1, Inl (BootstrapFailed e))
              | Inr db2 \<Rightarrow>
                  (db2, case New_provider (pl_listen lib) cfg of
                     Inl e \<Rightarrow> Inl (StartFailed e)
                   | Inr provider \<Rightarrow>
                       guard_err (\<not> DevMode cfg \<and> pv_tls provider = None) NoTLS
                       (case mail_servers lib cfg provider of
                          Inl e \<Rightarrow> Inl (StartFailed e)
                        | Inr mail \<Rightarrow> Inr (scheme, provider, mail)))))"

definition serve_program :: "program_lib \<Rightarrow> server_config \<Rightarrow> db \<Rightarrow> sockets \<Rightarrow> db \<times> sockets \<times> (program_error + running_server)" where
  "serve_program lib cfg db open =
     (case prepare lib cfg db of
        (db1, Inl e) \<Rightarrow> (db1, open, Inl e)
      | (db1, Inr (scheme, provider, mail)) \<Rightarrow>
          (case web_listeners lib cfg (scheme = ''https'') provider open of
             (open1, Inl e) \<Rightarrow> (db1, open1, Inl e)
           | (open1, Inr web) \<Rightarrow>
               (case start_mail lib mail open1 of
                  (open2, Inl e) \<Rightarrow> (db1, close_sockets (web_sockets web) open2, Inl (StartFailed e))
                | (open2, Inr mail1) \<Rightarrow>
                    (db1, open2, Inr \<lparr>rn_web = fst web, rn_web_tls = (if scheme = ''https'' then pv_tls provider else None),
                       rn_https = (scheme = ''https''), rn_redirect = snd web, rn_mail = mail1,
                       rn_worker = queue_options cfg\<rparr>))))"

text \<open>The end of \<open>serve\<close>.\<close>

definition stop_program :: "running_server \<Rightarrow> sockets \<Rightarrow> sockets" where
  "stop_program rn open =
     (let open1 = close_sockets (web_sockets (rn_web rn, rn_redirect rn)) open
      in case rn_mail rn of None \<Rightarrow> open1 | Some (s, i) \<Rightarrow> snd (Close_imap i (snd (Close_smtp s open1))))"

section \<open>Commands\<close>

definition tlsMode :: "server_config \<Rightarrow> string" where
  "tlsMode cfg = (if AutoTLS cfg then ''acme'' else if TLSConfigured cfg then ''files'' else ''none'')"

definition deliveryMode :: "server_config \<Rightarrow> string" where
  "deliveryMode cfg = (if RelayAddr cfg \<noteq> [] then ''smarthost'' else if DirectDelivery cfg then ''direct-mx'' else ''disabled'')"

record doctor_report =
  dc_database :: string
  dc_users :: nat
  dc_initialized :: bool
  dc_development :: bool
  dc_disabled :: bool
  dc_tls :: string
  dc_delivery :: string

definition doctor :: "program_lib \<Rightarrow> server_config \<Rightarrow> db \<Rightarrow> backup_error + doctor_report" where
  "doctor lib cfg db =
     bind_res (integrityCheck (pl_fs lib) db) (\<lambda>_.
     Inr \<lparr>dc_database = DatabasePath cfg, dc_users = CountUsers db, dc_initialized = (CountUsers db > 0),
          dc_development = DevMode cfg, dc_disabled = DisableMailServers cfg, dc_tls = tlsMode cfg,
          dc_delivery = deliveryMode cfg\<rparr>)"

datatype outcome =
    PrintedVersion
  | PrintedUsage
  | Serving running_server
  | Reported doctor_report
  | BackedUp

record machine_state =
  mc_db :: "db option"
  mc_open :: sockets
  mc_files :: filesystem

definition run :: "program_lib \<Rightarrow> string list \<Rightarrow> sockets \<Rightarrow> filesystem \<Rightarrow> machine_state \<times> (program_error + outcome)" where
  "run lib args0 open files =
     (let command = (case args0 of [] \<Rightarrow> ''serve'' | c # _ \<Rightarrow> c);
          args = (case args0 of [] \<Rightarrow> [] | _ # rest \<Rightarrow> rest);
          still = (\<lambda>d. \<lparr>mc_db = d, mc_open = open, mc_files = files\<rparr>)
      in if command \<in> {''version'', ''--version'', ''-v''} then (still None, Inr PrintedVersion)
         else if command \<in> {''help'', ''--help'', ''-h''} then (still None, Inr PrintedUsage)
         else (case Load (pl_os lib) of
             Inl e \<Rightarrow> (still None, Inl (LoadFailed e))
           | Inr cfg \<Rightarrow>
               if \<not> EnsureDataDir lib cfg then (still None, Inl NoDataDir)
               else (case pl_open lib (DatabasePath cfg) of
                   None \<Rightarrow> (still None, Inl NoDatabase)
                 | Some db \<Rightarrow>
                     if command = ''serve'' then
                       (if args \<noteq> [] then (still (Some db), Inl BadUsage)
                        else (case serve_program lib cfg db open of
                            (db1, open1, r) \<Rightarrow> (\<lparr>mc_db = Some db1, mc_open = open1, mc_files = files\<rparr>, map_sum id Serving r)))
                     else if command = ''doctor'' then
                       (if args \<noteq> [] then (still (Some db), Inl BadUsage)
                        else (still (Some db), map_sum BackupFailed Reported (doctor lib cfg db)))
                     else if command = ''backup'' then
                       (case args of
                          [path] \<Rightarrow>
                            (case Backup (pl_fs lib) db path files of
                               (files1, r) \<Rightarrow> (\<lparr>mc_db = Some db, mc_open = open, mc_files = files1\<rparr>,
                                               map_sum BackupFailed (\<lambda>_. BackedUp) r))
                        | _ \<Rightarrow> (still (Some db), Inl BadUsage))
                     else (still (Some db), Inl (UnknownCommand command)))))"

section \<open>What a start guarantees\<close>

lemma bind_all_made:
  "bind_all lib mk addr specs eps open = (Inr eps', open') \<Longrightarrow>
   set eps' \<subseteq> set eps \<union> {mk (n, a, s) |n a s. (n, a, s) \<in> set specs \<and> a \<noteq> []}"
proof (induction specs arbitrary: eps "open")
  case (Cons x specs)
  obtain n a s where x: "x = (n, a, s)" by (metis prod_cases3)
  show ?case
  proof (cases "a = []")
    case True
    then show ?thesis using Cons x by fastforce
  next
    case False
    then have "bind_all lib mk addr specs (eps @ [mk x]) (a # open) = (Inr eps', open')"
      using Cons.prems x by (simp split: if_splits)
    from Cons.IH [OF this] show ?thesis using x False by fastforce
  qed
qed simp

definition strong_tls :: "tls_config option \<Rightarrow> bool" where
  "strong_tls t \<longleftrightarrow> (\<exists>c. t = Some c \<and> VersionTLS12 \<le> tc_min_version c)"

lemma strong_provider: "New_provider lib cfg = Inr p \<Longrightarrow> pv_tls p \<noteq> None \<Longrightarrow> strong_tls (pv_tls p)"
  by (auto simp: New_provider_def hardened_def strong_tls_def Let_def split: if_splits)

lemma strong_secure: "t \<noteq> None \<Longrightarrow> strong_tls (secureTLSConfig t)"
  by (cases t) (auto simp: secureTLSConfig_def strong_tls_def)

text \<open>Outside of the development mode nobody logs in without TLS.\<close>

definition protected_smtp :: "smtp_server \<Rightarrow> bool" where
  "protected_smtp s \<longleftrightarrow> (\<forall>ep \<in> set (ss_endpoints s). \<not> se_insecure_auth ep \<and> (strong_tls (se_implicit ep) \<or> strong_tls (se_starttls ep)))"

definition protected_imap :: "imap_server \<Rightarrow> bool" where
  "protected_imap i \<longleftrightarrow> \<not> is_insecure_auth i \<and> (\<forall>ep \<in> set (is_endpoints i). strong_tls (ie_implicit ep))"

lemma Start_smtp_protected:
  assumes "Start_smtp lib s open = (None, s', open')" and "strong_tls (ss_tls s)" and "\<not> DevMode (ss_config s)" and "ss_endpoints s = []"
  shows "protected_smtp s'"
  using assms by (auto simp: Start_smtp_def protected_smtp_def smtp_endpoint_of_def split: if_splits prod.splits sum.splits
      dest!: bind_all_made)

lemma Start_imap_protected:
  assumes "Start_imap lib i open = (None, i', open')" and "strong_tls (is_tls i)" and "\<not> is_insecure_auth i" and "is_endpoints i = []"
    and "IMAPAddr (is_config i) = [] \<or> DisableMailServers (is_config i)"
  shows "protected_imap i'"
  using assms by (auto simp: Start_imap_def protected_imap_def imap_endpoint_of_def imap_specs_def split: if_splits prod.splits sum.splits
      dest!: bind_all_made)

lemma mail_servers_new:
  assumes "mail_servers lib cfg provider = Inr (Some (s, i))"
  shows "ss_endpoints s = []" "\<not> ss_closed s" "ss_tls s = secureTLSConfig (pv_tls provider)" "DevMode (ss_config s) = DevMode cfg"
    "is_endpoints i = []" "\<not> is_closed i" "is_tls i = secureTLSConfig (pv_tls provider)" "is_insecure_auth i = DevMode cfg"
    "\<not> DevMode cfg \<Longrightarrow> IMAPAddr (is_config i) = [] \<or> DisableMailServers (is_config i)"
  using assms by (auto simp: mail_servers_def NewWithTLS_smtp_def NewWithTLS_imap_def mail_config_def Let_def split: if_splits)

text \<open>Starting the mail servers, from the contracts of their sockets.\<close>

definition mail_held :: "(smtp_server \<times> imap_server) option \<Rightarrow> string list" where
  "mail_held mail = (case mail of None \<Rightarrow> [] | Some (s, i) \<Rightarrow> smtp_held s @ imap_held i)"

lemma start_mail_sockets:
  assumes "start_mail lib mail open = (open', r)" and "mail_held mail = []"
  shows "case r of Inl e \<Rightarrow> mset open' = mset open | Inr mail' \<Rightarrow> mset open' = mset open + mset (mail_held mail')"
proof (cases mail)
  case None
  then show ?thesis using assms by (auto simp: start_mail_def mail_held_def)
next
  case (Some p)
  obtain s i where p: "p = (s, i)" by (cases p)
  have held: "smtp_held s = []" "imap_held i = []" using assms(2) Some p by (simp_all add: mail_held_def)
  obtain r1 s1 open1 where s1: "Start_smtp (pl_listen lib) s open = (r1, s1, open1)" by (metis prod_cases3)
  obtain r2 i1 open2 where i1: "Start_imap (pl_listen lib) i open1 = (r2, i1, open2)" by (metis prod_cases3)
  have m1: "mset open1 = mset open + mset (smtp_held s1)"
    using smtp_listener.start_sockets [OF s1] held by simp
  have m2: "mset open2 = mset open1 + mset (imap_held i1)"
    using imap_listener.start_sockets [OF i1] held by simp
  have f1: "mset open1 = mset open" if "r1 \<noteq> None" using that s1 smtp_listener.failed_start held by (cases r1) auto
  have f2: "mset open2 = mset open1" if "r2 \<noteq> None" using that i1 imap_listener.failed_start held by (cases r2) auto
  obtain s2 open3 where c: "Close_smtp s1 open2 = (s2, open3)" by fastforce
  have "mset open3 = mset open" if "r2 \<noteq> None"
    using smtp_listener.close_sockets [OF c] f2 [OF that] m1 by simp
  then show ?thesis using assms(1) Some p s1 i1 c m1 m2 f1
    by (cases r1; cases r2) (auto simp: start_mail_def mail_held_def)
qed

lemma web_listeners_sockets:
  "web_listeners lib cfg https provider open = (open', r) \<Longrightarrow>
   (case r of Inl e \<Rightarrow> mset open' = mset open | Inr web \<Rightarrow> mset open' = mset open + mset (web_sockets web)
      \<and> (https \<longrightarrow> fst web = HTTPSAddr cfg))"
  by (auto simp: web_listeners_def web_sockets_def Let_def mset_close_sockets split: if_splits)

lemma Initialize_users:
  assumes "Initialize pa env token inp db = Inr (db', u, d)"
  shows "users db' \<noteq> []"
proof -
  obtain db1 db2 db3 db4 k dn ev where s1: "insert_user db1 u = Inr db2"
    and s2: "fold_res (saveSystemMailbox env (u_id u)) (enumerate 0 SystemMailboxes) db2 = Inr db3"
    and s3: "fold_res (saveRoleAlias env u dn) role_aliases (db3, 0) = Inr (db4, k)"
    and s4: "insert_audit_row db4 ev = Inr db'"
    using assms by (auto simp: Initialize_def Let_def split: option.splits)
  have "same_accounts db2 db3"
    by (rule fold_res_accounts [OF s2, of "\<lambda>d. d"]) (auto simp: saveSystemMailbox_def intro: accounts_frame)
  moreover have "same_accounts (fst (db3, 0 :: nat)) (fst (db4, k))"
    using s3 by (rule fold_res_accounts)
      (auto simp: saveRoleAlias_def Let_def intro: accounts_frame split: prod.splits if_splits)
  moreover have "same_accounts db4 db'" using s4 by (intro accounts_frame)
  moreover have "users db2 \<noteq> []" using s1 by (auto simp: insert_user_def)
  ultimately show ?thesis by (simp add: same_accounts_def)
qed

lemma Bootstrap_users:
  "Bootstrap svc env token db = Inr db' \<Longrightarrow> BootstrapEmail (sv_config svc) \<noteq> [] \<Longrightarrow> users db' \<noteq> []"
  by (auto simp: Bootstrap_def Setup_def Let_def CountUsers_def split: if_splits list.splits sum.splits dest: Initialize_users)

lemma prepare_Inr:
  assumes "prepare lib cfg db = (db1, Inr (scheme, provider, mail))"
  shows "New_provider (pl_listen lib) cfg = Inr provider" "mail_servers lib cfg provider = Inr mail"
    "DevMode cfg \<or> scheme = ''https'' \<and> pv_tls provider \<noteq> None" "BootstrapEmail cfg \<noteq> [] \<Longrightarrow> users db1 \<noteq> []"
  using assms by (auto simp: prepare_def base_scheme_def Let_def New_service_def split: sum.splits option.splits if_splits
      dest: Bootstrap_users)

lemma mail_held_new: "mail_servers lib cfg provider = Inr mail \<Longrightarrow> mail_held mail = []"
  by (cases mail) (auto simp: mail_held_def smtp_held_def imap_held_def dest: mail_servers_new(1,5))

lemma start_mail_protected:
  assumes "start_mail lib mail open = (open', Inr (Some (s, i)))" and "mail_servers lib cfg provider = Inr mail"
  shows "\<not> ss_closed s \<and> \<not> is_closed i" "\<not> DevMode cfg \<Longrightarrow> pv_tls provider \<noteq> None \<Longrightarrow> protected_smtp s \<and> protected_imap i"
proof -
  obtain s0 i0 open1 where mail: "mail = Some (s0, i0)" and s: "Start_smtp (pl_listen lib) s0 open = (None, s, open1)"
    and i: "Start_imap (pl_listen lib) i0 open1 = (None, i, open')"
    using assms(1) by (auto simp: start_mail_def split: option.splits prod.splits)
  note new = mail_servers_new [OF assms(2) [unfolded mail]]
  show "\<not> ss_closed s \<and> \<not> is_closed i"
    using s i new(2,6) by (auto simp: Start_smtp_def Start_imap_def split: if_splits prod.splits sum.splits)
  show "protected_smtp s \<and> protected_imap i" if "\<not> DevMode cfg" "pv_tls provider \<noteq> None"
    using Start_smtp_protected [OF s] Start_imap_protected [OF i] new strong_secure that by simp
qed

lemma stop_sockets:
  assumes "mset open' = mset open + mset (web_sockets (rn_web rn, rn_redirect rn)) + mset (mail_held (rn_mail rn))"
    and "\<And>s i. rn_mail rn = Some (s, i) \<Longrightarrow> \<not> ss_closed s \<and> \<not> is_closed i"
  shows "mset (stop_program rn open') = mset open"
proof (cases "rn_mail rn")
  case None
  then show ?thesis using assms(1) by (simp add: stop_program_def Let_def mset_close_sockets mail_held_def)
next
  case (Some p)
  obtain s i where p: "p = (s, i)" by (cases p)
  then have "\<not> ss_closed s" "\<not> is_closed i" using assms(2) Some by auto
  then show ?thesis using assms(1) Some p
    by (simp add: stop_program_def Let_def mset_close_sockets mail_held_def Close_smtp_def Close_imap_def smtp_held_def imap_held_def)
qed

text \<open>
  C12: Starting and stopping. Whatever fails while the server starts, every socket it had bound is closed again;
  and one that runs gives all of its sockets back when it stops. A server that runs with a configuration
  that Load has accepted, outside of the development mode, serves the web interface over TLS of at least version
  1.2, offers a login over SMTP and IMAP only under such TLS, and has an account or asks for the setup token.
\<close>

theorem startup_safe:
  assumes "Load os = Inr cfg" and "serve_program lib cfg db open = (db', open', r)"
  shows "case r of
      Inl e \<Rightarrow> mset open' = mset open
    | Inr rn \<Rightarrow> mset open \<subseteq># mset open' \<and> mset (stop_program rn open') = mset open
        \<and> (DevMode cfg \<or> rn_https rn \<and> strong_tls (rn_web_tls rn)
             \<and> (\<forall>s i. rn_mail rn = Some (s, i) \<longrightarrow> protected_smtp s \<and> protected_imap i)
             \<and> (users db' \<noteq> [] \<or> SetupToken cfg \<noteq> []))"
proof (cases "prepare lib cfg db")
  case (Pair db1 p)
  show ?thesis
  proof (cases p)
    case (Inl e)
    then show ?thesis using assms(2) Pair by (auto simp: serve_program_def)
  next
    case (Inr q)
    obtain scheme provider mail where q: "q = (scheme, provider, mail)" by (cases q)
    note prep = prepare_Inr [OF Pair [unfolded Inr q]]
    obtain open1 w where web: "web_listeners lib cfg (scheme = ''https'') provider open = (open1, w)" by fastforce
    note ws = web_listeners_sockets [OF web]
    show ?thesis
    proof (cases w)
      case Inl': (Inl e)
      then show ?thesis using assms(2) Pair Inr q web ws by (auto simp: serve_program_def)
    next
      case Inr': (Inr web1)
      obtain open2 m where mail: "start_mail lib mail open1 = (open2, m)" by fastforce
      note ms = start_mail_sockets [OF mail mail_held_new [OF prep(2)]]
      show ?thesis
      proof (cases m)
        case (Inl e)
        then show ?thesis using assms(2) Pair Inr q web Inr' mail ws ms
          by (auto simp: serve_program_def mset_close_sockets)
      next
        case run: (Inr mail1)
        define rn where "rn = \<lparr>rn_web = fst web1, rn_web_tls = (if scheme = ''https'' then pv_tls provider else None),
           rn_https = (scheme = ''https''), rn_redirect = snd web1, rn_mail = mail1, rn_worker = queue_options cfg\<rparr>"
        have r: "r = Inr rn" "db' = db1" "open' = open2"
          using assms(2) Pair Inr q web Inr' mail run by (simp_all add: serve_program_def rn_def)
        have sockets: "mset open' = mset open + mset (web_sockets (rn_web rn, rn_redirect rn)) + mset (mail_held (rn_mail rn))"
          using ws ms Inr' run r by (simp add: rn_def)
        have safe: "\<not> ss_closed s \<and> \<not> is_closed i"
          "\<not> DevMode cfg \<Longrightarrow> pv_tls provider \<noteq> None \<Longrightarrow> protected_smtp s \<and> protected_imap i" if "rn_mail rn = Some (s, i)" for s i
          using start_mail_protected [OF _ prep(2), of open1 open2 s i] mail run that by (auto simp: rn_def)
        have access: "users db1 \<noteq> [] \<or> SetupToken cfg \<noteq> []" if "\<not> DevMode cfg"
          using prep(4) that loaded_access [OF assms(1)] by blast
        have web_tls: "rn_https rn \<and> strong_tls (rn_web_tls rn)" if "\<not> DevMode cfg"
          using prep(3) that strong_provider [OF prep(1)] by (simp add: rn_def)
        have mail_tls: "protected_smtp s \<and> protected_imap i" if "\<not> DevMode cfg" "rn_mail rn = Some (s, i)" for s i
          using safe(2) [OF that(2,1)] prep(3) that(1) by blast
        have "mset (stop_program rn open') = mset open" by (rule stop_sockets [OF sockets safe(1)])
        moreover have "mset open \<subseteq># mset open'" by (simp add: sockets)
        ultimately show ?thesis unfolding r sum.case using access web_tls mail_tls r(3) by blast
      qed
    qed
  qed
qed

definition ex_listen_lib :: listen_lib where
  "ex_listen_lib = \<lparr>ll_net = \<lparr>split_host_port = (\<lambda>_. None), parse_ip = (\<lambda>_. None)\<rparr>, ll_loopback = (\<lambda>_. False),
     ll_key_pair = (\<lambda>_ _. True), ll_mkdir = (\<lambda>_. True), ll_join = (\<lambda>a b. a @ ''/'' @ b), ll_binds = (\<lambda>open a. a \<notin> set open)\<rparr>"

definition production_os :: os_lib where
  "production_os = ex_os\<lparr>getenv := (\<lambda>k. if k = ''BRCLIO_SETUP_TOKEN'' then Some ''secret'' else
     if k = ''BRCLIO_BASE_URL'' then Some ''https://m.io'' else if k = ''BRCLIO_TLS_CERT'' then Some ''c'' else
     if k = ''BRCLIO_TLS_KEY'' then Some ''k'' else None)\<rparr>"

definition production_lib :: program_lib where
  "production_lib = \<lparr>pl_os = production_os, pl_listen = ex_listen_lib, pl_url = (\<lambda>_. Some (''https'', ''m.io'')), pl_dir = (\<lambda>s. s),
     pl_open = (\<lambda>_. Some empty_db), pl_sql = \<lparr>sql_length = (\<lambda>s. int (length s)), json_list = concat\<rparr>, pl_statfs = None,
     pl_mime = ex_mime_lib, pl_txt = (\<lambda>_. None), pl_key = None, pl_env = \<lparr>clock = (\<lambda>k. 7), new_id = (\<lambda>p k. p)\<rparr>,
     pl_token = ''t'', pl_fs = ex_fs_lib\<rparr>"

lemma production_start:
  "(case Load production_os of Inl _ \<Rightarrow> None
     | Inr cfg \<Rightarrow> (case serve_program production_lib cfg empty_db [''other''] of
         (_, open, Inr rn) \<Rightarrow> Some (DevMode cfg, open, rn_mail rn \<noteq> None) | _ \<Rightarrow> None))
   = Some (False, ['':2993'', '':2465'', '':2587'', '':2525'', '':8080'', '':8443'', ''other''], True)"
  by code_simp

theorem startup_safe_witness:
  "\<exists>cfg db' open' rn s i. Load production_os = Inr cfg \<and> serve_program production_lib cfg empty_db [''other''] = (db', open', Inr rn)
     \<and> length open' = 7 \<and> rn_mail rn = Some (s, i) \<and> protected_smtp s \<and> protected_imap i
     \<and> mset (stop_program rn open') = {#''other''#}"
proof -
  obtain cfg where cfg: "Load production_os = Inr cfg" using production_start by (auto split: sum.splits)
  obtain db' open' r where srv: "serve_program production_lib cfg empty_db [''other''] = (db', open', r)" by (metis prod_cases3)
  obtain rn where rn: "r = Inr rn" "\<not> DevMode cfg" "length open' = 7" "rn_mail rn \<noteq> None"
    using production_start by (auto simp: cfg srv split: sum.splits)
  then obtain s i where "rn_mail rn = Some (s, i)" by auto
  with startup_safe [OF cfg srv] rn srv cfg show ?thesis by auto
qed

end
