(* ===== verification/SchemaTypes.thy ===== *)
theory SchemaTypes
  imports StoreRelation StoreProperties
begin

text \<open>
  The constraints of the schema (\<open>migrations.go\<close>) as a type of databases: the columns of each row are within
  their \<open>CHECK\<close>s, the keys of each table are unique, and every reference has its row. SQLite checks them
  where a statement writes; here they are an invariant of all histories, so none of the updates and
  deletions of the store can break them. Theory MailInvariants has the entries and the keys of messages
  and mailboxes, theory StoreMachine the unique users.
\<close>

section \<open>The constraints\<close>

definition domain_rows :: "db \<Rightarrow> bool" where
  "domain_rows db \<longleftrightarrow> distinct (map d_id (domains db)) \<and> distinct (map (\<lambda>d. ToLower (d_name d)) (domains db))"

definition user_rows :: "db \<Rightarrow> bool" where
  "user_rows db \<longleftrightarrow> (\<forall>u \<in> set (users db). user_columns u \<and> u_domain_id u \<in> d_id ` set (domains db))
     \<and> distinct (map (\<lambda>u. (u_domain_id u, ToLower (u_local_part u))) (users db))"

definition alias_rows :: "db \<Rightarrow> bool" where
  "alias_rows db \<longleftrightarrow> distinct (map a_id (aliases db)) \<and> distinct (map (\<lambda>a. ToLower (a_address a)) (aliases db))
     \<and> a_target_user_id ` set (aliases db) \<subseteq> u_id ` set (users db)"

definition session_rows :: "db \<Rightarrow> bool" where
  "session_rows db \<longleftrightarrow> distinct (map s_id (sessions db)) \<and> (\<forall>s \<in> set (sessions db). 1 \<le> s_auth_version s)
     \<and> distinct (map p_id (app_passwords db)) \<and> p_user_id ` set (app_passwords db) \<subseteq> u_id ` set (users db)"

definition message_rows :: "db \<Rightarrow> bool" where
  "message_rows db \<longleftrightarrow> (\<forall>m \<in> set (messages db). m_direction m \<in> {''inbound'', ''outbound'', ''draft'', ''append''})
     \<and> distinct (map at_id (attachments db)) \<and> at_message_id ` set (attachments db) \<subseteq> m_id ` set (messages db)"

definition mailbox_rows :: "db \<Rightarrow> bool" where
  "mailbox_rows db \<longleftrightarrow> mb_user_id ` set (mailboxes db) \<subseteq> u_id ` set (users db)
     \<and> distinct (map (\<lambda>b. (mb_user_id b, ToLower (mb_name b))) (mailboxes db))"

definition queue_rows :: "db \<Rightarrow> bool" where
  "queue_rows db \<longleftrightarrow> distinct (map q_id (queue db)) \<and> distinct (map (\<lambda>q. (q_message_id q, q_recipient q)) (queue db))
     \<and> q_message_id ` set (queue db) \<subseteq> m_id ` set (messages db) \<and> (\<forall>q \<in> set (queue db). 0 \<le> q_attempts q)"

definition audit_rows :: "db \<Rightarrow> bool" where
  "audit_rows db \<longleftrightarrow> distinct (map ev_id (audit_log db))
     \<and> (\<forall>ev \<in> set (audit_log db). ev_actor_id ev = [] \<or> ev_actor_id ev \<in> u_id ` set (users db))"

definition row_types :: "db \<Rightarrow> bool" where
  "row_types db \<longleftrightarrow> domain_rows db \<and> user_rows db \<and> alias_rows db \<and> session_rows db \<and> message_rows db
     \<and> mailbox_rows db \<and> queue_rows db \<and> audit_rows db"

definition keeps_types :: "db \<Rightarrow> db \<Rightarrow> bool" where
  "keeps_types db db' \<longleftrightarrow> (row_types db \<longrightarrow> row_types db')"

lemmas row_types_defs = row_types_def domain_rows_def user_rows_def alias_rows_def session_rows_def message_rows_def
  mailbox_rows_def queue_rows_def audit_rows_def

lemma exists_image:
  "user_exists db i \<longleftrightarrow> i \<in> u_id ` set (users db)"
  "message_exists db i \<longleftrightarrow> i \<in> m_id ` set (messages db)"
  by (auto simp: user_exists_def message_exists_def list_ex_iff)

lemma image_update_where:
  assumes "\<And>r. k (f r) = k r"
  shows "k ` set (update_where P f rows) = k ` set rows"
proof -
  have "k ` set (update_where P f rows) = set (map k (update_where P f rows))" by simp
  then show ?thesis using assms by (simp only: map_update_where set_map)
qed

section \<open>Rows added\<close>

lemma insert_Inr:
  "insert_message db m = Inr db' \<Longrightarrow> m_id m \<notin> m_id ` set (messages db) \<and> 0 \<le> m_size m
     \<and> m_direction m \<in> {''inbound'', ''outbound'', ''draft'', ''append''} \<and> db' = db\<lparr>messages := messages db @ [m]\<rparr>"
  "insert_attachment db a = Inr db' \<Longrightarrow> at_id a \<notin> at_id ` set (attachments db) \<and> at_message_id a \<in> m_id ` set (messages db)
     \<and> db' = db\<lparr>attachments := attachments db @ [a]\<rparr>"
  "insert_queue db q = Inr db' \<Longrightarrow> q_id q \<notin> q_id ` set (queue db)
     \<and> (q_message_id q, q_recipient q) \<notin> (\<lambda>q. (q_message_id q, q_recipient q)) ` set (queue db)
     \<and> q_message_id q \<in> m_id ` set (messages db) \<and> db' = db\<lparr>queue := queue db @ [q]\<rparr>"
  "insert_mailbox db b = Inr db' \<Longrightarrow> mb_id b \<notin> mb_id ` set (mailboxes db)
     \<and> (mb_user_id b, ToLower (mb_name b)) \<notin> (\<lambda>b. (mb_user_id b, ToLower (mb_name b))) ` set (mailboxes db)
     \<and> mb_user_id b \<in> u_id ` set (users db) \<and> db' = db\<lparr>mailboxes := mailboxes db @ [b]\<rparr>"
  "insert_audit_row db ev = Inr db' \<Longrightarrow> ev_id ev \<notin> ev_id ` set (audit_log db)
     \<and> (ev_actor_id ev = [] \<or> ev_actor_id ev \<in> u_id ` set (users db)) \<and> db' = db\<lparr>audit_log := audit_log db @ [ev]\<rparr>"
  "insert_domain db d = Inr db' \<Longrightarrow> d_id d \<notin> d_id ` set (domains db)
     \<and> ToLower (d_name d) \<notin> (\<lambda>d. ToLower (d_name d)) ` set (domains db) \<and> db' = db\<lparr>domains := domains db @ [d]\<rparr>"
  "insert_alias db al = Inr db' \<Longrightarrow> a_id al \<notin> a_id ` set (aliases db)
     \<and> ToLower (a_address al) \<notin> (\<lambda>a. ToLower (a_address a)) ` set (aliases db)
     \<and> a_target_user_id al \<in> u_id ` set (users db) \<and> db' = db\<lparr>aliases := aliases db @ [al]\<rparr>"
  "insert_session db s = Inr db' \<Longrightarrow> s_id s \<notin> s_id ` set (sessions db) \<and> s_token_hash s \<notin> s_token_hash ` set (sessions db)
     \<and> s_user_id s \<in> u_id ` set (users db) \<and> 1 \<le> s_auth_version s \<and> db' = db\<lparr>sessions := sessions db @ [s]\<rparr>"
  "insert_app_password db p = Inr db' \<Longrightarrow> p_id p \<notin> p_id ` set (app_passwords db)
     \<and> p_user_id p \<in> u_id ` set (users db) \<and> db' = db\<lparr>app_passwords := app_passwords db @ [p]\<rparr>"
  by (auto simp: insert_message_def insert_attachment_def insert_queue_def insert_mailbox_def insert_audit_row_def
      insert_domain_def insert_alias_def insert_session_def insert_app_password_def exists_image list_ex_iff EqualFold_def)

lemma insert_user_Inr:
  "insert_user db u = Inr db' \<Longrightarrow> (u_domain_id u, ToLower (u_local_part u)) \<notin> (\<lambda>u. (u_domain_id u, ToLower (u_local_part u))) ` set (users db)
     \<and> u_domain_id u \<in> d_id ` set (domains db) \<and> user_columns u \<and> db' = db\<lparr>users := users db @ [u]\<rparr>"
  by (auto simp: insert_user_def list_ex_iff EqualFold_def user_columns_def image_iff; force)

lemma types_insert:
  "insert_message db m = Inr db' \<Longrightarrow> keeps_types db db'"
  "insert_attachment db a = Inr db' \<Longrightarrow> keeps_types db db'"
  "insert_queue db q = Inr db' \<Longrightarrow> 0 \<le> q_attempts q \<Longrightarrow> keeps_types db db'"
  "insert_mailbox db b = Inr db' \<Longrightarrow> keeps_types db db'"
  "insert_audit_row db ev = Inr db' \<Longrightarrow> keeps_types db db'"
  "insert_domain db d = Inr db' \<Longrightarrow> keeps_types db db'"
  "insert_alias db al = Inr db' \<Longrightarrow> keeps_types db db'"
  "insert_session db s = Inr db' \<Longrightarrow> keeps_types db db'"
  "insert_app_password db p = Inr db' \<Longrightarrow> keeps_types db db'"
  by (drule insert_Inr, simp add: keeps_types_def row_types_defs subset_insertI2)+

lemma types_insert_user: "insert_user db u = Inr db' \<Longrightarrow> keeps_types db db'"
  by (drule insert_user_Inr) (simp add: keeps_types_def row_types_defs subset_insertI2, blast)

section \<open>Rows deleted or updated\<close>

lemma types_delete_messages:
  assumes "delete_messages db P = Inr db'"
  shows "keeps_types db db'"
proof -
  let ?gone = "filter P (messages db)"
  have queue: "\<forall>m \<in> set ?gone. \<forall>q \<in> set (queue db). q_message_id q \<noteq> m_id m"
    and db': "db' = db\<lparr>messages := filter (\<lambda>m. \<not> P m) (messages db),
      attachments := filter (\<lambda>a. \<not> list_ex (\<lambda>m. m_id m = at_message_id a) ?gone) (attachments db)\<rparr>"
    using assms unfolding delete_messages_def Let_def guard_err_Inr_iff by (auto simp: list_ex_iff)
  have stays: "i \<in> m_id ` set (filter (\<lambda>m. \<not> P m) (messages db))"
    if "i \<in> m_id ` set (messages db)" "\<forall>m \<in> set ?gone. m_id m \<noteq> i" for i
    using that by auto
  show ?thesis unfolding keeps_types_def db'
  proof
    assume t: "row_types db"
    have "\<forall>q \<in> set (queue db). q_message_id q \<in> m_id ` set (filter (\<lambda>m. \<not> P m) (messages db))"
    proof
      fix q assume q: "q \<in> set (queue db)"
      then have "q_message_id q \<in> m_id ` set (messages db)" using t by (auto simp: row_types_defs)
      then show "q_message_id q \<in> m_id ` set (filter (\<lambda>m. \<not> P m) (messages db))"
        using queue q by (intro stays) auto
    qed
    moreover have "\<forall>a \<in> set (attachments db). (\<forall>m \<in> set ?gone. m_id m \<noteq> at_message_id a)
        \<longrightarrow> at_message_id a \<in> m_id ` set (filter (\<lambda>m. \<not> P m) (messages db))"
      using t by (intro ballI impI stays) (auto simp: row_types_defs)
    ultimately show "row_types (db\<lparr>messages := filter (\<lambda>m. \<not> P m) (messages db),
        attachments := filter (\<lambda>a. \<not> list_ex (\<lambda>m. m_id m = at_message_id a) ?gone) (attachments db)\<rparr>)"
      using t unfolding row_types_defs by (auto simp: list_ex_iff distinct_map_filter image_subset_iff)
  qed
qed

lemma types_mailboxes:
  assumes "\<And>b. same_box b (f b)"
  shows "keeps_types db (db\<lparr>mailboxes := update_where P f (mailboxes db)\<rparr>)"
proof -
  have "mb_user_id (f b) = mb_user_id b" "(mb_user_id (f b), ToLower (mb_name (f b))) = (mb_user_id b, ToLower (mb_name b))" for b
    using assms [of b] by (simp_all add: same_box_def)
  then show ?thesis unfolding keeps_types_def row_types_defs
    by (simp add: image_update_where map_update_where)
qed

lemma types_rename:
  assumes "RenameMailbox u old new0 db = Inr db'"
  shows "keeps_types db db'"
proof -
  obtain new where free: "\<forall>b \<in> set (mailboxes db). \<not> EqualFold (mb_name b) old \<longrightarrow> mb_user_id b = u \<longrightarrow> \<not> EqualFold (mb_name b) new"
    and db': "db' = db\<lparr>mailboxes := update_where (\<lambda>b. mb_user_id b = u \<and> EqualFold (mb_name b) old)
      (\<lambda>b. b\<lparr>mb_name := new\<rparr>) (mailboxes db)\<rparr>"
  proof -
    let ?hit = "\<lambda>b. mb_user_id b = u \<and> EqualFold (mb_name b) old"
    obtain new where "\<not> (list_ex ?hit (mailboxes db) \<and> list_ex (\<lambda>b. \<not> ?hit b \<and> mb_user_id b = u \<and> EqualFold (mb_name b) new) (mailboxes db))"
      and "count_where ?hit (mailboxes db) \<noteq> 0"
      and db': "db' = db\<lparr>mailboxes := update_where ?hit (\<lambda>b. b\<lparr>mb_name := new\<rparr>) (mailboxes db)\<rparr>"
      using assms unfolding RenameMailbox_def Let_def guard_err_Inr_iff bind_res_Inr_iff by blast
    then have "\<forall>b \<in> set (mailboxes db). \<not> EqualFold (mb_name b) old \<longrightarrow> mb_user_id b = u \<longrightarrow> \<not> EqualFold (mb_name b) new"
      using count_where_pos [of ?hit "mailboxes db"] by (auto simp: list_ex_iff)
    with db' show thesis using that by blast
  qed
  have "distinct (map (\<lambda>b. (mb_user_id b, ToLower (mb_name b))) (update_where (\<lambda>b. mb_user_id b = u \<and> EqualFold (mb_name b) old)
      (\<lambda>b. b\<lparr>mb_name := new\<rparr>) bs))"
    if "distinct (map (\<lambda>b. (mb_user_id b, ToLower (mb_name b))) bs)" "set bs \<subseteq> set (mailboxes db)" for bs
    using that free by (induction bs) (auto simp: set_update_where EqualFold_def update_where_def image_iff)
  then show ?thesis unfolding keeps_types_def row_types_defs db'
    by (simp add: image_update_where)
qed

lemma types_delete_mailbox: "keeps_types db (delete_mailbox db i u)"
  unfolding keeps_types_def row_types_defs delete_mailbox_def Let_def by (auto simp: distinct_map_filter)

lemma types_status: "keeps_types db (db\<lparr>messages := update_where P (\<lambda>m. m\<lparr>m_status := s\<rparr>) (messages db)\<rparr>)"
proof -
  have "\<forall>m \<in> set (update_where P (\<lambda>m. m\<lparr>m_status := s\<rparr>) (messages db)). m_direction m \<in> D"
    if "\<forall>m \<in> set (messages db). m_direction m \<in> D" for D
    using that by (auto simp: in_update_where_iff)
  from this [of "{''inbound'', ''outbound'', ''draft'', ''append''}"] show ?thesis
    unfolding keeps_types_def row_types_defs by (simp add: image_update_where)
qed

lemma types_domains:
  assumes "\<And>d. same_domain d (f d)"
  shows "keeps_types db (db\<lparr>domains := update_where P f (domains db)\<rparr>)"
proof -
  have "d_id (f d) = d_id d" "ToLower (d_name (f d)) = ToLower (d_name d)" for d
    using assms [of d] by (simp_all add: same_domain_def)
  then show ?thesis unfolding keeps_types_def row_types_defs by (simp add: image_update_where map_update_where)
qed

lemma types_users:
  assumes "\<And>u. same_user u (f u)"
  shows "keeps_types db (db\<lparr>users := update_where P f (users db)\<rparr>)"
proof -
  have "u_id (f u) = u_id u" "(u_domain_id (f u), ToLower (u_local_part (f u))) = (u_domain_id u, ToLower (u_local_part u))"
    "u_domain_id (f u) = u_domain_id u" "user_columns u \<Longrightarrow> user_columns (f u)" for u
    using assms [of u] by (simp_all add: same_user_def)
  then show ?thesis unfolding keeps_types_def row_types_defs
    by (simp add: image_update_where map_update_where) (auto simp: in_update_where_iff)
qed

lemma types_sessions:
  "keeps_types db (db\<lparr>sessions := filter Q (sessions db)\<rparr>)"
  "keeps_types db (db\<lparr>sessions := update_where Q (\<lambda>x. x\<lparr>s_last_seen := t\<rparr>) (sessions db)\<rparr>)"
  unfolding keeps_types_def row_types_defs
  by (auto simp: distinct_map_filter map_update_where in_update_where_iff)

lemma types_app_passwords:
  assumes "\<And>p. same_secret p (f p)"
  shows "keeps_types db (db\<lparr>app_passwords := update_where P f (app_passwords db)\<rparr>)"
proof -
  have "p_id (f p) = p_id p" "p_user_id (f p) = p_user_id p" for p using assms [of p] by (simp_all add: same_secret_def)
  then show ?thesis unfolding keeps_types_def row_types_defs by (simp add: image_update_where map_update_where)
qed

lemma types_update_queue:
  assumes "\<And>q. q_id (f q) = q_id q \<and> q_message_id (f q) = q_message_id q \<and> q_recipient (f q) = q_recipient q
      \<and> q_attempts q \<le> q_attempts (f q)"
  shows "keeps_types db (update_queue P f db)"
proof -
  have keys: "q_id (f q) = q_id q" "(q_message_id (f q), q_recipient (f q)) = (q_message_id q, q_recipient q)"
    "q_message_id (f q) = q_message_id q" "q_attempts q \<le> q_attempts (f q)" for q
    using assms [of q] by simp_all
  have "\<forall>q \<in> set (update_where P f qs). 0 \<le> q_attempts q" if "\<forall>q \<in> set qs. 0 \<le> q_attempts q" for qs
    using that keys(4) order_trans by (fastforce simp: in_update_where_iff)
  then have "\<forall>q \<in> set (queue db). 0 \<le> q_attempts q \<Longrightarrow> \<forall>q \<in> set (update_where P f (queue db)). 0 \<le> q_attempts q"
    by blast
  then show ?thesis unfolding keeps_types_def row_types_defs update_queue_def
    using keys by (simp add: image_update_where map_update_where)
qed

section \<open>Every operation\<close>

lemma types_trans: "keeps_types a b \<Longrightarrow> keeps_types b c \<Longrightarrow> keeps_types a c"
  by (simp add: keeps_types_def)

lemma types_entries: "keeps_types db (db\<lparr>entries := es\<rparr>)"
  by (simp add: keeps_types_def row_types_defs)

interpretation types: store_relation keeps_types
proof (unfold_locales, goal_cases)
  case (1 db) show ?case by (simp add: keeps_types_def)
next
  case 2 then show ?case by (rule types_trans)
next
  case 3 then show ?case by (rule types_insert(1))
next
  case 4 then show ?case by (rule types_insert(2))
next
  case 5 then show ?case by (rule types_insert(4))
next
  case 6 then show ?case by (rule types_insert(5))
next
  case 7 then show ?case by (rule types_delete_messages)
next
  case 8 then show ?case by (rule types_entries)
next
  case 9 then show ?case by (rule types_mailboxes)
next
  case 10 then show ?case by (rule types_rename)
next
  case 11 then show ?case by (rule types_delete_mailbox)
next
  case 12 then show ?case by (rule types_status)
next
  case 13 then show ?case by (rule types_insert(6))
next
  case 14 then show ?case by (rule types_insert_user)
next
  case 15 then show ?case by (rule types_insert(7))
next
  case 16 then show ?case by (rule types_insert(8))
next
  case 17 then show ?case by (rule types_insert(9))
next
  case 18 then show ?case by (rule types_domains)
next
  case 19 then show ?case by (rule types_users)
next
  case 20 then show ?case by (rule types_sessions(1))
next
  case 21 then show ?case by (rule types_sessions(2))
next
  case 22 then show ?case by (rule types_app_passwords)
next
  case 23 then show ?case by (simp add: types_insert(3))
qed

lemma types_store_step: "keeps_types db (store_step db c)"
proof (cases "\<exists>x. c = Mail x \<and> worker_cmd x")
  case True
  then obtain x where "c = Mail x" "worker_cmd x" by blast
  then show ?thesis
    by (cases x) (simp_all add: ClaimQueue_def CompleteQueue_def RetryQueue_def RecoverStaleQueue_def Let_def types_update_queue)
next
  case False
  then show ?thesis by (intro types.store_step) blast
qed

interpretation types_machine: machine store_step row_types
  by unfold_locales (use types_store_step in \<open>auto simp: keeps_types_def\<close>)

lemma row_types_run: "row_types (store_run cs)"
  unfolding store_run_def by (rule types_machine.inv_run) (simp add: row_types_defs empty_db_def)

section \<open>The schema holds in every history\<close>

text \<open>All the constraints, those of the entries and of the keys of the other theories included.\<close>

definition well_formed :: "db \<Rightarrow> bool" where
  "well_formed db \<longleftrightarrow> row_types db
     \<and> distinct (map u_id (users db)) \<and> distinct (map (\<lambda>u. ToLower (u_email u)) (users db))
     \<and> distinct (map s_token_hash (sessions db)) \<and> distinct (map m_id (messages db)) \<and> distinct (map mb_id (mailboxes db))
     \<and> distinct (map e_id (entries db)) \<and> distinct (map (\<lambda>e. (e_mailbox_id e, e_uid e)) (entries db))
     \<and> (\<forall>m \<in> set (messages db). 0 \<le> m_size m)
     \<and> (\<forall>s \<in> set (sessions db). \<exists>u \<in> set (users db). u_id u = s_user_id s \<and> s_auth_version s \<le> u_auth_version u)
     \<and> (\<forall>e \<in> set (entries db). e_message_id e \<in> m_id ` set (messages db) \<and> e_user_id e \<in> u_id ` set (users db)
          \<and> e_mailbox_id e \<in> mb_id ` set (mailboxes db))
     \<and> (\<forall>i. count_where (\<lambda>s. s_user_id s = i) (sessions db) \<le> maxActiveWebSessions)"

lemma well_formed_inv:
  assumes "store_inv db" and types: "row_types db"
  shows "well_formed db"
proof -
  have inv: "mail_inv db" "acct_inv db" using assms(1) by (simp_all add: store_inv_def)
  have "e_message_id e \<in> m_id ` set (messages db) \<and> e_user_id e \<in> u_id ` set (users db)
      \<and> e_mailbox_id e \<in> mb_id ` set (mailboxes db)" if e: "e \<in> set (entries db)" for e
  proof -
    obtain b where "b \<in> set (mailboxes db)" "mb_id b = e_mailbox_id e" "mb_user_id b = e_user_id e"
      using inv(1) e unfolding mail_inv_def uid_ok_def by blast
    moreover have "e_message_id e \<in> m_id ` set (messages db)" using inv(1) e unfolding mail_inv_def by blast
    moreover have "mb_user_id ` set (mailboxes db) \<subseteq> u_id ` set (users db)"
      using types by (simp add: row_types_def mailbox_rows_def)
    ultimately show ?thesis by (metis image_eqI image_subset_iff)
  qed
  with types inv show ?thesis
    by (simp add: well_formed_def mail_inv_def acct_inv_def session_ok_def user_emails_def)
qed
text \<open>
  C19: The schema. In every history of the store every row satisfies the constraints of its table: roles,
  statuses, directions, quotas, versions and counters are in range, all IDs and the other unique columns are
  unique, and every reference has its row. A user has at most twenty sessions, none for a later version of
  the account than the current one.
\<close>

theorem schema_respected: "well_formed (store_run cs)"
  by (rule well_formed_inv) (simp_all add: store_inv_def store_run_inv row_types_run)

end
