(* ===== verification/Migrations.thy ===== *)
theory Migrations
  imports SchemaTypes
begin

text \<open>
  Opening a database file and bringing it to the current schema: \<open>migrate\<close> of \<open>internal/store/migrations.go\<close>
  and \<open>Open\<close> of \<open>store.go\<close>. A file is the registry of migrations, whether the tables exist, the columns that later
  versions add, and the rows; the value of a column that does not exist yet is never read. Every call of the
  database can fail (\<open>fails\<close>), which rolls the migration back.
\<close>

definition schemaVersion :: int where "schemaVersion = 4"

datatype added_column = UserAuthVersion | SessionAuthVersion | UserProtocolAuthVersion

record stored =
  st_versions :: "int list"
  st_tables :: bool
  st_columns :: "added_column list"
  st_data :: db

datatype migration_call =
    BeginCall | RegistryCall | ReadVersionCall | CreateTables | RecordVersion int | InspectColumn added_column
  | AddColumn added_column | InvalidateSessions | InitializeProtocol | CommitCall

datatype migration_error = CallError migration_call | NewerSchema int

section \<open>The statements\<close>

definition current_version :: "stored \<Rightarrow> int" where
  "current_version st = (if st_versions st = [] then 0 else Max (set (st_versions st)))"

text \<open>\<open>ALTER TABLE \<dots> ADD COLUMN \<dots> NOT NULL DEFAULT 1\<close>\<close>

fun default_column :: "added_column \<Rightarrow> db \<Rightarrow> db" where
  "default_column UserAuthVersion db = db\<lparr>users := map (\<lambda>u. u\<lparr>u_auth_version := 1\<rparr>) (users db)\<rparr>"
| "default_column SessionAuthVersion db = db\<lparr>sessions := map (\<lambda>s. s\<lparr>s_auth_version := 1\<rparr>) (sessions db)\<rparr>"
| "default_column UserProtocolAuthVersion db = db\<lparr>users := map (\<lambda>u. u\<lparr>u_protocol_auth_version := 1\<rparr>) (users db)\<rparr>"

definition ensure_column :: "(migration_call \<Rightarrow> bool) \<Rightarrow> added_column \<Rightarrow> stored \<Rightarrow> migration_error + stored" where
  "ensure_column fails c st =
     guard_err (fails (InspectColumn c)) (CallError (InspectColumn c))
     (if c \<in> set (st_columns st) then Inr st
      else guard_err (fails (AddColumn c)) (CallError (AddColumn c))
        (Inr (st\<lparr>st_columns := st_columns st @ [c], st_data := default_column c (st_data st)\<rparr>)))"

definition record_version :: "(migration_call \<Rightarrow> bool) \<Rightarrow> int \<Rightarrow> stored \<Rightarrow> migration_error + stored" where
  "record_version fails v st =
     guard_err (fails (RecordVersion v) \<or> v \<in> set (st_versions st)) (CallError (RecordVersion v))
       (Inr (st\<lparr>st_versions := st_versions st @ [v]\<rparr>))"

definition migrate_v1 :: "(migration_call \<Rightarrow> bool) \<Rightarrow> stored \<Rightarrow> migration_error + stored" where
  "migrate_v1 fails st =
     guard_err (fails CreateTables) (CallError CreateTables)
       (record_version fails 1
         (if st_tables st then st else st\<lparr>st_tables := True, st_columns := [], st_data := empty_db\<rparr>))"

definition migrate_v2 :: "(migration_call \<Rightarrow> bool) \<Rightarrow> stored \<Rightarrow> migration_error + stored" where
  "migrate_v2 fails st = bind_res (ensure_column fails UserAuthVersion st) (record_version fails 2)"

definition migrate_v3 :: "(migration_call \<Rightarrow> bool) \<Rightarrow> stored \<Rightarrow> migration_error + stored" where
  "migrate_v3 fails st =
     bind_res (ensure_column fails SessionAuthVersion st) (\<lambda>st1.
     guard_err (fails InvalidateSessions) (CallError InvalidateSessions)
       (record_version fails 3 (st1\<lparr>st_data := (st_data st1)\<lparr>sessions := []\<rparr>\<rparr>)))"

definition migrate_v4 :: "(migration_call \<Rightarrow> bool) \<Rightarrow> stored \<Rightarrow> migration_error + stored" where
  "migrate_v4 fails st =
     bind_res (ensure_column fails UserProtocolAuthVersion st) (\<lambda>st1.
     guard_err (fails InitializeProtocol) (CallError InitializeProtocol)
       (record_version fails 4 (st1\<lparr>st_data := (st_data st1)
          \<lparr>users := map (\<lambda>u. u\<lparr>u_protocol_auth_version := u_auth_version u\<rparr>) (users (st_data st1))\<rparr>\<rparr>)))"

text \<open>An error is a rollback: the caller keeps the file as it was.\<close>

definition migrate :: "(migration_call \<Rightarrow> bool) \<Rightarrow> stored \<Rightarrow> migration_error + stored" where
  "migrate fails st =
     guard_err (fails BeginCall) (CallError BeginCall)
     (guard_err (fails RegistryCall) (CallError RegistryCall)
     (guard_err (fails ReadVersionCall) (CallError ReadVersionCall)
     (let currentVersion = current_version st
      in guard_err (currentVersion > schemaVersion) (NewerSchema currentVersion)
        (bind_res (if currentVersion < 1 then migrate_v1 fails st else Inr st) (\<lambda>st1.
         bind_res (if currentVersion < 2 then migrate_v2 fails st1 else Inr st1) (\<lambda>st2.
         bind_res (if currentVersion < 3 then migrate_v3 fails st2 else Inr st2) (\<lambda>st3.
         bind_res (if currentVersion < 4 then migrate_v4 fails st3 else Inr st3) (\<lambda>st4.
         guard_err (fails CommitCall) (CallError CommitCall) (Inr st4)))))))))"

section \<open>Opening\<close>

record open_lib =
  ol_opens :: bool
  ol_pings :: bool
  ol_version :: "sqlite_version option option"
  ol_fails :: "migration_call \<Rightarrow> bool"
  ol_chmod :: bool

datatype open_error = OpenFailed | PingFailed | NoVersion | UnsafeVersion | MigrationFailed migration_error | ChmodFailed

text \<open>The result is the file afterwards and the configuration of the store, without limits at first.\<close>

definition Open :: "open_lib \<Rightarrow> string \<Rightarrow> stored \<Rightarrow> stored \<times> (open_error + store_config)" where
  "Open lib path st =
     (if \<not> ol_opens lib then (st, Inl OpenFailed)
      else if \<not> ol_pings lib then (st, Inl PingFailed)
      else (case ol_version lib of
          None \<Rightarrow> (st, Inl NoVersion)
        | Some sqliteVersion \<Rightarrow>
            if \<not> sqliteVersionAtLeast sqliteVersion 3 51 3 then (st, Inl UnsafeVersion)
            else (case migrate (ol_fails lib) st of
                Inl e \<Rightarrow> (st, Inl (MigrationFailed e))
              | Inr st1 \<Rightarrow>
                  if path \<noteq> '':memory:'' \<and> \<not> ol_chmod lib then (st1, Inl ChmodFailed)
                  else (st1, Inr \<lparr>archiveLimit = 0, minFreeDisk = 0, databasePath = path\<rparr>))))"

definition SetArchiveLimit :: "int \<Rightarrow> store_config \<Rightarrow> store_config" where
  "SetArchiveLimit bytes s = s\<lparr>archiveLimit := bytes\<rparr>"

definition SetStorageLimits :: "int \<Rightarrow> int \<Rightarrow> store_config \<Rightarrow> store_config" where
  "SetStorageLimits archiveBytes minFreeDiskBytes s = s\<lparr>archiveLimit := archiveBytes, minFreeDisk := minFreeDiskBytes\<rparr>"

section \<open>What a migration does to the rows\<close>

text \<open>The rows with the defaults of the columns that are still to be added.\<close>

definition filled :: "stored \<Rightarrow> db" where
  "filled st = fold default_column
     (filter (\<lambda>c. c \<notin> set (st_columns st)) [UserAuthVersion, SessionAuthVersion, UserProtocolAuthVersion]) (st_data st)"

definition migrated :: "int \<Rightarrow> db \<Rightarrow> db" where
  "migrated v db = db\<lparr>sessions := (if v < 3 then [] else sessions db),
     users := (if v < 4 then map (\<lambda>u. u\<lparr>u_protocol_auth_version := u_auth_version u\<rparr>) (users db) else users db)\<rparr>"

text \<open>A file as one of the earlier versions leaves it.\<close>

definition file_ok :: "stored \<Rightarrow> bool" where
  "file_ok st \<longleftrightarrow> (\<forall>v \<in> set (st_versions st). 1 \<le> v) \<and> (1 \<le> current_version st \<longrightarrow> st_tables st)
     \<and> (2 \<le> current_version st \<longrightarrow> UserAuthVersion \<in> set (st_columns st))
     \<and> (3 \<le> current_version st \<longrightarrow> SessionAuthVersion \<in> set (st_columns st))
     \<and> (4 \<le> current_version st \<longrightarrow> UserProtocolAuthVersion \<in> set (st_columns st))
     \<and> (st_tables st \<longrightarrow> row_types (filled st) \<and> mail_inv (filled st)
          \<and> acct_inv ((filled st)\<lparr>sessions := (if current_version st < 3 then [] else sessions (filled st))\<rparr>))"

lemma current_version_append: "current_version (st\<lparr>st_versions := vs @ [v]\<rparr>) = (if vs = [] then v else max (Max (set vs)) v)"
  by (simp add: current_version_def max.commute)

lemma record_version_Inr:
  "record_version fails v st = Inr st' \<longleftrightarrow> \<not> fails (RecordVersion v) \<and> v \<notin> set (st_versions st)
     \<and> st' = st\<lparr>st_versions := st_versions st @ [v]\<rparr>"
  by (auto simp: record_version_def)

lemma ensure_column_Inr:
  "ensure_column fails c st = Inr st' \<Longrightarrow> st_versions st' = st_versions st \<and> st_tables st' = st_tables st
     \<and> set (st_columns st') = insert c (set (st_columns st))
     \<and> st_data st' = (if c \<in> set (st_columns st) then st_data st else default_column c (st_data st))"
  by (auto simp: ensure_column_def split: if_splits)

lemma current_version_cases:
  assumes "\<forall>v \<in> set (st_versions st). 1 \<le> v" and "current_version st \<le> 4"
  shows "current_version st \<in> {0, 1, 2, 3, 4}"
proof (cases "st_versions st = []")
  case False
  then have "Max (set (st_versions st)) \<in> set (st_versions st)" by simp
  then have "1 \<le> current_version st" using assms(1) False by (simp add: current_version_def)
  then show ?thesis using assms(2) by auto
qed (simp add: current_version_def)

lemma migrate_Inr:
  assumes "migrate fails st = Inr st'" and "st_tables st"
  shows "current_version st \<le> 4"
    and "st_versions st' = st_versions st @ filter (\<lambda>v. current_version st < v) [1, 2, 3, 4]"
    and "st_tables st'"
    and "st_data st' = (let d = st_data st; v = current_version st; cols = set (st_columns st);
       d2 = (if v < 2 \<and> UserAuthVersion \<notin> cols then default_column UserAuthVersion d else d);
       d3 = (if v < 3 then (if SessionAuthVersion \<notin> cols then default_column SessionAuthVersion d2 else d2)\<lparr>sessions := []\<rparr> else d2)
     in if v < 4 then (let d4 = (if UserProtocolAuthVersion \<notin> cols then default_column UserProtocolAuthVersion d3 else d3)
          in d4\<lparr>users := map (\<lambda>u. u\<lparr>u_protocol_auth_version := u_auth_version u\<rparr>) (users d4)\<rparr>) else d3)"
proof -
  let ?v = "current_version st"
  obtain st1 st2 st3 where le: "?v \<le> 4"
    and s1: "(if ?v < 1 then migrate_v1 fails st else Inr st) = Inr st1"
    and s2: "(if ?v < 2 then migrate_v2 fails st1 else Inr st1) = Inr st2"
    and s3: "(if ?v < 3 then migrate_v3 fails st2 else Inr st2) = Inr st3"
    and s4: "(if ?v < 4 then migrate_v4 fails st3 else Inr st3) = Inr st'"
    using assms(1) unfolding migrate_def Let_def guard_err_Inr_iff bind_res_Inr_iff schemaVersion_def by auto
  have r1: "st_data st1 = st_data st" "st_tables st1" "st_columns st1 = st_columns st"
    "st_versions st1 = st_versions st @ (if ?v < 1 then [1] else [])"
    using s1 assms(2) by (auto simp: migrate_v1_def record_version_Inr split: if_splits)
  have r2: "st_data st2 = (if ?v < 2 \<and> UserAuthVersion \<notin> set (st_columns st) then default_column UserAuthVersion (st_data st) else st_data st)"
    "st_tables st2" "set (st_columns st2) = (if ?v < 2 then insert UserAuthVersion (set (st_columns st)) else set (st_columns st))"
    "st_versions st2 = st_versions st1 @ (if ?v < 2 then [2] else [])"
    using s2 r1 by (auto simp: migrate_v2_def record_version_Inr dest!: ensure_column_Inr split: if_splits)
  have r3: "st_data st3 = (if ?v < 3 then (if SessionAuthVersion \<notin> set (st_columns st) then default_column SessionAuthVersion (st_data st2)
      else st_data st2)\<lparr>sessions := []\<rparr> else st_data st2)" "st_tables st3"
    "UserProtocolAuthVersion \<in> set (st_columns st3) \<longleftrightarrow> UserProtocolAuthVersion \<in> set (st_columns st)"
    "st_versions st3 = st_versions st2 @ (if ?v < 3 then [3] else [])"
    using s3 r2 by (auto simp: migrate_v3_def record_version_Inr dest!: ensure_column_Inr split: if_splits)
  have r4: "st_tables st'" "st_versions st' = st_versions st3 @ (if ?v < 4 then [4] else [])"
    "st_data st' = (if ?v < 4 then (let d4 = (if UserProtocolAuthVersion \<notin> set (st_columns st) then default_column UserProtocolAuthVersion (st_data st3) else st_data st3)
        in d4\<lparr>users := map (\<lambda>u. u\<lparr>u_protocol_auth_version := u_auth_version u\<rparr>) (users d4)\<rparr>) else st_data st3)"
    using s4 r3 by (auto simp: migrate_v4_def record_version_Inr Let_def dest!: ensure_column_Inr split: if_splits)
  show "current_version st \<le> 4" "st_tables st'" by (rule le r4)+
  show "st_versions st' = st_versions st @ filter (\<lambda>v. current_version st < v) [1, 2, 3, 4]"
    using r1 r2 r3 r4 by auto
  show "st_data st' = (let d = st_data st; v = current_version st; cols = set (st_columns st);
       d2 = (if v < 2 \<and> UserAuthVersion \<notin> cols then default_column UserAuthVersion d else d);
       d3 = (if v < 3 then (if SessionAuthVersion \<notin> cols then default_column SessionAuthVersion d2 else d2)\<lparr>sessions := []\<rparr> else d2)
     in if v < 4 then (let d4 = (if UserProtocolAuthVersion \<notin> cols then default_column UserProtocolAuthVersion d3 else d3)
          in d4\<lparr>users := map (\<lambda>u. u\<lparr>u_protocol_auth_version := u_auth_version u\<rparr>) (users d4)\<rparr>) else d3)"
    using r1 r2 r3 r4 by (simp add: Let_def)
qed

lemma migrate_data:
  assumes "migrate fails st = Inr st'" and "st_tables st" and "file_ok st"
  shows "st_data st' = migrated (current_version st) (filled st)" and "current_version st' = 4"
proof -
  note le = migrate_Inr(1) [OF assms(1,2)] and vs = migrate_Inr(2) [OF assms(1,2)] and data = migrate_Inr(4) [OF assms(1,2)]
  have pos: "\<forall>v \<in> set (st_versions st). 1 \<le> v" using assms(3) by (simp add: file_ok_def)
  show "st_data st' = migrated (current_version st) (filled st)"
  proof -
    let ?v = "current_version st" and ?cols = "set (st_columns st)"
    consider "?v < 2" | "2 \<le> ?v" "?v < 3" | "3 \<le> ?v" "?v < 4" | "4 \<le> ?v" by linarith
    then show ?thesis
    proof cases
      case 1
      then show ?thesis unfolding data filled_def migrated_def Let_def
        by (cases "UserAuthVersion \<in> ?cols"; cases "SessionAuthVersion \<in> ?cols"; cases "UserProtocolAuthVersion \<in> ?cols"; simp add: o_def)
    next
      case 2
      then have "UserAuthVersion \<in> ?cols" using assms(3) by (simp add: file_ok_def)
      with 2 show ?thesis unfolding data filled_def migrated_def Let_def
        by (cases "SessionAuthVersion \<in> ?cols"; cases "UserProtocolAuthVersion \<in> ?cols"; simp add: o_def)
    next
      case 3
      then have "UserAuthVersion \<in> ?cols" "SessionAuthVersion \<in> ?cols" using assms(3) by (simp_all add: file_ok_def)
      with 3 show ?thesis unfolding data filled_def migrated_def Let_def
        by (cases "UserProtocolAuthVersion \<in> ?cols"; simp add: o_def)
    next
      case 4
      then have "UserAuthVersion \<in> ?cols" "SessionAuthVersion \<in> ?cols" "UserProtocolAuthVersion \<in> ?cols"
        using assms(3) by (simp_all add: file_ok_def)
      with 4 show ?thesis unfolding data filled_def migrated_def Let_def by simp
    qed
  qed
  have "v \<le> current_version st" if "v \<in> set (st_versions st)" for v
    using that by (auto simp: current_version_def)
  then have old: "v \<le> 4" if "v \<in> set (st_versions st)" for v using le that by force
  have four: "4 \<in> set (st_versions st)" if "\<not> current_version st < 4"
  proof -
    have "st_versions st \<noteq> []" using that by (auto simp: current_version_def)
    then have "current_version st \<in> set (st_versions st)" by (simp add: current_version_def)
    then show ?thesis using that le by simp
  qed
  have "Max (set (st_versions st')) = 4"
    by (rule Max_eqI) (use old four in \<open>auto simp: vs split: if_splits\<close>)
  moreover have "st_versions st' \<noteq> []" using four by (auto simp: vs)
  ultimately show "current_version st' = 4" by (simp add: current_version_def)
qed

lemma migrated_inv:
  assumes "row_types db" and "mail_inv db" and "acct_inv (db\<lparr>sessions := (if v < 3 then [] else sessions db)\<rparr>)"
  shows "row_types (migrated v db)" and "store_inv (migrated v db)"
proof -
  let ?f = "\<lambda>u. u\<lparr>u_protocol_auth_version := u_auth_version u\<rparr>"
  have users: "map g (users (migrated v db)) = map g (users db)" if "\<And>u. g (?f u) = g u" for g
    using that by (simp add: migrated_def)
  show "row_types (migrated v db)"
    using assms(1) unfolding row_types_defs migrated_def by (auto simp: user_columns_def image_image o_def)
  have "session_ok (users (migrated v db)) s = session_ok (users db) s" for s
    by (auto simp: session_ok_def migrated_def)
  then have "acct_inv (migrated v db)"
    using assms(3) users [of u_id] users [of "\<lambda>u. ToLower (u_email u)"]
    by (simp add: acct_inv_def user_emails_def) (simp add: migrated_def)
  moreover have "mail_inv (migrated v db)" using assms(2) by (simp add: mail_inv_def migrated_def)
  ultimately show "store_inv (migrated v db)" by (simp add: store_inv_def)
qed

text \<open>Without tables the first migration starts from the empty database.\<close>

lemma migrate_fresh:
  assumes "\<not> st_tables st" and "file_ok st"
  defines "st0 \<equiv> st\<lparr>st_tables := True, st_columns := [], st_data := empty_db\<rparr>"
  shows "migrate fails st = migrate fails st0" and "file_ok st0" and "current_version st0 = current_version st"
proof -
  have v: "current_version st < 1" using assms(1,2) by (auto simp: file_ok_def)
  show cv: "current_version st0 = current_version st" by (simp add: st0_def current_version_def)
  have "migrate_v1 fails st = migrate_v1 fails st0" using assms(1) by (simp add: migrate_v1_def st0_def)
  then show "migrate fails st = migrate fails st0" using v by (simp add: migrate_def cv)
  have "filled st0 = empty_db" by (simp add: filled_def st0_def empty_db_def)
  then show "file_ok st0" using assms(2) v store_inv_empty
    by (simp add: file_ok_def cv row_types_defs empty_db_def store_inv_def) (simp add: st0_def)
qed

section \<open>Upgrades\<close>

text \<open>The content: everything but the sessions and the versions of the accounts.\<close>

definition same_content :: "db \<Rightarrow> db \<Rightarrow> bool" where
  "same_content db db' \<longleftrightarrow> domains db' = domains db \<and> aliases db' = aliases db \<and> app_passwords db' = app_passwords db
     \<and> messages db' = messages db \<and> attachments db' = attachments db \<and> mailboxes db' = mailboxes db
     \<and> entries db' = entries db \<and> queue db' = queue db \<and> audit_log db' = audit_log db
     \<and> map (\<lambda>u. u\<lparr>u_auth_version := 1, u_protocol_auth_version := 1\<rparr>) (users db')
       = map (\<lambda>u. u\<lparr>u_auth_version := 1, u_protocol_auth_version := 1\<rparr>) (users db)"

lemma same_content_migrated: "same_content db (migrated v (filled (st\<lparr>st_data := db\<rparr>)))"
  by (simp add: same_content_def migrated_def filled_def o_def)

lemma migrate_ok:
  assumes "migrate fails st = Inr st'" and "file_ok st"
  shows "current_version st' = 4" and "row_types (st_data st')" and "store_inv (st_data st')"
    and "st_tables st \<longrightarrow> st_data st' = migrated (current_version st) (filled st)" and "current_version st \<le> 4"
    and "\<not> st_tables st \<Longrightarrow> st_data st' = empty_db"
proof -
  define st0 where "st0 = (if st_tables st then st else st\<lparr>st_tables := True, st_columns := [], st_data := empty_db\<rparr>)"
  have st0: "migrate fails st0 = Inr st'" "file_ok st0" "st_tables st0" "current_version st0 = current_version st"
    using assms migrate_fresh [of st] by (auto simp: st0_def)
  note data = migrate_data [OF st0(1,3,2)]
  show "current_version st' = 4" by (rule data(2))
  show "row_types (st_data st')" "store_inv (st_data st')"
    unfolding data(1) using st0(2,3) by (auto intro!: migrated_inv simp: file_ok_def)
  show "st_tables st \<longrightarrow> st_data st' = migrated (current_version st) (filled st)" using data(1) by (simp add: st0_def)
  show "current_version st \<le> 4" using migrate_Inr(1) [OF st0(1,3)] st0(4) by simp
  show "st_data st' = empty_db" if "\<not> st_tables st"
    using data(1) that by (simp add: st0_def migrated_def filled_def empty_db_def)
qed

lemma migrate_current: "migrate fails st = Inr st' \<Longrightarrow> current_version st = 4 \<Longrightarrow> st' = st"
  by (auto simp: migrate_def Let_def)

text \<open>
  C9: Upgrades. Opening a file of a newer version than 4 fails and leaves it alone, and one of version 4 is not
  changed. When a file of an older version is opened, it has version 4 afterwards, all the invariants of the
  store hold of it, and no content is lost; from before version 3 no session is left, and from before version 4
  the protocol logins start with the version of the account. When opening fails the file is as before, or upgraded
  when only setting its mode has failed.
\<close>

theorem upgrade_safe:
  assumes "file_ok st" and "Open lib path st = (st', r)"
  shows "(current_version st > 4 \<longrightarrow> st' = st \<and> isl r) \<and> (current_version st = 4 \<longrightarrow> st' = st)
    \<and> (isl r \<longrightarrow> st' = st \<or> r = Inl ChmodFailed)
    \<and> (\<not> isl r \<or> r = Inl ChmodFailed \<longrightarrow> current_version st' = 4 \<and> store_inv (st_data st') \<and> row_types (st_data st')
        \<and> (if st_tables st then same_content (st_data st) (st_data st') else st_data st' = empty_db)
        \<and> (current_version st < 3 \<longrightarrow> sessions (st_data st') = [])
        \<and> (current_version st < 4 \<longrightarrow> (\<forall>u \<in> set (users (st_data st')). u_protocol_auth_version u = u_auth_version u)))"
proof (cases "migrate (ol_fails lib) st")
  case (Inl e)
  then show ?thesis using assms by (auto simp: Open_def split: option.splits if_splits)
next
  case (Inr st1)
  note ok = migrate_ok [OF Inr assms(1)]
  have "same_content (st_data st) (st_data st1)" if "st_tables st"
    using ok(4) that same_content_migrated [of "st_data st" _ st] by simp
  moreover have "sessions (st_data st1) = []" if "current_version st < 3"
    using ok(4,6) that by (cases "st_tables st") (auto simp: migrated_def empty_db_def)
  moreover have "u_protocol_auth_version u = u_auth_version u" if "current_version st < 4" "u \<in> set (users (st_data st1))" for u
    using ok(4,6) that by (cases "st_tables st") (auto simp: migrated_def empty_db_def)
  moreover have "st' = st \<and> isl r \<and> r \<noteq> Inl ChmodFailed \<or> st' = st1 \<and> (\<not> isl r \<or> r = Inl ChmodFailed)"
    using assms(2) Inr by (auto simp: Open_def split: option.splits if_splits)
  ultimately show ?thesis using ok migrate_current [OF Inr] by auto
qed

text \<open>An installation of version 1, with a user and a session, is opened.\<close>

definition ex_file :: stored where
  "ex_file = \<lparr>st_versions = [1], st_tables = True, st_columns = [],
     st_data = ex_db\<lparr>sessions := [\<lparr>s_id = ''s'', s_user_id = ''usrAA'', s_token_hash = ''t'', s_auth_version = 0, s_created = 1,
       s_expires = 2, s_last_seen = 1, s_ip = [], s_user_agent = []\<rparr>]\<rparr>\<rparr>"

definition ex_open_lib :: open_lib where
  "ex_open_lib = \<lparr>ol_opens = True, ol_pings = True, ol_version = Some (Some (Version 3 51 3)), ol_fails = (\<lambda>_. False), ol_chmod = True\<rparr>"

lemma ex_file_ok: "file_ok ex_file"
proof -
  have wf: "row_types ex_db" "mail_inv ex_db" "acct_inv ex_db"
    unfolding ex_history_db [symmetric] by (rule row_types_run store_run_inv)+
  obtain ss where f: "filled ex_file = ex_db\<lparr>sessions := ss\<rparr>" and "distinct (map s_id ss)" "\<forall>s \<in> set ss. 1 \<le> s_auth_version s"
    by (rule that [of "sessions (filled ex_file)"]) (simp_all add: filled_def ex_file_def ex_db_def)
  then have "row_types (filled ex_file)" using wf(1) unfolding f row_types_defs by simp
  moreover have "mail_inv (filled ex_file)" using wf(2) unfolding f mail_inv_def by simp
  moreover have "acct_inv ((filled ex_file)\<lparr>sessions := []\<rparr>)" using wf(3) unfolding f acct_inv_def user_emails_def by simp
  ultimately show ?thesis by (simp add: file_ok_def current_version_def) (simp add: ex_file_def)
qed

theorem upgrade_safe_witness:
  "\<exists>st' cfg. Open ex_open_lib ''f'' ex_file = (st', Inr cfg) \<and> messages (st_data st') = [ex_message]
     \<and> sessions (st_data st') = [] \<and> current_version st' = 4 \<and> store_inv (st_data st')"
proof -
  obtain st' r where o: "Open ex_open_lib ''f'' ex_file = (st', r)" by fastforce
  have "\<not> isl (snd (Open ex_open_lib ''f'' ex_file))" by code_simp
  then obtain cfg where r: "r = Inr cfg" using o by (cases r) auto
  have v: "current_version ex_file = 1" "st_tables ex_file" by (simp_all add: ex_file_def current_version_def)
  have "messages (st_data st') = messages (st_data ex_file)"
    using upgrade_safe [OF ex_file_ok o] r v by (simp add: same_content_def)
  then show ?thesis using upgrade_safe [OF ex_file_ok o] r v o by (simp add: ex_file_def ex_db_def)
qed

end
