(* ===== verification/QueueLiveness.thy ===== *)
theory QueueLiveness
  imports QueueProperties
begin

text \<open>
  The loop of the worker, \<open>Run\<close> and \<open>Wake\<close> of \<open>internal/queue/worker.go\<close>, and its progress: every batch that
  finds due items brings the queue nearer to its end, so that items do not wait for ever and are not tried for ever.
\<close>

section \<open>The loop\<close>

text \<open>What ends the wait after a batch: the context, the ticker, or \<open>Wake\<close>, whose channel holds one signal.\<close>

datatype wake_up = Cancelled | Ticked | Woken

text \<open>\<open>Run\<close> over the batches and wake-ups that come; the flag tells that it has returned.\<close>

fun Run :: "worker_options \<Rightarrow> (batch_env \<times> wake_up) list \<Rightarrow> db \<Rightarrow> db \<times> bool" where
  "Run opts [] db = (db, False)"
| "Run opts ((be, w) # rest) db =
     (let db1 = runBatch opts be db
      in case w of Cancelled \<Rightarrow> (db1, True) | Ticked \<Rightarrow> Run opts rest db1 | Woken \<Rightarrow> Run opts rest db1)"

definition Wake :: "bool \<Rightarrow> bool" where
  "Wake full = (if full then full else True)"

lemma Run_batches: "\<forall>x \<in> set steps. snd x \<noteq> Cancelled \<Longrightarrow> Run opts steps db = (fold (runBatch opts) (map fst steps) db, False)"
  by (induction steps arbitrary: db) (auto simp: Let_def split: wake_up.splits)

section \<open>What is left to do\<close>

text \<open>The attempts that an item may still get: an open one has at least one.\<close>

definition weight :: "int \<Rightarrow> queue_item \<Rightarrow> nat" where
  "weight n q = (if q_status q \<in> {Queued, Delivering} then nat (max 1 (n - q_attempts q)) else 0)"

definition work :: "int \<Rightarrow> db \<Rightarrow> nat" where
  "work n db = (\<Sum>q \<leftarrow> queue db. weight n q)"

lemma work_0: "work n db = 0 \<longleftrightarrow> (\<forall>q \<in> set (queue db). q_status q \<in> {Delivered, Failed})"
proof -
  have "weight n q = 0 \<longleftrightarrow> q_status q \<in> {Delivered, Failed}" for q
    by (cases "q_status q") (simp_all add: weight_def)
  then show ?thesis by (auto simp: work_def)
qed

text \<open>At an instant \<open>t\<close> an item is settled when no worker holds it and it is due at the latest by then.\<close>

definition settled :: "time \<Rightarrow> queue_item \<Rightarrow> bool" where
  "settled t q \<longleftrightarrow> q_status q \<noteq> Delivering \<and> (q_status q = Queued \<longrightarrow> q_next_attempt q \<le> t)"

lemma settled_mono: "settled t q \<Longrightarrow> t \<le> t' \<Longrightarrow> settled t' q"
  by (auto simp: settled_def)

section \<open>One batch\<close>

lemma process_item_row:
  assumes dist: "distinct (map q_id (queue db))" and q: "queue db = xs @ r # ys" and r: "same_row Queued item r"
    and now: "clock (be_finish be i) 0 \<le> t"
  obtains r' where "queue (process_item opts be i item db) = xs @ r' # ys" and "q_id r' = q_id r"
    and "weight (wo_max_attempts opts) r' < weight (wo_max_attempts opts) r" and "settled (t + 24 * hour) r'"
proof -
  let ?n = "wo_max_attempts opts"
  have id: "q_id r = q_id item" "q_attempts r = q_attempts item" "q_status r = Queued" using r by (simp_all add: same_row_def)
  have "q_id r \<notin> q_id ` (set xs \<union> set ys)" using dist by (simp add: q image_Un)
  then have others: "\<forall>x \<in> set xs \<union> set ys. q_id x \<noteq> q_id item" using id(1) by (metis imageI)
  have rows: "map (\<lambda>x. if q_id x = q_id item \<and> P x then f x else x) (xs @ r1 # ys) = xs @ (if P r1 then f r1 else r1) # ys"
    if "q_id r1 = q_id item" for P f r1
  proof -
    have "map (\<lambda>x. if q_id x = q_id item \<and> P x then f x else x) zs = zs" if "set zs \<subseteq> set xs \<union> set ys" for zs
      using others that by (intro map_idI) auto
    then show ?thesis using that by simp
  qed
  have "filter (\<lambda>x. q_id x = q_id item \<and> q_status x = Queued) zs = []" if "set zs \<subseteq> set xs \<union> set ys" for zs
    using others that by (auto simp: filter_empty_conv)
  then have "count_where (\<lambda>x. q_id x = q_id item \<and> q_status x = Queued) (queue db) = 1"
    using id by (simp add: q count_where_def)
  then obtain db1 where claim: "ClaimQueue (be_claim be i) db (q_id item) = (db1, True)"
    by (simp add: ClaimQueue_def Let_def)
  let ?r1 = "r\<lparr>q_status := Delivering, q_attempts := q_attempts r + 1, q_updated := clock (be_claim be i) 0\<rparr>"
  have db1: "queue db1 = xs @ ?r1 # ys" using ClaimQueue_True(1) [OF claim] rows [OF id(1), of "\<lambda>x. q_status x = Queued"] id by (simp add: q)
  let ?it = "item\<lparr>q_attempts := q_attempts item + 1\<rparr>"
  have finish: "queue (process_item opts be i item db) = queue (finish_item opts (be_finish be i) ?it (attempt be i ?it db1) db1)"
    by (simp add: process_item_def claim Let_def RefreshMessageTransportStatus_def)
  have delay: "retry_delay (q_attempts r + 1) \<le> 24 * hour" using retry_schedule [of "q_attempts r + 1" 0] by simp
  show thesis
  proof (cases "attempt be i ?it db1")
    case None
    let ?r2 = "?r1\<lparr>q_status := Delivered, q_delivered := Some (clock (be_finish be i) 0), q_updated := clock (be_finish be i) 0, q_last_error := []\<rparr>"
    have "queue (process_item opts be i item db) = xs @ ?r2 # ys"
      using finish None rows [of ?r1 "\<lambda>_. True"] id by (simp add: finish_item_def CompleteQueue_def db1)
    then show thesis by (rule that) (simp_all add: weight_def settled_def id)
  next
    case (Some e)
    let ?r2 = "?r1\<lparr>q_status := (if q_attempts r + 1 \<ge> ?n then Failed else Queued),
      q_next_attempt := clock (be_finish be i) 0 + retry_delay (q_attempts r + 1),
      q_last_error := QueueStore.truncate (safeError e) 2000, q_updated := clock (be_finish be i) 1\<rparr>"
    have "queue (process_item opts be i item db) = xs @ ?r2 # ys"
      using finish Some rows [of ?r1 "\<lambda>_. True"] id by (simp add: finish_item_def RetryQueue_def Let_def db1)
    then show thesis by (rule that) (use delay now in \<open>simp_all add: weight_def settled_def id\<close>)
  qed
qed

lemma process_items_work:
  assumes "distinct (map q_id (queue db))" and "distinct (map q_id items)"
    and "\<forall>item \<in> set items. \<exists>r \<in> set (queue db). same_row Queued item r"
    and "\<forall>q \<in> set (queue db). settled (t + 24 * hour) q" and "\<And>k. clock (be_finish be k) 0 \<le> t" and "\<And>k. \<not> be_cancelled be k"
  shows "map q_id (queue (process_items opts be i items db)) = map q_id (queue db)
    \<and> work (wo_max_attempts opts) (process_items opts be i items db) + length items \<le> work (wo_max_attempts opts) db
    \<and> (\<forall>q \<in> set (queue (process_items opts be i items db)). settled (t + 24 * hour) q)"
  using assms(1-4)
proof (induction items arbitrary: i db)
  case (Cons item rest)
  let ?db = "process_item opts be i item db"
  obtain r where "r \<in> set (queue db)" "same_row Queued item r" using Cons.prems(3) by auto
  then obtain xs ys where q: "queue db = xs @ r # ys" and r: "same_row Queued item r" by (auto dest: split_list)
  obtain r' where q': "queue ?db = xs @ r' # ys" and id: "q_id r' = q_id r"
    and less: "weight (wo_max_attempts opts) r' < weight (wo_max_attempts opts) r" and ok: "settled (t + 24 * hour) r'"
    by (rule process_item_row [OF Cons.prems(1) q r assms(5)])
  have "\<exists>x \<in> set (queue ?db). same_row Queued it x" if it: "it \<in> set rest" for it
  proof -
    obtain x where x: "x \<in> set (queue db)" "same_row Queued it x" using Cons.prems(3) it by auto
    moreover have "q_id it \<noteq> q_id item" using Cons.prems(2) it by (metis distinct.simps(2) imageI list.simps(9) set_map)
    ultimately have "x \<noteq> r" using r by (auto simp: same_row_def)
    then show ?thesis using x by (auto simp: q q')
  qed
  moreover have "distinct (map q_id (queue ?db))" "\<forall>x \<in> set (queue ?db). settled (t + 24 * hour) x"
    using Cons.prems(1,4) id ok by (simp_all add: q q')
  ultimately have ih: "map q_id (queue (process_items opts be (i + 1) rest ?db)) = map q_id (queue ?db)
    \<and> work (wo_max_attempts opts) (process_items opts be (i + 1) rest ?db) + length rest \<le> work (wo_max_attempts opts) ?db
    \<and> (\<forall>x \<in> set (queue (process_items opts be (i + 1) rest ?db)). settled (t + 24 * hour) x)"
    using Cons.prems(2) by (intro Cons.IH) auto
  have "work (wo_max_attempts opts) ?db < work (wo_max_attempts opts) db" using less by (simp add: work_def q q')
  then show ?case using ih assms(6) [of i] id by (simp add: q q')
qed simp

text \<open>
  A batch that starts at \<open>t\<close>: its clocks read within an hour from then, the context is not cancelled, and every open item
  is due at \<open>t\<close>, an abandoned one with its lease run out.
\<close>

definition batch_at :: "time \<Rightarrow> batch_env \<Rightarrow> bool" where
  "batch_at t be \<longleftrightarrow> be_now be = t \<and> clock (be_recover be) 0 = t \<and> t \<le> clock (be_ready be) 0
     \<and> (\<forall>k. clock (be_finish be k) 0 \<le> t + hour \<and> \<not> be_cancelled be k)"

definition due :: "time \<Rightarrow> db \<Rightarrow> bool" where
  "due t db \<longleftrightarrow> distinct (map q_id (queue db)) \<and> (\<forall>q \<in> set (queue db).
     (q_status q = Queued \<longrightarrow> q_next_attempt q \<le> t) \<and> (q_status q = Delivering \<longrightarrow> q_updated q + 30 * minute < t))"

lemma recover_due:
  assumes "due t db" and "clock env 0 = t"
  defines "db1 \<equiv> fst (RecoverStaleQueue env db (t - 30 * minute))"
  shows "map q_id (queue db1) = map q_id (queue db)" and "work n db1 = work n db" and "\<forall>q \<in> set (queue db1). settled t q"
proof -
  let ?g = "\<lambda>q. if q_status q = Delivering \<and> q_updated q < t - 30 * minute then q\<lparr>q_status := Queued, q_next_attempt := clock env 0,
      q_last_error := ''previous delivery worker stopped before completion'', q_updated := clock env 0\<rparr> else q"
  have q: "queue db1 = map ?g (queue db)" by (simp add: db1_def RecoverStaleQueue_def Let_def)
  show "map q_id (queue db1) = map q_id (queue db)" by (simp add: q)
  have "weight n (?g x) = weight n x" for x by (simp add: weight_def)
  then show "work n db1 = work n db" by (simp add: work_def q o_def)
  show "\<forall>q \<in> set (queue db1). settled t q" using assms(1,2) by (auto simp: q due_def settled_def)
qed

lemma runBatch_progress:
  assumes "due t db" and "batch_at t be" and "1 \<le> wo_batch_size opts" and "wo_batch_size opts \<le> 100"
  defines "db' \<equiv> runBatch opts be db"
  shows "due (t + 25 * hour) db'" and "work (wo_max_attempts opts) db' \<le> work (wo_max_attempts opts) db - 1"
proof -
  let ?n = "wo_max_attempts opts"
  define db1 where "db1 = fst (RecoverStaleQueue (be_recover be) db (t - 30 * minute))"
  have now: "clock (be_recover be) 0 = t" using assms(2) by (simp add: batch_at_def)
  note rec = recover_due [OF assms(1) now, folded db1_def]
  define items where "items = QueueReady (be_ready be) db1 (wo_batch_size opts)"
  have db': "db' = process_items opts be 0 items db1"
    using assms(2) by (simp add: db'_def runBatch_def items_def db1_def batch_at_def Let_def)
  have dist: "distinct (map q_id (queue db1))" using assms(1) rec(1) by (simp add: due_def)
  have settled: "\<forall>q \<in> set (queue db1). settled (t + hour + 24 * hour) q" using rec(3) settled_mono by fastforce
  have rows: "\<forall>item \<in> set items. \<exists>r \<in> set (queue db1). same_row Queued item r"
    using QueueReady_rows [of "be_ready be" db1 "wo_batch_size opts"] by (auto simp: items_def same_row_def)
  have step: "map q_id (queue db') = map q_id (queue db1) \<and> work ?n db' + length items \<le> work ?n db1
      \<and> (\<forall>q \<in> set (queue db'). settled (t + hour + 24 * hour) q)"
    unfolding db' using assms(2)
    by (intro process_items_work [OF dist _ rows settled] QueueReady_distinct [OF dist, folded items_def])
      (simp_all add: batch_at_def items_def QueueReady_distinct [OF dist])
  then show "due (t + 25 * hour) db'" using dist by (auto simp: due_def settled_def)
  show "work ?n db' \<le> work ?n db - 1"
  proof (cases "work ?n db = 0")
    case True
    then show ?thesis using step rec(2) [of ?n] by simp
  next
    case False
    then obtain q where q: "q \<in> set (queue db1)" "q_status q \<notin> {Delivered, Failed}"
      using work_0 [of ?n db1] rec(2) [of ?n] by auto
    then have "q_status q = Queued" "q_next_attempt q \<le> t" using rec(3) by (cases "q_status q"; auto simp: settled_def)+
    then have "q \<in> set (sort_key q_next_attempt (filter (\<lambda>q. q_status q = Queued \<and> q_next_attempt q \<le> clock (be_ready be) 0) (queue db1)))"
      using q assms(2) by (auto simp: batch_at_def)
    then have "sort_key q_next_attempt (filter (\<lambda>q. q_status q = Queued \<and> q_next_attempt q \<le> clock (be_ready be) 0) (queue db1)) \<noteq> []"
      by (metis list.set_cases list.distinct(1))
    then have "items \<noteq> []" using assms(3,4) by (auto simp: items_def QueueReady_def Let_def)
    then have "1 \<le> length items" by (cases items) simp_all
    then show ?thesis using step rec(2) [of ?n] False by linarith
  qed
qed

section \<open>The queue is drained\<close>

lemma batches_progress:
  assumes "due t db" and "\<forall>k < length bes. batch_at (t + int k * (25 * hour)) (bes ! k)"
    and "1 \<le> wo_batch_size opts" and "wo_batch_size opts \<le> 100"
  shows "work (wo_max_attempts opts) (fold (runBatch opts) bes db) \<le> work (wo_max_attempts opts) db - length bes"
  using assms(1,2)
proof (induction bes arbitrary: t db)
  case (Cons be bes)
  have "batch_at t be" using Cons.prems(2) by force
  note p = runBatch_progress [OF Cons.prems(1) this assms(3,4)]
  have "\<forall>k < length bes. batch_at (t + 25 * hour + int k * (25 * hour)) (bes ! k)"
  proof (intro allI impI)
    fix k assume "k < length bes"
    then have "batch_at (t + int (Suc k) * (25 * hour)) ((be # bes) ! Suc k)" using Cons.prems(2) by (metis Suc_less_eq length_Cons)
    then show "batch_at (t + 25 * hour + int k * (25 * hour)) (bes ! k)" by (simp add: algebra_simps)
  qed
  from Cons.IH [OF p(1) this] p(2) show ?case by simp
qed simp


text \<open>One item that fails all of its two attempts.\<close>

definition late_batch :: "time \<Rightarrow> batch_env" where
  "late_batch t = (let e = \<lparr>clock = (\<lambda>_. t), new_id = (\<lambda>_ _. [])\<rparr> in
     (queue_batch (Some ''no''))\<lparr>be_recover := e, be_ready := e, be_claim := (\<lambda>_. e), be_finish := (\<lambda>_. e), be_now := t\<rparr>)"


end
