(* ===== verification/Notices.thy ===== *)
theory Notices
  imports GoText "HOL-Library.AList" "HOL-Library.List_Lexorder" "HOL-Library.Char_ord"
begin

text \<open>
  \<open>scripts/third-party-notices/main.go\<close>, the build step that writes the licence texts of everything in the
  release binary. The file system, the Go toolchain and the answer of \<open>go list\<close> are the fields of \<open>build_lib\<close>;
  a map is an association list with distinct keys.
\<close>

datatype go_module = Module (md_path: string) (md_version: string) (md_dir: string) (md_main: bool) (md_replace: "go_module option")

record listed_package =
  lp_standard :: bool
  lp_module :: "go_module option"

record notice_file =
  nf_name :: string
  nf_content :: string

record component =
  nc_name :: string
  nc_files :: "notice_file list"

text \<open>The run of \<open>go list\<close>: the packages it printed, whether all of its output decoded, and its exit status.\<close>

record go_list =
  gl_packages :: "listed_package list"
  gl_decodes :: bool
  gl_succeeds :: bool

record build_lib =
  bl_goroot :: string
  bl_version :: string
  bl_environ :: "string list"
  bl_read_dir :: "string \<Rightarrow> (string \<times> bool) list option"
  bl_read_file :: "string \<Rightarrow> string \<Rightarrow> string option"
  bl_go_list :: "string list \<Rightarrow> go_list option"

datatype notice_error =
    NoDirectory string
  | NoNoticeFile string
  | NoFile string string
  | StartFailed
  | DecodeFailed
  | ListFailed
  | LocalReplacement string string
  | Unpinned string
  | OutOfDate
  | WriteFailed
  | BadArguments

section \<open>Notice files\<close>

definition upper_char :: "char \<Rightarrow> char" where
  "upper_char c = (if 97 \<le> code_of c \<and> code_of c \<le> 122 then char_of (code_of c - 32) else c)"

definition ToUpper :: "string \<Rightarrow> string" where
  "ToUpper s = map upper_char s"

definition notice_roots :: "string list" where
  "notice_roots = [''LICENSE'', ''COPYING'', ''NOTICE'', ''PATENTS'', ''COPYRIGHT'']"

definition isNoticeName :: "string \<Rightarrow> bool" where
  "isNoticeName name =
     (let upper = ToUpper name
      in list_ex (\<lambda>root. upper = root \<or> HasPrefix upper (root @ ''.'') \<or> HasPrefix upper (root @ ''-'')
           \<or> HasPrefix upper (root @ ''_'')) notice_roots)"

text \<open>\<open>strings.ReplaceAll(s, CRLF, LF)\<close>\<close>

fun unix_lines :: "string \<Rightarrow> string" where
  "unix_lines [] = []"
| "unix_lines [c] = [c]"
| "unix_lines (c # d # s) = (if c = CR \<and> d = LF then LF # unix_lines s else c # unix_lines (d # s))"

definition notice_text :: "string \<Rightarrow> string" where
  "notice_text content = TrimRightBy (\<lambda>c. c = LF) (unix_lines content)"

definition read_notice :: "build_lib \<Rightarrow> string \<Rightarrow> string \<Rightarrow> notice_file list \<Rightarrow> notice_error + notice_file list" where
  "read_notice lib directory name files =
     (case bl_read_file lib directory name of
        None \<Rightarrow> Inl (NoFile directory name)
      | Some content \<Rightarrow> Inr (files @ [\<lparr>nf_name = name, nf_content = notice_text content\<rparr>]))"

definition noticeFiles :: "build_lib \<Rightarrow> string \<Rightarrow> notice_error + notice_file list" where
  "noticeFiles lib directory =
     (case bl_read_dir lib directory of
        None \<Rightarrow> Inl (NoDirectory directory)
      | Some dir_entries \<Rightarrow>
          (let names = sort (map fst (filter (\<lambda>(name, regular). regular \<and> isNoticeName name) dir_entries))
           in if names = [] then Inl (NoNoticeFile directory)
              else fold_res (read_notice lib directory) names []))"

section \<open>The environment of the toolchain\<close>

definition environmentWith :: "string list \<Rightarrow> (string \<times> string) list \<Rightarrow> string list" where
  "environmentWith environment overrides =
     (let keys = sort (map fst overrides)
      in filter (\<lambda>entry. \<not> list_ex (\<lambda>key. HasPrefix entry (key @ ''='')) keys) environment
         @ map (\<lambda>key. key @ ''='' @ the (map_of overrides key)) keys)"

definition go_overrides :: "(string \<times> string) list" where
  "go_overrides = [(''CGO_ENABLED'', ''0''), (''GOARCH'', ''amd64''), (''GOEXPERIMENT'', []), (''GOFLAGS'', []),
     (''GOOS'', ''linux''), (''GOPROXY'', ''off''), (''GOTOOLCHAIN'', ''local''), (''GOWORK'', ''off'')]"

section \<open>Components\<close>

text \<open>The body of the loop for one module: its name in the bundle and the directory of its files.\<close>

definition resolve_module :: "go_module \<Rightarrow> notice_error + string \<times> string" where
  "resolve_module m =
     (let name = md_path m @ '' '' @ md_version m
      in case md_replace m of
           None \<Rightarrow> guard_err (md_version m = [] \<or> md_dir m = []) (Unpinned (md_path m)) (Inr (name, md_dir m))
         | Some r \<Rightarrow>
             guard_err (md_version r = []) (LocalReplacement (md_path m) (md_path r))
             (guard_err (md_version m = [] \<or> md_dir r = []) (Unpinned (md_path m))
               (Inr (name @ '' => '' @ md_path r @ '' '' @ md_version r, md_dir r))))"

definition third_party :: "listed_package \<Rightarrow> go_module option" where
  "third_party p = (if lp_standard p then None else case lp_module p of None \<Rightarrow> None | Some m \<Rightarrow> if md_main m then None else Some m)"

definition add_package :: "(string \<times> string) list \<times> notice_error option \<Rightarrow> listed_package
    \<Rightarrow> (string \<times> string) list \<times> notice_error option" where
  "add_package s p =
     (case third_party p of
        None \<Rightarrow> s
      | Some m \<Rightarrow>
          (case resolve_module m of
             Inl e \<Rightarrow> (fst s, (case snd s of None \<Rightarrow> Some e | Some first \<Rightarrow> Some first))
           | Inr (name, dir) \<Rightarrow> (AList.update name dir (fst s), snd s)))"

definition add_component :: "build_lib \<Rightarrow> (string \<times> string) list \<Rightarrow> string \<Rightarrow> component list
    \<Rightarrow> notice_error + component list" where
  "add_component lib modules name components =
     bind_res (noticeFiles lib (the (map_of modules name))) (\<lambda>files.
       Inr (components @ [\<lparr>nc_name = name, nc_files = files\<rparr>]))"

definition productionComponents :: "build_lib \<Rightarrow> notice_error + component list" where
  "productionComponents lib =
     bind_res (noticeFiles lib (bl_goroot lib)) (\<lambda>standardFiles.
       (let go = \<lparr>nc_name = ''Go runtime and standard library '' @ bl_version lib, nc_files = standardFiles\<rparr>
        in case bl_go_list lib (environmentWith (bl_environ lib) go_overrides) of
             None \<Rightarrow> Inl StartFailed
           | Some out \<Rightarrow>
               (let (modules, dependencyErr) = foldl add_package ([], None) (gl_packages out)
                in guard_err (\<not> gl_decodes out) DecodeFailed
                  (guard_err (\<not> gl_succeeds out) ListFailed
                  (case dependencyErr of
                     Some e \<Rightarrow> Inl e
                   | None \<Rightarrow> fold_res (add_component lib modules) (sort (map fst modules)) [go])))))"

section \<open>The bundle\<close>

definition rule_line :: string where
  "rule_line = replicate 80 (CHR ''='')"

definition preamble :: string where
  "preamble =
     ''BRCLIO MAIL THIRD-PARTY SOFTWARE NOTICES'' @ [LF, LF]
     @ ''This file is generated by `make third-party-notices`; do not edit it by hand.'' @ [LF]
     @ ''It covers the Go runtime and standard library plus every non-project Go module'' @ [LF]
     @ ''reachable from ./cmd/brclio-mail for the canonical CGO-disabled Linux/amd64 release.'' @ [LF]
     @ ''Project-owned and Esther-derived files are licensed separately; see LICENSE,'' @ [LF]
     @ ''NOTICE, and LICENSES/.'' @ [LF, LF] @ ''Components:'' @ [LF]"

definition file_section :: "notice_file \<Rightarrow> string" where
  "file_section f = [LF] @ ''--- '' @ nf_name f @ '' ---'' @ [LF, LF] @ nf_content f @ [LF]"

definition component_section :: "component \<Rightarrow> string" where
  "component_section c = [LF] @ rule_line @ [LF] @ nc_name c @ [LF] @ rule_line @ [LF] @ concat (map file_section (nc_files c))"

definition generate :: "build_lib \<Rightarrow> notice_error + string" where
  "generate lib =
     bind_res (productionComponents lib) (\<lambda>components.
       Inr (preamble @ concat (map (\<lambda>c. ''- '' @ nc_name c @ [LF]) components) @ concat (map component_section components)))"

text \<open>
  The command: with \<open>-check\<close> the file at the output path must be what would be written. The file system is a
  map from paths to contents; \<open>writable\<close> tells where \<open>os.WriteFile\<close> succeeds.
\<close>

definition notices_main :: "build_lib \<Rightarrow> (string \<Rightarrow> bool) \<Rightarrow> bool \<Rightarrow> string \<Rightarrow> string list \<Rightarrow> (string \<rightharpoonup> string)
    \<Rightarrow> (string \<rightharpoonup> string) \<times> notice_error option" where
  "notices_main lib writable check output args files =
     (if args \<noteq> [] then (files, Some BadArguments)
      else (case generate lib of
          Inl e \<Rightarrow> (files, Some e)
        | Inr generated \<Rightarrow>
            if check
            then (case files output of
                None \<Rightarrow> (files, Some (NoFile [] output))
              | Some committed \<Rightarrow> (files, if committed \<noteq> generated then Some OutOfDate else None))
            else if \<not> writable output then (files, Some WriteFailed)
            else (files(output \<mapsto> generated), None)))"

section \<open>Nothing is left out\<close>

text \<open>The modules of a list of packages, by what each package resolves to.\<close>

definition resolved_to :: "listed_package set \<Rightarrow> string \<Rightarrow> string \<Rightarrow> bool" where
  "resolved_to ps name dir \<longleftrightarrow> (\<exists>p \<in> ps. \<exists>m. third_party p = Some m \<and> resolve_module m = Inr (name, dir))"

lemma add_package_error: "snd s \<noteq> None \<Longrightarrow> snd (foldl add_package s ps) \<noteq> None"
  by (induction ps arbitrary: s) (auto simp: add_package_def split: option.splits sum.splits)

lemma add_package_None:
  assumes "snd (add_package (modules, None) p) = None"
  obtains (skipped) "third_party p = None" "add_package (modules, None) p = (modules, None)"
  | (added) m name dir where "third_party p = Some m" "resolve_module m = Inr (name, dir)"
      "add_package (modules, None) p = (AList.update name dir modules, None)"
  using assms by (auto simp: add_package_def split: option.splits sum.splits)

lemma resolved_to_Cons:
  "resolved_to (insert p ps) name dir \<longleftrightarrow> resolved_to ps name dir
     \<or> (\<exists>m. third_party p = Some m \<and> resolve_module m = Inr (name, dir))"
  by (auto simp: resolved_to_def)

lemma add_packages:
  assumes "foldl add_package (modules, None) ps = (modules', None)"
  shows "(\<forall>p \<in> set ps. \<forall>m. third_party p = Some m \<longrightarrow> (\<exists>x. resolve_module m = Inr x))
    \<and> (distinct (map fst modules) \<longrightarrow> distinct (map fst modules'))
    \<and> fst ` set modules' = fst ` set modules \<union> {name. \<exists>dir. resolved_to (set ps) name dir}
    \<and> (\<forall>name dir. map_of modules' name = Some dir \<longrightarrow> map_of modules name = Some dir \<or> resolved_to (set ps) name dir)"
  using assms
proof (induction ps arbitrary: modules)
  case Nil
  then show ?case by (simp add: resolved_to_def)
next
  case (Cons p ps)
  have rest: "foldl add_package (add_package (modules, None) p) ps = (modules', None)" using Cons.prems by simp
  then have "snd (add_package (modules, None) p) = None"
    using add_package_error [of "add_package (modules, None) p" ps] by fastforce
  then show ?case
  proof (cases rule: add_package_None)
    case skipped
    then show ?thesis using Cons.IH rest by (simp add: resolved_to_Cons)
  next
    case (added m name dir)
    note ih = Cons.IH [OF rest [unfolded added(3)]]
    have more: "resolved_to (set (p # ps)) n d \<longleftrightarrow> resolved_to (set ps) n d \<or> n = name \<and> d = dir" for n d
      using added by (auto simp: resolved_to_Cons)
    have "fst ` set modules' = fst ` set modules \<union> {n. \<exists>d. resolved_to (set (p # ps)) n d}"
      using ih unfolding more by (auto simp: dom_update)
    moreover have "map_of modules n = Some d \<or> resolved_to (set (p # ps)) n d" if "map_of modules' n = Some d" for n d
      using ih that unfolding more by (auto simp: update_conv' split: if_splits)
    ultimately show ?thesis using ih added by (auto simp: distinct_update)
  qed
qed

lemma loop_bodies:
  "add_component lib modules name cs = Inr cs' \<longleftrightarrow>
     (\<exists>files. noticeFiles lib (the (map_of modules name)) = Inr files \<and> cs' = cs @ [\<lparr>nc_name = name, nc_files = files\<rparr>])"
  "read_notice lib dir file fs = Inr fs' \<longleftrightarrow>
     (\<exists>content. bl_read_file lib dir file = Some content \<and> fs' = fs @ [\<lparr>nf_name = file, nf_content = notice_text content\<rparr>])"
  by (auto simp: add_component_def read_notice_def split: option.splits)

lemma add_components:
  "fold_res (add_component lib modules) names cs = Inr cs' \<Longrightarrow>
   \<exists>new. cs' = cs @ new \<and> map nc_name new = names \<and> (\<forall>c \<in> set new. noticeFiles lib (the (map_of modules (nc_name c))) = Inr (nc_files c))"
proof (induction names arbitrary: cs)
  case (Cons name names)
  then obtain files where files: "noticeFiles lib (the (map_of modules name)) = Inr files"
    and rest: "fold_res (add_component lib modules) names (cs @ [\<lparr>nc_name = name, nc_files = files\<rparr>]) = Inr cs'"
    by (auto simp: loop_bodies)
  from Cons.IH [OF rest] files show ?case by (elim exE, rule_tac x = "\<lparr>nc_name = name, nc_files = files\<rparr> # new" in exI) auto
qed simp

lemma productionComponents_Inr:
  assumes "productionComponents lib = Inr cs"
  obtains out go modules new where "bl_go_list lib (environmentWith (bl_environ lib) go_overrides) = Some out"
    and "foldl add_package ([], None) (gl_packages out) = (modules, None)" and "cs = go # new"
    and "noticeFiles lib (bl_goroot lib) = Inr (nc_files go)" and "map nc_name new = sort (map fst modules)"
    and "\<forall>c \<in> set new. noticeFiles lib (the (map_of modules (nc_name c))) = Inr (nc_files c)"
proof -
  let ?go = "\<lambda>files. \<lparr>nc_name = ''Go runtime and standard library '' @ bl_version lib, nc_files = files\<rparr>"
  obtain files out modules where out: "bl_go_list lib (environmentWith (bl_environ lib) go_overrides) = Some out"
    and ps: "foldl add_package ([], None) (gl_packages out) = (modules, None)"
    and files: "noticeFiles lib (bl_goroot lib) = Inr files"
    and fold: "fold_res (add_component lib modules) (sort (map fst modules)) [?go files] = Inr cs"
    using assms unfolding productionComponents_def Let_def
    by (auto split: option.splits prod.splits)
  from add_components [OF fold] obtain new where "cs = ?go files # new" "map nc_name new = sort (map fst modules)"
    "\<forall>c \<in> set new. noticeFiles lib (the (map_of modules (nc_name c))) = Inr (nc_files c)" by auto
  with out ps files show thesis using that [of out modules "?go files" new] by simp
qed

lemma read_notices:
  "fold_res (read_notice lib dir) names files = Inr files' \<Longrightarrow>
   \<exists>new. files' = files @ new \<and> map nf_name new = names
     \<and> (\<forall>f \<in> set new. \<exists>content. bl_read_file lib dir (nf_name f) = Some content \<and> nf_content f = notice_text content)"
proof (induction names arbitrary: files)
  case (Cons name names)
  then obtain content where c: "bl_read_file lib dir name = Some content"
    and rest: "fold_res (read_notice lib dir) names (files @ [\<lparr>nf_name = name, nf_content = notice_text content\<rparr>]) = Inr files'"
    by (auto simp: loop_bodies)
  from Cons.IH [OF rest] c show ?case
    by (elim exE, rule_tac x = "\<lparr>nf_name = name, nf_content = notice_text content\<rparr> # new" in exI) auto
qed simp

lemma noticeFiles_Inr:
  assumes "noticeFiles lib dir = Inr files"
  obtains dir_entries where "bl_read_dir lib dir = Some dir_entries" "files \<noteq> []"
    "set (map nf_name files) = {name. (name, True) \<in> set dir_entries \<and> isNoticeName name}"
    "\<forall>f \<in> set files. \<exists>content. bl_read_file lib dir (nf_name f) = Some content \<and> nf_content f = notice_text content"
proof -
  let ?select = "\<lambda>es. sort (map fst (filter (\<lambda>(name, regular). regular \<and> isNoticeName name) es))"
  obtain dir_entries where d: "bl_read_dir lib dir = Some dir_entries"
    and names: "?select dir_entries \<noteq> []"
    and fold: "fold_res (read_notice lib dir) (?select dir_entries) [] = Inr files"
    using assms by (auto simp: noticeFiles_def Let_def split: option.splits if_splits)
  from read_notices [OF fold] have "map nf_name files = ?select dir_entries"
    and f: "\<forall>f \<in> set files. \<exists>content. bl_read_file lib dir (nf_name f) = Some content \<and> nf_content f = notice_text content"
    by auto
  then have "set (map nf_name files) = set (?select dir_entries)" "files \<noteq> []" using names by auto
  moreover have "set (?select dir_entries) = {name. (name, True) \<in> set dir_entries \<and> isNoticeName name}" by force
  ultimately show thesis using that [OF d _ _ f] by simp
qed

section \<open>What the bundle holds\<close>

lemma sort_distinct: "distinct xs \<Longrightarrow> sort xs = sorted_list_of_set (set xs)"
  by (simp add: sorted_list_of_set_sort_remdups distinct_remdups_id)

text \<open>The modules depend on the packages as a set only, when a name has one directory.\<close>

lemma modules_reproducible:
  assumes "foldl add_package ([], None) ps = (modules, None)" and "foldl add_package ([], None) ps' = (modules', None)"
    and "set ps' = set ps" and "\<And>name d d'. resolved_to (set ps) name d \<Longrightarrow> resolved_to (set ps) name d' \<Longrightarrow> d = d'"
  shows "sort (map fst modules') = sort (map fst modules)" and "map_of modules' = map_of modules"
proof -
  note f = add_packages [OF assms(1)] and f' = add_packages [OF assms(2)]
  show "sort (map fst modules') = sort (map fst modules)"
    using f f' assms(3) by (simp add: sort_distinct)
  show "map_of modules' = map_of modules"
  proof
    fix name
    have "map_of modules' name = None \<longleftrightarrow> map_of modules name = None"
      using f f' assms(3) by (simp add: map_of_eq_None_iff)
    moreover have "d = d'" if "map_of modules' name = Some d" "map_of modules name = Some d'" for d d'
    proof -
      have "resolved_to (set ps) name d" using f' that(1) assms(3) by auto
      moreover have "resolved_to (set ps) name d'" using f that(2) by auto
      ultimately show ?thesis by (rule assms(4))
    qed
    ultimately show "map_of modules' name = map_of modules name" by (metis option.exhaust)
  qed
qed

lemma add_packages_ok:
  "\<forall>p \<in> set ps. \<forall>m. third_party p = Some m \<longrightarrow> (\<exists>x. resolve_module m = Inr x) \<Longrightarrow>
   \<exists>modules'. foldl add_package (modules, None) ps = (modules', None)"
proof (induction ps arbitrary: modules)
  case (Cons p ps)
  have "\<exists>modules1. add_package (modules, None) p = (modules1, None)"
    using Cons.prems by (cases "third_party p") (auto simp: add_package_def)
  then show ?case using Cons by auto
qed simp

lemma sublist_concat: "x \<in> set xs \<Longrightarrow> sublist (f x) (concat (map f xs))"
  by (auto dest!: split_list simp: sublist_append)

lemma file_in_bundle:
  assumes "generate lib = Inr output" and "productionComponents lib = Inr cs" and "c \<in> set cs" and "f \<in> set (nc_files c)"
  shows "Contains output (file_section f)"
proof -
  have "sublist (file_section f) (concat (map file_section (nc_files c)))" by (rule sublist_concat) (rule assms(4))
  also have "sublist \<dots> (component_section c)" by (simp add: component_section_def suffix_imp_sublist suffix_def)
  also have "sublist \<dots> (concat (map component_section cs))" by (rule sublist_concat) (rule assms(3))
  also have "sublist \<dots> output" using assms(1,2) by (auto simp: generate_def sublist_append)
  finally show ?thesis by (simp add: Contains_def)
qed

text \<open>
  Third-party notices. The bundle has one component for the Go toolchain and, in order and without
  repetition, one for each module that \<open>go list\<close> names outside of the project, all of them pinned to a version;
  every component has at least one file, and all its files are notice files whose texts are in the bundle.
\<close>

theorem notices_complete:
  assumes "generate lib = Inr output"
  shows "\<exists>out go new. bl_go_list lib (environmentWith (bl_environ lib) go_overrides) = Some out
    \<and> productionComponents lib = Inr (go # new) \<and> noticeFiles lib (bl_goroot lib) = Inr (nc_files go)
    \<and> (\<forall>p \<in> set (gl_packages out). \<forall>m. third_party p = Some m \<longrightarrow> md_version m \<noteq> [] \<and>
         (\<exists>name dir. resolve_module m = Inr (name, dir) \<and> (\<exists>c \<in> set new. nc_name c = name)))
    \<and> (\<forall>c \<in> set new. \<exists>dir. resolved_to (set (gl_packages out)) (nc_name c) dir \<and> noticeFiles lib dir = Inr (nc_files c))
    \<and> sorted (map nc_name new) \<and> distinct (map nc_name new)
    \<and> (\<forall>c \<in> set (go # new). nc_files c \<noteq> [] \<and> (\<forall>f \<in> set (nc_files c). isNoticeName (nf_name f) \<and> Contains output (file_section f)))"
proof -
  obtain cs where cs: "productionComponents lib = Inr cs" using assms by (auto simp: generate_def)
  obtain out go modules new where out: "bl_go_list lib (environmentWith (bl_environ lib) go_overrides) = Some out"
    and fold: "foldl add_package ([], None) (gl_packages out) = (modules, None)" and go: "cs = go # new"
    and std: "noticeFiles lib (bl_goroot lib) = Inr (nc_files go)" and names: "map nc_name new = sort (map fst modules)"
    and files: "\<forall>c \<in> set new. noticeFiles lib (the (map_of modules (nc_name c))) = Inr (nc_files c)"
    by (rule productionComponents_Inr [OF cs])
  note mods = add_packages [OF fold]
  have named: "set (map nc_name new) = {name. \<exists>dir. resolved_to (set (gl_packages out)) name dir}"
    unfolding names using mods by simp
  have pinned: "md_version m \<noteq> [] \<and> (\<exists>name dir. resolve_module m = Inr (name, dir) \<and> (\<exists>c \<in> set new. nc_name c = name))"
    if p: "p \<in> set (gl_packages out)" "third_party p = Some m" for p m
  proof -
    obtain name dir where r: "resolve_module m = Inr (name, dir)" using mods p by fastforce
    then have "name \<in> set (map nc_name new)" using p unfolding named resolved_to_def by blast
    moreover have "md_version m \<noteq> []" using r by (auto simp: resolve_module_def Let_def split: option.splits)
    ultimately show ?thesis using r by auto
  qed
  have own: "\<exists>dir. resolved_to (set (gl_packages out)) (nc_name c) dir \<and> noticeFiles lib dir = Inr (nc_files c)" if c: "c \<in> set new" for c
  proof -
    have "nc_name c \<in> fst ` set modules" using c names by (metis image_eqI set_map set_sort)
    then obtain dir where dir: "map_of modules (nc_name c) = Some dir"
      using map_of_eq_None_iff [of modules "nc_name c"] by (cases "map_of modules (nc_name c)") auto
    then have "resolved_to (set (gl_packages out)) (nc_name c) dir" using mods by auto
    then show ?thesis using files [rule_format, OF c] unfolding dir option.sel by blast
  qed
  have kept: "nc_files c \<noteq> [] \<and> (\<forall>f \<in> set (nc_files c). isNoticeName (nf_name f) \<and> Contains output (file_section f))"
    if c: "c \<in> set (go # new)" for c
  proof -
    obtain dir where "noticeFiles lib dir = Inr (nc_files c)" using c std own by auto
    then obtain es where "nc_files c \<noteq> []" "set (map nf_name (nc_files c)) = {name. (name, True) \<in> set es \<and> isNoticeName name}"
      by (rule noticeFiles_Inr)
    then have "nc_files c \<noteq> []" "\<forall>f \<in> set (nc_files c). isNoticeName (nf_name f)" by auto
    then show ?thesis using file_in_bundle [OF assms cs] c go by blast
  qed
  have "sorted (map nc_name new)" "distinct (map nc_name new)" unfolding names using mods by simp_all
  then show ?thesis using out cs go std pinned own kept by (intro exI [of _ out] exI [of _ go] exI [of _ new]) simp
qed

text \<open>The order in which \<open>go list\<close> prints the packages does not matter.\<close>

lemma generate_reproducible:
  assumes "generate lib = Inr output" and "\<And>env. bl_go_list lib env = Some out"
    and "set (gl_packages out') = set (gl_packages out)" and "gl_decodes out'" and "gl_succeeds out'"
    and "\<And>name d d'. resolved_to (set (gl_packages out)) name d \<Longrightarrow> resolved_to (set (gl_packages out)) name d' \<Longrightarrow> d = d'"
  shows "generate (lib\<lparr>bl_go_list := (\<lambda>_. Some out')\<rparr>) = Inr output"
proof -
  obtain cs where cs: "productionComponents lib = Inr cs" using assms(1) by (auto simp: generate_def)
  obtain modules new where fold: "foldl add_package ([], None) (gl_packages out) = (modules, None)"
    using productionComponents_Inr [OF cs] assms(2) by (metis option.inject)
  obtain modules' where fold': "foldl add_package ([], None) (gl_packages out') = (modules', None)"
    using add_packages_ok [of "gl_packages out'" "[]"] add_packages [OF fold] assms(3) by auto
  note same = modules_reproducible [OF fold fold' assms(3,6)]
  have nf: "noticeFiles (lib\<lparr>bl_go_list := g\<rparr>) = noticeFiles lib" for g
  proof
    have same: "read_notice (lib\<lparr>bl_go_list := g\<rparr>) = read_notice lib" by (intro ext) (simp add: read_notice_def)
    show "noticeFiles (lib\<lparr>bl_go_list := g\<rparr>) d = noticeFiles lib d" for d
      unfolding noticeFiles_def same by simp
  qed
  have "add_component (lib\<lparr>bl_go_list := g\<rparr>) modules' = add_component lib modules" for g
    by (intro ext) (simp add: add_component_def nf same(2))
  then have "productionComponents (lib\<lparr>bl_go_list := (\<lambda>_. Some out')\<rparr>) = Inr cs"
    using cs fold fold' same(1) assms(2,4,5) by (auto simp: productionComponents_def nf bind_res_def split: sum.splits if_splits)
  then show ?thesis using assms(1) cs by (simp add: generate_def)
qed

text \<open>A project with one dependency, on a machine where \<open>go list\<close> also names the project and a standard package.\<close>

definition ex_build :: build_lib where
  "ex_build = \<lparr>bl_goroot = ''go'', bl_version = ''1'', bl_environ = [''GOOS=windows'', ''HOME=h''],
     bl_read_dir = (\<lambda>d. Some [(''LICENSE'', True), (''main.go'', True)]), bl_read_file = (\<lambda>d n. Some (''text'' @ [CR, LF])),
     bl_go_list = (\<lambda>env. Some \<lparr>gl_packages = [\<lparr>lp_standard = True, lp_module = None\<rparr>,
         \<lparr>lp_standard = False, lp_module = Some (Module ''b'' ''v1'' ''d'' False None)\<rparr>,
         \<lparr>lp_standard = False, lp_module = Some (Module ''a'' [] ''x'' True None)\<rparr>],
       gl_decodes = True, gl_succeeds = True\<rparr>)\<rparr>"

lemma ex_build_components:
  "map_sum id (map (\<lambda>c. (nc_name c, map (\<lambda>f. (nf_name f, nf_content f)) (nc_files c)))) (productionComponents ex_build)
   = Inr [(''Go runtime and standard library 1'', [(''LICENSE'', ''text'')]), (''b v1'', [(''LICENSE'', ''text'')])]"
  by code_simp

theorem notices_complete_witness:
  "\<exists>output go c. generate ex_build = Inr output \<and> productionComponents ex_build = Inr [go, c]
     \<and> (\<forall>f \<in> set (nc_files go) \<union> set (nc_files c). Contains output (file_section f))"
proof -
  obtain cs where cs: "productionComponents ex_build = Inr cs" "length cs = 2"
    using ex_build_components by (cases "productionComponents ex_build") auto
  then obtain "output" where b: "generate ex_build = Inr output" by (simp add: generate_def)
  from notices_complete [OF b] cs b show ?thesis by (auto simp: length_Suc_conv)
qed

end
