(* ===== verification/WebAssets.thy ===== *)
theory WebAssets
  imports GoText
begin

text \<open>
  The front end that is compiled into the server (\<open>web/embed.go\<close>). Of the standard library the handler uses
  \<open>path.Clean\<close>, \<open>fs.Stat\<close> on the embedded files and \<open>http.FileServer\<close>, which are written out here; what the
  files say is a parameter. A range or a precondition in the request, which \<open>FileServer\<close> answers with a part
  of the file, is left out.
\<close>

section \<open>Paths\<close>

fun split_at :: "char \<Rightarrow> string \<Rightarrow> string \<Rightarrow> string list" where
  "split_at c w [] = [w]"
| "split_at c w (x # s) = (if x = c then w # split_at c [] s else split_at c (w @ [x]) s)"

text \<open>The elements that \<open>path.Clean\<close> keeps, the last one first in \<open>out\<close>.\<close>

fun clean_elements :: "bool \<Rightarrow> string list \<Rightarrow> string list \<Rightarrow> string list" where
  "clean_elements rooted out [] = rev out"
| "clean_elements rooted out (e # es) =
    (if e = [] \<or> e = ''.'' then clean_elements rooted out es
     else if e = ''..'' then
       (if out \<noteq> [] \<and> hd out \<noteq> ''..'' then clean_elements rooted (tl out) es
        else if rooted then clean_elements rooted out es
        else clean_elements rooted (''..'' # out) es)
     else clean_elements rooted (e # out) es)"

definition Clean :: "string \<Rightarrow> string" where
  "Clean p = (if p = [] then ''.''
     else if hd p = CHR ''/'' then CHR ''/'' # Join (clean_elements True [] (split_at (CHR ''/'') [] (tl p))) ''/''
     else let s = Join (clean_elements False [] (split_at (CHR ''/'') [] p)) ''/'' in if s = [] then ''.'' else s)"

definition trim_slashes :: "string \<Rightarrow> string" where
  "trim_slashes p = rev (dropWhile (\<lambda>c. c = CHR ''/'') (rev p))"

definition Base :: "string \<Rightarrow> string" where
  "Base p = (if p = [] then ''.'' else let s = trim_slashes p in
     if s = [] then ''/'' else after_last s (CHR ''/''))"

definition TrimPrefix :: "string \<Rightarrow> string \<Rightarrow> string" where
  "TrimPrefix s pre = (if prefix pre s then drop (length pre) s else s)"

section \<open>The embedded files\<close>

text \<open>The names that \<open>go:embed\<close> lists; the only directory below the root is \<open>assets\<close>.\<close>

definition content :: "string list" where
  "content = [''index.html'', ''app.css'', ''app.js'', ''assets/private-post-office.png'']"

definition is_directory :: "string \<Rightarrow> bool" where
  "is_directory name \<longleftrightarrow> name = ''.'' \<or> list_ex (\<lambda>f. prefix (name @ ''/'') f) content"

definition Stat :: "string \<Rightarrow> bool" where
  "Stat name \<longleftrightarrow> name \<in> set content \<or> is_directory name"

section \<open>The file server\<close>

datatype file_response =
    ServeFile (served_name: string) (served_text: string)
  | Listing string
  | LocalRedirect string
  | FileNotFound
  | TraversalError

definition redirect_to :: "string \<Rightarrow> string \<Rightarrow> file_response" where
  "redirect_to target query = LocalRedirect (if query = [] then target else target @ ''?'' @ query)"

definition FileServer :: "(string \<Rightarrow> string) \<Rightarrow> string \<Rightarrow> string \<Rightarrow> file_response" where
  "FileServer file urlPath query =
    (let url = (if prefix ''/'' urlPath then urlPath else CHR ''/'' # urlPath);
         name = (if Clean url = ''/'' then ''.'' else TrimPrefix (Clean url) ''/'');
         slash = suffix ''/'' url;
         index = (if name = ''.'' then ''index.html'' else name @ ''/index.html'') in
     if suffix ''/index.html'' url then redirect_to ''./'' query
     else if \<not> Stat name then FileNotFound
     else if is_directory name then
       (if \<not> slash then redirect_to (Base url @ ''/'') query
        else if index \<in> set content then ServeFile index (file index)
        else Listing name)
     else if slash then
       (if Base url \<in> {''/'', ''.''} then TraversalError else redirect_to (''../'' @ Base url) query)
     else ServeFile name (file name))"

section \<open>The handler\<close>

definition requested :: "string \<Rightarrow> string" where
  "requested urlPath = (let name = TrimPrefix (Clean urlPath) ''/'' in if name \<in> {''.'', []} then ''index.html'' else name)"

text \<open>The value of Cache-Control, and the answer.\<close>

definition Handler :: "(string \<Rightarrow> string) \<Rightarrow> string \<Rightarrow> string \<Rightarrow> string \<times> file_response" where
  "Handler file urlPath query =
    (let name = requested urlPath in
     if \<not> Stat name then (''no-cache'', FileServer file ''/index.html'' query)
     else (if prefix ''assets/'' name then ''public, max-age=86400'' else ''no-cache'', FileServer file urlPath query))"

section \<open>What it serves\<close>

lemma is_directory_iff: "is_directory name \<longleftrightarrow> name = ''.'' \<or> name = ''assets''"
  by (simp add: is_directory_def content_def in_set_prefixes [symmetric] snoc_eq_iff_butlast del: in_set_prefixes) auto

lemma Handler_unknown: "\<not> Stat (requested p) \<Longrightarrow> Handler file p query = (''no-cache'', redirect_to ''./'' query)"
  by (simp add: Handler_def FileServer_def Let_def)

text \<open>
  The embedded files. Whatever the path, a file is served only under its own name and as it was
  compiled in, and it is cacheable for others only below \<open>assets\<close>; a path that names nothing is
  answered by a redirect and never by "not found".
\<close>

theorem assets_exact:
  "case Handler file (CHR ''/'' # p) query of (cache, r) \<Rightarrow>
     r \<noteq> FileNotFound
     \<and> (is_ServeFile r \<longrightarrow> served_name r = requested (CHR ''/'' # p) \<and> served_name r \<in> set content \<and> served_text r = file (served_name r))
     \<and> (cache = ''no-cache'' \<or> requested (CHR ''/'' # p) = ''assets/private-post-office.png'')
     \<and> (Stat (requested (CHR ''/'' # p)) \<or> r = redirect_to ''./'' query)"
proof (cases "Stat (requested (CHR ''/'' # p))")
  case False
  then show ?thesis by (simp add: Handler_unknown redirect_to_def)
next
  case True
  define n where "n = TrimPrefix (Clean (CHR ''/'' # p)) ''/''"
  have root: "Clean (CHR ''/'' # p) = ''/'' \<longleftrightarrow> n = []"
    by (simp add: n_def Clean_def TrimPrefix_def)
  have req: "requested (CHR ''/'' # p) = (if n \<in> {''.'', []} then ''index.html'' else n)"
    by (simp add: requested_def n_def Let_def)
  note defs = Handler_def FileServer_def Let_def redirect_to_def root n_def [symmetric] req
  show ?thesis
  proof (cases "n \<in> {''.'', []}")
    case True
    then show ?thesis by (auto simp: defs is_directory_iff Stat_def content_def)
  next
    case False
    then have "n \<in> set content \<or> n = ''assets''"
      using True unfolding req by (simp add: Stat_def is_directory_iff)
    then consider "n = ''assets''" | "n \<in> set content" "n \<noteq> ''assets''" by blast
    then show ?thesis
    proof cases
      case 1
      then show ?thesis by (simp add: defs is_directory_iff Stat_def content_def)
    next
      case 2
      then have "prefix ''assets/'' n \<Longrightarrow> n = ''assets/private-post-office.png''" by (auto simp: content_def)
      with 2 False show ?thesis by (auto simp: defs is_directory_iff Stat_def)
    qed
  qed
qed

text \<open>A path of the client with two elements is sent from one directory to itself for ever.\<close>

lemma fallback_redirects: "Handler file ''/mail/inbox'' [] = (''no-cache'', LocalRedirect ''./'')"
  "Handler file ''/mail/'' [] = (''no-cache'', LocalRedirect ''./'')"
  by code_simp+

end
