(* ===== verification/MailServer.thy ===== *)
theory MailServer
  imports HttpProperties WebLogin SmtpProperties ImapProperties QueueProperties SchemaTypes Program
begin

text \<open>
  The whole server: what \<open>serve\<close> of \<open>cmd/brclio-mail/main.go\<close> runs side by side. The web interface, every
  SMTP session, every IMAP session, the queue worker and the hourly deletion of sessions share one database;
  the web interface, SMTP and IMAP have a login limiter each, and IMAP its guard. An event is one request,
  one command, one statement of the worker or one start of the process; they come in any order. The theorems
  carry the properties of the components over to the server and state what only the composition gives.
\<close>

section \<open>State and events\<close>

record server_setup =
  su_web :: http_server
  su_net :: netlib
  su_smtp_lib :: smtp_lib
  su_smtp_max :: int
  su_backend :: store_backend
  su_guard :: guard_options
  su_worker :: worker_options
  su_verify :: "string \<Rightarrow> string \<Rightarrow> bool"
  su_hash :: "string \<Rightarrow> string"

text \<open>Sessions are known by the number of their connection.\<close>

record server_state =
  mv_worker :: worker_world
  mv_web :: login_limiter
  mv_smtp_limiter :: limiter
  mv_imap_limiter :: limiter
  mv_guard :: guard_sys
  mv_smtp :: "nat \<rightharpoonup> smtp_session"
  mv_imap :: "nat \<rightharpoonup> imap_user"

abbreviation mv_db :: "server_state \<Rightarrow> db" where "mv_db s \<equiv> ww_db (mv_worker s)"

definition set_db :: "db \<Rightarrow> server_state \<Rightarrow> server_state" where
  "set_db d s = s\<lparr>mv_worker := (mv_worker s)\<lparr>ww_db := d\<rparr>\<rparr>"

datatype client_event =
    WebRequest http_env http_request
  | SmtpConnect nat smtp_mode string "string option"
  | SmtpCommand nat smtp_event
  | SmtpClose nat
  | ImapConnection guard_event
  | ImapLogin nat env time net_addr net_addr string string
  | ImapCommand nat imap_mailbox imap_cmd
  | ImapLogout nat
  | CleanSessions env

text \<open>\<open>EStore\<close> is no command of a client; the other components are events of their own here.\<close>

fun smtp_wire :: "smtp_event \<Rightarrow> bool" where
  "smtp_wire (EStore c) = False"
| "smtp_wire e = True"

text \<open>Nor is authentication an event of a guarded connection: it comes with a login.\<close>

fun guard_wire :: "guard_event \<Rightarrow> bool" where
  "guard_wire (GAuthenticate remote loc) = False"
| "guard_wire e = True"

text \<open>One tick of \<open>cleanExpiredSessions\<close>; that the statement may fail is a tick that does not come.\<close>

definition cleanExpiredSessions :: "env \<Rightarrow> server_state \<Rightarrow> server_state" where
  "cleanExpiredSessions env s = set_db (DeleteExpiredSessions env (mv_db s)) s"

fun client_step :: "server_setup \<Rightarrow> server_state \<Rightarrow> client_event \<Rightarrow> server_state" where
  "client_step su s (WebRequest he r) =
     (let w = fst (serve (su_web su) he r \<lparr>hw_db = mv_db s, hw_limiter = mv_web s\<rparr>)
      in set_db (hw_db w) (s\<lparr>mv_web := hw_limiter w\<rparr>))"
| "client_step su s (SmtpConnect i m ep remote) =
     s\<lparr>mv_smtp := (mv_smtp s)(i \<mapsto> NewSession (su_net su) m (su_smtp_max su) ep remote)\<rparr>"
| "client_step su s (SmtpCommand i e) =
     (case mv_smtp s i of
        None \<Rightarrow> s
      | Some t \<Rightarrow>
          if \<not> smtp_wire e then s
          else (let w = smtp_step (su_net su) (su_smtp_lib su) \<lparr>w_db = mv_db s, w_limiter = mv_smtp_limiter s, w_session = t\<rparr> e
                in set_db (w_db w) (s\<lparr>mv_smtp_limiter := w_limiter w, mv_smtp := (mv_smtp s)(i \<mapsto> w_session w)\<rparr>)))"
| "client_step su s (SmtpClose i) = s\<lparr>mv_smtp := (mv_smtp s)(i := None)\<rparr>"
| "client_step su s (ImapConnection e) =
     (if guard_wire e then s\<lparr>mv_guard := guard_step (su_net su) (mv_guard s) e\<rparr> else s)"
| "client_step su s (ImapLogin i env now remote loc username password) =
     (case Login (su_net su) (su_verify su) (su_hash su) env now (Some (remote, loc)) username password
         (mv_imap_limiter s, mv_db s, Some (mv_guard s)) of
        ((lim, d, guard), r) \<Rightarrow>
          set_db d (s\<lparr>mv_imap_limiter := lim, mv_guard := (case guard of None \<Rightarrow> mv_guard s | Some g \<Rightarrow> g),
            mv_imap := (case r of Inl e \<Rightarrow> mv_imap s | Inr u \<Rightarrow> (mv_imap s)(i \<mapsto> u))\<rparr>))"
| "client_step su s (ImapCommand i m c) =
     (case mv_imap s i of
        None \<Rightarrow> s
      | Some u \<Rightarrow> set_db (fst (imap_exec (su_backend su) u m (mv_db s) c)) s)"
| "client_step su s (ImapLogout i) = s\<lparr>mv_imap := (mv_imap s)(i := None)\<rparr>"
| "client_step su s (CleanSessions env) = cleanExpiredSessions env s"

text \<open>The end of the process, however it comes, and the next start: only the database is kept.\<close>

definition restarted :: "server_setup \<Rightarrow> program_lib \<Rightarrow> server_state \<Rightarrow> server_state" where
  "restarted su lib s =
     (let w = mv_worker s
      in \<lparr>mv_worker = w\<lparr>ww_db := fst (prepare lib (hs_config (su_web su)) (ww_db w)), ww_pc := Idle,
            ww_lost := ww_lost w @ map q_id (held (ww_pc w))\<rparr>,
          mv_web = fmempty, mv_smtp_limiter = NewDefault, mv_imap_limiter = NewDefault,
          mv_guard = guard_start (su_guard su), mv_smtp = Map.empty, mv_imap = Map.empty\<rparr>)"

datatype server_event = Client client_event | Working | Restart program_lib

text \<open>A step of the worker's own moves it; what it does is \<open>worker_step\<close>.\<close>

inductive server_step :: "server_setup \<Rightarrow> server_event \<Rightarrow> server_state \<Rightarrow> server_state \<Rightarrow> bool" for su where
  client: "server_step su (Client e) s (client_step su s e)"
| working: "worker_step (su_worker su) (mv_worker s) w \<Longrightarrow> ww_pc w \<noteq> ww_pc (mv_worker s) \<Longrightarrow>
    server_step su Working s (s\<lparr>mv_worker := w\<rparr>)"
| restart: "server_step su (Restart lib) s (restarted su lib s)"

inductive_cases clientE: "server_step su (Client e) s s'"
inductive_cases workingE: "server_step su Working s s'"
inductive_cases restartE: "server_step su (Restart lib) s s'"

text \<open>
  The process begins on the database of any installation whose queued mail has not been tried, the empty one
  included.
\<close>

definition server_start :: "server_setup \<Rightarrow> db \<Rightarrow> server_state" where
  "server_start su db = \<lparr>mv_worker = worker_start db, mv_web = fmempty, mv_smtp_limiter = NewDefault,
     mv_imap_limiter = NewDefault, mv_guard = guard_start (su_guard su), mv_smtp = Map.empty, mv_imap = Map.empty\<rparr>"

inductive server_run :: "server_setup \<Rightarrow> server_event list \<Rightarrow> server_state \<Rightarrow> bool" for su where
  start: "fresh_queue (store_run cs) \<Longrightarrow> server_run su [] (server_start su (store_run cs))"
| event: "server_run su es s \<Longrightarrow> server_step su e s s' \<Longrightarrow> server_run su (es @ [e]) s'"

section \<open>One event on the database\<close>

lemma set_db_simps [simp]:
  "mv_db (set_db d s) = d" "mv_worker (set_db d s) = (mv_worker s)\<lparr>ww_db := d\<rparr>" "mv_web (set_db d s) = mv_web s"
  "mv_smtp_limiter (set_db d s) = mv_smtp_limiter s" "mv_imap_limiter (set_db d s) = mv_imap_limiter s"
  "mv_guard (set_db d s) = mv_guard s" "mv_smtp (set_db d s) = mv_smtp s" "mv_imap (set_db d s) = mv_imap s"
  by (simp_all add: set_db_def)

text \<open>What puts mail for other servers into the queue: a composed message, or DATA on the submission port.\<close>

fun queueing :: "server_state \<Rightarrow> client_event \<Rightarrow> bool" where
  "queueing s (WebRequest he r) = (HttpServer.route (rq_method r) (rq_path r) = ComposePage)"
| "queueing s (SmtpCommand i (EData cfg sql statfs env rd)) = (\<exists>t. mv_smtp s i = Some t \<and> ts_mode t = Submission)"
| "queueing s e = False"

lemma own_quiet: "own_cmd uid c \<Longrightarrow> quiet_cmd c"
  by (cases c) simp_all

lemma imap_evolves: "evolves out db (fst (imap_exec b u m db c))"
proof -
  obtain cs where cs: "fst (imap_exec b u m db c) = foldl mail_step db cs" "list_all (own_cmd (iu_id u)) cs"
    using imap_exec_run by blast
  have "foldl mail_step db cs = foldl store_step db (map Mail cs)" by (simp add: foldl_map)
  moreover have "list_all (client_cmd out) (map Mail cs)"
    using cs(2) by (auto simp: list_all_iff client_cmd_def dest: own_quiet quiet_not_worker)
  ultimately show ?thesis unfolding evolves_def cs(1) by blast
qed

lemma Auth_plain_evolves: "Auth_plain nl verify th env now ident name pw t lim db = (t', lim', db', e) \<Longrightarrow> evolves out db db'"
  using evolves_sessions(2) [of out db verify th env "NormalizeAccount name" pw True]
  by (auto simp: Auth_plain_def Let_def split: prod.splits bool.splits sum.splits if_splits)

lemma Login_evolves: "Login nl verify th env now con name pw (lim, db, g) = ((lim', db', g'), r) \<Longrightarrow> evolves out db db'"
  using evolves_sessions(2) [of out db verify th env "NormalizeAccount name" pw True]
  by (auto simp: Login_def Let_def split: prod.splits bool.splits sum.splits)

lemma Data_evolves:
  assumes "session_inv (ts_mode t) t" and "Data cfg sql statfs lib env t rd db = (t', db', e)"
  shows "evolves (ts_mode t = Submission) db db'"
proof (rule Data_cases [of cfg sql statfs lib env t rd db])
  fix e assume "Data cfg sql statfs lib env t rd db = (fst (gate db t), db, Some e)"
  then show ?thesis using assms by simp
next
  fix m0 atts m db1
  assume D: "Data cfg sql statfs lib env t rd db = (fst (gate db t), db1, None)"
    and save: "saveMessage cfg sql statfs env m0 atts (fst (plan (fst (gate db t)))) (snd (plan (fst (gate db t)))) None
      (Some (data_event lib (fst (gate db t)))) db = Inr (db1, m)"
  have "snd (plan (fst (gate db t))) = []" if "ts_mode t \<noteq> Submission"
  proof -
    from that have "ts_mode t = Inbound" by (cases "ts_mode t") auto
    then show ?thesis using assms(1) by (auto simp: gate_def plan_eq session_inv_def filter_empty_conv)
  qed
  then show ?thesis using evolves_ops(1) [OF save] D assms(2) by auto
qed

lemma smtp_evolves:
  assumes "session_inv (ts_mode (w_session w)) (w_session w)" and "smtp_wire e"
  shows "evolves (ts_mode (w_session w) = Submission \<and> (\<exists>cfg sql statfs env rd. e = EData cfg sql statfs env rd))
    (w_db w) (w_db (smtp_step nl lib w e))"
proof (cases e)
  case (EAuth verify th env now ident name pw)
  then show ?thesis by (auto split: prod.splits intro: Auth_plain_evolves)
next
  case (EData cfg sql statfs env rd)
  then show ?thesis using Data_evolves [OF assms(1)] by (auto split: prod.splits)
qed (use assms(2) in simp_all)

lemma prepare_evolves: "evolves out db (fst (prepare lib cfg db))"
proof -
  have clean: "evolves out db (DeleteExpiredSessions env db)" for env
    by (rule evolves_step [where c = "ADeleteExpired env"]) (simp_all add: client_cmd_def)
  have boot: "evolves out d d'" if "Bootstrap svc env token d = Inr d'" for svc env token d d'
    using that by (auto simp: Bootstrap_def split: if_splits list.splits elim!: service_evolves(4))
  show ?thesis
    by (auto simp: prepare_def Let_def intro: clean evolves_trans [OF clean boot] split: sum.splits)
qed

section \<open>The SMTP sessions\<close>

definition sessions_ok :: "server_state \<Rightarrow> bool" where
  "sessions_ok s \<longleftrightarrow> (\<forall>i t. mv_smtp s i = Some t \<longrightarrow> session_inv (ts_mode t) t)"

lemma smtp_step_ok:
  assumes "session_inv (ts_mode (w_session w)) (w_session w)"
  shows "session_inv (ts_mode (w_session (smtp_step nl lib w e))) (w_session (smtp_step nl lib w e))"
proof -
  have inv: "session_inv (ts_mode (w_session w)) (w_session (smtp_step nl lib w e))"
    using assms by (rule smtp_machine.inv_step)
  then have "ts_mode (w_session (smtp_step nl lib w e)) = ts_mode (w_session w)" by (simp add: session_inv_def)
  with inv show ?thesis by simp
qed

lemma client_sessions:
  assumes "sessions_ok s"
  shows "sessions_ok (client_step su s e)"
proof (cases e)
  case (SmtpConnect i m ep remote)
  then show ?thesis using assms by (auto simp: sessions_ok_def NewSession_def session_inv_def)
next
  case (SmtpCommand i c)
  then show ?thesis using assms
    by (auto simp: sessions_ok_def Let_def smtp_step_ok split: option.split)
qed (use assms in \<open>auto simp: sessions_ok_def Let_def cleanExpiredSessions_def split: option.split prod.split\<close>)

section \<open>The database\<close>

lemma client_evolves:
  assumes "sessions_ok s"
  shows "evolves (queueing s e) (mv_db s) (mv_db (client_step su s e))"
proof (cases e)
  case (WebRequest he r)
  then show ?thesis
    using serve_evolves [of r "\<lparr>hw_db = mv_db s, hw_limiter = mv_web s\<rparr>" "su_web su" he] by (simp add: Let_def)
next
  case (SmtpCommand i c)
  show ?thesis
  proof (cases "mv_smtp s i")
    case (Some t)
    let ?w = "\<lparr>w_db = mv_db s, w_limiter = mv_smtp_limiter s, w_session = t\<rparr>"
    have "session_inv (ts_mode t) t" using assms Some by (simp add: sessions_ok_def)
    then have "smtp_wire c \<Longrightarrow> evolves (queueing s e) (mv_db s) (w_db (smtp_step (su_net su) (su_smtp_lib su) ?w c))"
      using smtp_evolves [of ?w c "su_net su" "su_smtp_lib su"] by (cases c) (auto simp: SmtpCommand Some)
    then show ?thesis by (simp add: SmtpCommand Some Let_def)
  qed (simp add: SmtpCommand)
next
  case (ImapLogin i env now remote loc username password)
  then show ?thesis by (auto split: prod.split intro: Login_evolves)
next
  case (ImapCommand i m c)
  then show ?thesis by (auto split: option.split intro: imap_evolves)
next
  case (CleanSessions env)
  then show ?thesis by (auto intro: evolves_step [where c = "ADeleteExpired env"] simp: client_cmd_def cleanExpiredSessions_def)
qed simp_all

text \<open>A step of the worker is one of its commands, and leaves the IDs in the queue as they are.\<close>

lemma worker_moves:
  assumes "worker_step opts w w'" and "ww_pc w' \<noteq> ww_pc w"
  shows "(\<exists>cs. ww_db w' = foldl store_step (ww_db w) cs) \<and> map q_id (queue (ww_db w')) = map q_id (queue (ww_db w))"
proof -
  have ids: "map q_id (queue (update_queue P f d)) = map q_id (queue d)" if "\<And>q. q_id (f q) = q_id q" for P f d
    using that by simp
  have step: ?thesis if "ww_db w' = store_step (ww_db w) c" "map q_id (queue (ww_db w')) = map q_id (queue (ww_db w))" for c
    using that by (auto intro: exI [of _ "[c]"])
  show ?thesis
    using assms
  proof (cases rule: worker_step.cases)
    case (recover env now)
    then show ?thesis
      by (intro step [where c = "Mail (CRecover env (now - 30 * minute))"])
        (simp_all add: RecoverStaleQueue_def Let_def comp_def)
  next
    case (skip item rest env db')
    then show ?thesis
      by (intro step [where c = "Mail (CClaim env (q_id item))"]) (auto simp: ClaimQueue_def Let_def comp_def)
  next
    case (claim item rest env db')
    then show ?thesis
      by (intro step [where c = "Mail (CClaim env (q_id item))"]) (auto simp: ClaimQueue_def Let_def comp_def)
  next
    case (claim_lost item rest env db')
    then show ?thesis
      by (intro step [where c = "Mail (CClaim env (q_id item))"]) (auto simp: ClaimQueue_def Let_def comp_def)
  next
    case (finish item r rest env)
    show ?thesis
    proof (cases r)
      case None
      then show ?thesis using finish
        by (intro step [where c = "Mail (CComplete env (q_id item))"])
          (auto simp: finish_item_def CompleteQueue_def Let_def comp_def)
    next
      case (Some x)
      then show ?thesis using finish
        by (intro step [where c = "Mail (CRetry env (q_id item) (q_attempts item) (wo_max_attempts opts) (safeError x))"])
          (auto simp: finish_item_def RetryQueue_def Let_def comp_def)
    qed
  next
    case (refresh item rest)
    then show ?thesis
      by (intro step [where c = "Mail (CRefresh (q_message_id item))"]) (auto simp: RefreshMessageTransportStatus_def)
  qed (auto intro: exI [of _ "[]"])
qed

section \<open>The server as a composition of its components\<close>

text \<open>Each component has gone through a history of its own.\<close>

definition simulated :: "server_setup \<Rightarrow> server_state \<Rightarrow> bool" where
  "simulated su s \<longleftrightarrow> (\<exists>cs. mv_db s = store_run cs) \<and> worker_reachable (su_worker su) (mv_worker s)
     \<and> (\<exists>ops. mv_smtp_limiter s = limiter_run (su_net su) NewDefault ops)
     \<and> (\<exists>ops. mv_imap_limiter s = limiter_run (su_net su) NewDefault ops)
     \<and> (\<exists>es. mv_guard s = foldl (guard_step (su_net su)) (guard_start (su_guard su)) es)
     \<and> sessions_ok s \<and> fcard (fmdom (mv_web s)) \<le> 10000"

lemma no_steps: "\<exists>xs. x = foldl f x xs"
  by (rule exI [of _ "[]"]) simp

lemma foldl_more: "\<exists>xs. a = foldl f z xs \<Longrightarrow> \<exists>ys. b = foldl f a ys \<Longrightarrow> \<exists>xs. b = foldl f z xs"
  by (metis foldl_append)

lemma reachable_evolves:
  assumes "evolves out (ww_db w) d" and "worker_reachable opts w"
  shows "worker_reachable opts (w\<lparr>ww_db := d\<rparr>)"
proof -
  obtain cs where cs: "list_all (client_cmd True) cs" "d = foldl store_step (ww_db w) cs"
    using evolves_mono [OF assms(1)] unfolding evolves_def by blast
  then show ?thesis
    using assms(2)
  proof (induction cs arbitrary: w)
    case (Cons c cs)
    have "worker_step opts w (w\<lparr>ww_db := store_step (ww_db w) c\<rparr>)"
      using Cons.prems(1) by (intro worker_step.other) (simp add: client_cmd_def)
    then have "worker_reachable opts (w\<lparr>ww_db := store_step (ww_db w) c\<rparr>)"
      using worker_reachable_step Cons.prems(3) by blast
    then show ?case using Cons.IH [of "w\<lparr>ww_db := store_step (ww_db w) c\<rparr>"] Cons.prems(1,2) by simp
  qed simp
qed

lemma limiter_steps:
  "\<exists>ops. lim = limiter_run nl lim ops"
  "\<exists>ops. fst (Allow nl now lim ip a) = limiter_run nl lim ops"
  "\<exists>ops. Failure nl now (fst (Allow nl now lim ip a)) ip a = limiter_run nl lim ops"
  "\<exists>ops. Success (fst (Allow nl now lim ip a)) a = limiter_run nl lim ops"
  by (rule exI [of _ "[]"], simp) (rule exI [of _ "[OpAllow now ip a]"], simp,
      rule exI [of _ "[OpAllow now ip a, OpFailure now ip a]"], simp,
      rule exI [of _ "[OpAllow now ip a, OpSuccess a]"], simp)

lemma Auth_plain_limiter:
  assumes "Auth_plain nl verify th env now ident name pw t lim db = (t', lim', db', e)"
  shows "\<exists>ops. lim' = limiter_run nl lim ops"
proof -
  let ?a = "NormalizeAccount name"
  obtain l ok where al: "Allow nl now lim (ts_remote_ip t) ?a = (l, ok)" by fastforce
  then have "lim' \<in> {l, Failure nl now l (ts_remote_ip t) ?a, Success l ?a}"
    using assms by (auto simp: Auth_plain_def Let_def split: bool.splits prod.splits sum.splits if_splits)
  then show ?thesis using limiter_steps(2-4) [of nl now lim "ts_remote_ip t" ?a] unfolding al by auto
qed

lemma Login_machines:
  assumes "Login nl verify th env now (Some (remote, loc)) name pw (lim, db, Some g) = ((lim', db', g'), r)"
  shows "(\<exists>ops. lim' = limiter_run nl lim ops) \<and> (\<exists>g1. g' = Some g1 \<and> (\<exists>es. g1 = foldl (guard_step nl) g es))"
proof -
  let ?a = "NormalizeAccount name" and ?ip = "RemoteIP nl (map_option snd remote)"
  obtain l ok where al: "Allow nl now lim ?ip ?a = (l, ok)" by fastforce
  then have "lim' \<in> {l, Failure nl now l ?ip ?a, Success l ?a}"
    and "g' = Some g \<or> g' = Some (guard_authenticate g remote loc)"
    using assms by (auto simp: Login_def Let_def split: bool.splits prod.splits sum.splits if_splits)
  moreover have "\<exists>es. guard_authenticate g remote loc = foldl (guard_step nl) g es"
    by (rule exI [of _ "[GAuthenticate remote loc]"]) simp
  ultimately show ?thesis using limiter_steps(2-4) [of nl now lim ?ip ?a] no_steps unfolding al by auto
qed

lemma client_limiters:
  "\<exists>ops. mv_smtp_limiter (client_step su s e) = limiter_run (su_net su) (mv_smtp_limiter s) ops"
  "\<exists>ops. mv_imap_limiter (client_step su s e) = limiter_run (su_net su) (mv_imap_limiter s) ops"
  "\<exists>es. mv_guard (client_step su s e) = foldl (guard_step (su_net su)) (mv_guard s) es"
  "fcard (fmdom (mv_web s)) \<le> 10000 \<Longrightarrow> fcard (fmdom (mv_web (client_step su s e))) \<le> 10000"
proof -
  show "\<exists>ops. mv_smtp_limiter (client_step su s e) = limiter_run (su_net su) (mv_smtp_limiter s) ops"
  proof (cases e)
    case (SmtpCommand i c)
    then show ?thesis
      by (cases c) (auto simp: Let_def no_steps split: option.split prod.split intro: Auth_plain_limiter)
  qed (auto simp: Let_def no_steps cleanExpiredSessions_def split: option.split prod.split)
  have login: "(\<exists>ops. mv_imap_limiter (client_step su s e) = limiter_run (su_net su) (mv_imap_limiter s) ops)
      \<and> (\<exists>es. mv_guard (client_step su s e) = foldl (guard_step (su_net su)) (mv_guard s) es)"
  proof (cases e)
    case (ImapLogin i env now remote loc username password)
    obtain lim d g r where L: "Login (su_net su) (su_verify su) (su_hash su) env now (Some (remote, loc)) username password
         (mv_imap_limiter s, mv_db s, Some (mv_guard s)) = ((lim, d, g), r)" by (metis prod.exhaust)
    then show ?thesis using Login_machines [OF L] by (auto simp: ImapLogin)
  next
    case (ImapConnection x)
    then show ?thesis by (cases "guard_wire x") (auto simp: no_steps intro: exI [of _ "[x]"])
  qed (auto simp: Let_def no_steps cleanExpiredSessions_def split: option.split prod.split)
  then show "\<exists>ops. mv_imap_limiter (client_step su s e) = limiter_run (su_net su) (mv_imap_limiter s) ops"
    "\<exists>es. mv_guard (client_step su s e) = foldl (guard_step (su_net su)) (mv_guard s) es" by blast+
  show "fcard (fmdom (mv_web (client_step su s e))) \<le> 10000" if "fcard (fmdom (mv_web s)) \<le> 10000"
    using that serve_limiter_size [of "\<lparr>hw_db = mv_db s, hw_limiter = mv_web s\<rparr>"]
    by (cases e) (auto simp: Let_def cleanExpiredSessions_def split: option.split prod.split)
qed

lemma evolved_store: "evolves out a b \<Longrightarrow> \<exists>cs. a = store_run cs \<Longrightarrow> \<exists>cs. b = store_run cs"
  unfolding store_run_def by (rule foldl_more, assumption, rule evolves_run)

lemma simulated_step:
  assumes "server_step su e s s'" and "simulated su s"
  shows "simulated su s'"
  using assms(1)
proof (cases rule: server_step.cases)
  case (client c)
  note sim = assms(2) [unfolded simulated_def]
  have ev: "evolves (queueing s c) (mv_db s) (mv_db s')" using client_evolves sim client(2) by blast
  have w: "mv_worker s' = (mv_worker s)\<lparr>ww_db := mv_db s'\<rparr>"
    unfolding client(2) by (cases c) (auto simp: Let_def cleanExpiredSessions_def split: option.split prod.split)
  show ?thesis
    unfolding simulated_def
  proof (intro conjI)
    show "\<exists>cs. mv_db s' = store_run cs" using evolved_store [OF ev] sim by blast
    show "worker_reachable (su_worker su) (mv_worker s')" by (subst w, rule reachable_evolves [OF ev]) (use sim in blast)
    show "\<exists>ops. mv_smtp_limiter s' = limiter_run (su_net su) NewDefault ops"
      "\<exists>ops. mv_imap_limiter s' = limiter_run (su_net su) NewDefault ops"
      "\<exists>es. mv_guard s' = foldl (guard_step (su_net su)) (guard_start (su_guard su)) es"
      unfolding client(2)
      by (rule foldl_more [OF _ client_limiters(1)], use sim in blast) (rule foldl_more [OF _ client_limiters(2)], use sim in blast,
        rule foldl_more [OF _ client_limiters(3)], use sim in blast)
    show "sessions_ok s'" "fcard (fmdom (mv_web s')) \<le> 10000"
      unfolding client(2) by (rule client_sessions, use sim in blast) (rule client_limiters(4), use sim in blast)
  qed
next
  case (working w)
  have "\<exists>cs. ww_db w = foldl store_step (mv_db s) cs" using worker_moves [OF working(3,4)] by blast
  then have "\<exists>cs. ww_db w = store_run cs"
    using foldl_more [of "mv_db s" store_step empty_db] assms(2) unfolding simulated_def store_run_def by blast
  moreover have "worker_reachable (su_worker su) w"
    using worker_reachable_step [OF _ working(3)] assms(2) unfolding simulated_def by blast
  ultimately show ?thesis
    using assms(2) by (simp add: simulated_def working(2) sessions_ok_def)
next
  case (restart lib)
  let ?w = "(mv_worker s)\<lparr>ww_pc := Idle, ww_lost := ww_lost (mv_worker s) @ map q_id (held (ww_pc (mv_worker s)))\<rparr>"
  have ev: "evolves True (mv_db s) (mv_db s')" unfolding restart(2) restarted_def by (simp add: Let_def prepare_evolves)
  have "worker_reachable (su_worker su) ?w"
    using worker_reachable_step [OF _ worker_step.crash] assms(2) unfolding simulated_def by blast
  then have "worker_reachable (su_worker su) (?w\<lparr>ww_db := mv_db s'\<rparr>)" using ev by (intro reachable_evolves) simp_all
  moreover have "mv_worker s' = ?w\<lparr>ww_db := mv_db s'\<rparr>" unfolding restart(2) restarted_def by (simp add: Let_def)
  ultimately have worker: "worker_reachable (su_worker su) (mv_worker s')" by simp
  have "\<exists>cs. mv_db s' = store_run cs" using evolved_store [OF ev] assms(2) unfolding simulated_def by blast
  then show ?thesis
    using worker unfolding simulated_def
    by (simp add: restart(2) restarted_def Let_def sessions_ok_def fcard_fempty no_steps)
qed

lemma simulated_start:
  assumes "fresh_queue (store_run cs)"
  shows "simulated su (server_start su (store_run cs))"
proof -
  have "worker_reachable opts (worker_start (store_run cs))" for opts
    unfolding worker_reachable_def using assms by blast
  then show ?thesis
    by (simp add: simulated_def server_start_def sessions_ok_def fcard_fempty no_steps)
      (auto simp: worker_start_def)
qed

lemma simulated_run: "server_run su es s \<Longrightarrow> simulated su s"
  by (induction rule: server_run.induct) (auto intro: simulated_start simulated_step)

lemma run_well_formed: "well_formed (store_run cs)"
  by (rule well_formed_inv) (simp_all add: store_inv_def store_run_inv row_types_run)

lemma client_run: "server_run su es s \<Longrightarrow> server_run su (es @ map Client cs) (foldl (client_step su) s cs)"
proof (induction cs arbitrary: es s)
  case (Cons c cs)
  have "server_run su (es @ [Client c]) (client_step su s c)"
    using Cons.prems server_step.client by (rule server_run.event)
  then show ?case using Cons.IH [of "es @ [Client c]"] by simp
qed simp

text \<open>
  The example: an installation with a verified domain and one user, who logs in on the submission port and
  sends a message to another server.
\<close>

definition ex_mail_lib :: smtp_lib where
  "ex_mail_lib = (mail_lib ''al@b.io'')\<lparr>parse_mime := (\<lambda>raw env_from env_to direction.
     Some (ex_message\<lparr>m_id := ''m2'', m_raw := raw, m_direction := direction\<rparr>, []))\<rparr>"

definition ex_setup :: server_setup where
  "ex_setup = \<lparr>su_web = ex_server, su_net = plain_net, su_smtp_lib = ex_mail_lib, su_smtp_max = 1000, su_backend = ex_backend,
     su_guard = defaultGuardOptions 1000, su_worker = new_worker plain_options, su_verify = (\<lambda>_ _. False), su_hash = (\<lambda>s. s)\<rparr>"

definition ex_installation :: "store_cmd list" where
  "ex_installation = ex_history @ [ASetVerification (ex_env 2) ''domAA'' True None]"

definition installed_db :: db where
  "installed_db = ex_db\<lparr>domains := [\<lparr>d_id = ''domAA'', d_name = ''b.io'', d_status = ''verified'', d_verification = ''t'',
       d_selector = ''brclio'', d_public_key = [], d_private_key = [], d_created = 1000000000, d_verified = Some 1000000002\<rparr>]\<rparr>"

definition ex_account :: user where
  "ex_account = \<lparr>u_id = ''usrAA'', u_domain_id = ''domAA'', u_local_part = ''al'', u_email = ''al@b.io'',
     u_display_name = ''Al'', u_password_hash = ''h'', u_role = RoleAdmin, u_status = StatusActive,
     u_auth_version = 1, u_protocol_auth_version = 1, u_quota_bytes = 1000, u_created = 1000000000,
     u_updated = 1000000000, u_last_login = None\<rparr>"

definition logged_db :: db where
  "logged_db = installed_db\<lparr>users := [ex_account\<lparr>u_last_login := Some 1000000003\<rparr>]\<rparr>"

definition new_session0 :: smtp_session where
  "new_session0 = \<lparr>ts_mode = Submission, ts_max_bytes = 1000, ts_auth = None, ts_remote_ip = ''unknown'',
     ts_endpoint = ''submission'', ts_from = [], ts_recipients = []\<rparr>"

definition ready_session :: smtp_session where
  "ready_session = new_session0\<lparr>ts_auth := Some ex_account, ts_from := ''al@b.io'',
     ts_recipients := [\<lparr>rc_address = ''y@c.io'', rc_user = None\<rparr>]\<rparr>"

definition ok_password :: "string \<Rightarrow> string \<Rightarrow> bool" where "ok_password h p = (h = ''h'')"

definition ex_commands :: "client_event list" where
  "ex_commands = SmtpConnect 3 Submission [] None # map (SmtpCommand 3)
     [EAuth ok_password (\<lambda>s. s) (ex_env 3) 5 [] ''al@b.io'' ''pw'', EMail ''al@b.io'', ERcpt ''y@c.io'']"

definition ex_data :: client_event where
  "ex_data = SmtpCommand 3 (EData ex_config ex_lib None (ex_env 4) (''raw'', False))"

lemma ex_steps:
  "NewSession plain_net Submission 1000 [] None = new_session0"
  "Authenticate ok_password (\<lambda>s. s) (ex_env 3) ''al@b.io'' ''pw'' True installed_db = (logged_db, Inr ex_account)"
  "NormalizeAccount ''al@b.io'' = ''al@b.io''"
  "snd (Allow plain_net 5 NewDefault ''unknown'' ''al@b.io'')"
  "Mail_from ex_mail_lib logged_db (new_session0\<lparr>ts_auth := Some ex_account\<rparr>) ''al@b.io''
     = (new_session0\<lparr>ts_auth := Some ex_account, ts_from := ''al@b.io''\<rparr>, None)"
  "Rcpt_to ex_mail_lib logged_db (new_session0\<lparr>ts_auth := Some ex_account, ts_from := ''al@b.io''\<rparr>) ''y@c.io'' = (ready_session, None)"
  by code_simp+

lemma ex_installed: "store_run ex_installation = installed_db"
  unfolding ex_installation_def ex_history_then by code_simp

lemma ex_sent_recipient: "map q_recipient (queue (fst (snd (Data ex_config ex_lib None ex_mail_lib (ex_env 4) ready_session
    (''raw'', False) logged_db)))) = [''y@c.io'']" "queue logged_db = []" "queue installed_db = []"
  by code_simp+

definition ex_ready :: server_state where
  "ex_ready = foldl (client_step ex_setup) (server_start ex_setup (store_run ex_installation)) ex_commands"

lemma ex_ready_run: "server_run ex_setup (map Client ex_commands) ex_ready"
proof -
  have "server_run ex_setup [] (server_start ex_setup (store_run ex_installation))"
    by (rule server_run.start) (simp add: ex_installed fresh_queue_def ex_sent_recipient)
  from client_run [OF this] show ?thesis by (simp add: ex_ready_def)
qed

lemma ex_ready_state: "mv_smtp ex_ready 3 = Some ready_session" "mv_db ex_ready = logged_db"
proof -
  obtain l where "Allow plain_net 5 NewDefault ''unknown'' ''al@b.io'' = (l, True)" using ex_steps(4) by (metis prod.collapse)
  then have auth: "Auth_plain plain_net ok_password (\<lambda>s. s) (ex_env 3) 5 [] ''al@b.io'' ''pw'' new_session0 NewDefault installed_db
      = (new_session0\<lparr>ts_auth := Some ex_account\<rparr>, Success l ''al@b.io'', logged_db, None)"
    by (simp add: Auth_plain_def ex_steps(2,3)) (simp add: new_session0_def)
  have mode: "ts_mode new_session0 = Submission" by (simp add: new_session0_def)
  show "mv_smtp ex_ready 3 = Some ready_session" "mv_db ex_ready = logged_db"
    by (simp_all add: ex_ready_def ex_commands_def ex_installed server_start_def worker_start_def ex_setup_def Let_def
        ex_steps(1,5,6) mode auth)
qed



section \<open>No open relay\<close>

text \<open>A queue item that an event has added.\<close>

definition newly_queued :: "server_state \<Rightarrow> server_state \<Rightarrow> queue_item \<Rightarrow> bool" where
  "newly_queued s s' q \<longleftrightarrow> q \<in> set (queue (mv_db s')) \<and> q_id q \<notin> q_id ` set (queue (mv_db s))"

text \<open>The session's login is of an account that is active and has kept its protocol generation.\<close>

definition logged_in :: "db \<Rightarrow> smtp_session \<Rightarrow> bool" where
  "logged_in db t \<longleftrightarrow> (\<exists>u. ts_auth t = Some u \<and> (\<exists>a \<in> set (users db). u_id a = u_id u \<and> u_status a = StatusActive
     \<and> u_protocol_auth_version a = u_protocol_auth_version u))"

lemma evolves_quiet: "evolves False a b \<Longrightarrow> queue b = queue a"
proof -
  have step: "queue (store_step d c) = queue d" if "client_cmd False c" for d c
    by (rule quiet_queue.store_step_quiet) (use that in \<open>simp add: client_cmd_def\<close>)
  have "list_all (client_cmd False) cs \<Longrightarrow> queue (foldl store_step a cs) = queue a" for cs
    by (induction cs arbitrary: a) (simp_all add: step)
  then show "evolves False a b \<Longrightarrow> queue b = queue a" by (auto simp: evolves_def)
qed

lemma web_queued:
  assumes "server_step su (Client (WebRequest he r)) s s'" and "newly_queued s s' q"
  shows "HttpServer.route (rq_method r) (rq_path r) = ComposePage \<and> csrf (su_web su) r = None
    \<and> (\<exists>u. live_session (su_web su) he r (mv_db s) u)"
proof -
  let ?w = "\<lparr>hw_db = mv_db s, hw_limiter = mv_web s\<rparr>"
  obtain w' resp where S: "serve (su_web su) he r ?w = (w', resp)" by fastforce
  have "s' = client_step su s (WebRequest he r)" using assms(1) by (rule clientE)
  then have s': "mv_db s' = hw_db w'" by (simp add: S Let_def)
  then have new: "queue (hw_db w') \<noteq> queue (mv_db s)" using assms(2) by (auto simp: newly_queued_def)
  have e: "HttpServer.route (rq_method r) (rq_path r) = ComposePage"
  proof (rule ccontr)
    assume "HttpServer.route (rq_method r) (rq_path r) \<noteq> ComposePage"
    then have "evolves False (mv_db s) (hw_db w')" using serve_evolves [of r ?w "su_web su" he] by (simp add: S)
    then show False using new evolves_quiet by blast
  qed
  show ?thesis
  proof (rule serve_cases [OF S e])
  qed (use new e in \<open>auto simp: open_endpoints_def touched_def\<close>)
qed

lemma smtp_queued:
  assumes "session_inv (ts_mode t) t" and "Data cfg sql statfs lib env t rd db = (t', db', x)"
    and "q \<in> set (queue db')" and "q \<notin> set (queue db)"
  shows "ts_mode t = Submission \<and> logged_in db t
    \<and> (\<exists>r \<in> set (ts_recipients t). rc_user r = None \<and> q_recipient q = normalizeEmail (rc_address r))"
proof -
  have mode: "ts_mode t = Submission"
    using Data_evolves [OF assms(1,2)] evolves_quiet assms(3,4) by (cases "ts_mode t = Submission") fastforce+
  show ?thesis
  proof (rule Data_cases [of cfg sql statfs lib env t rd db])
    fix e assume "Data cfg sql statfs lib env t rd db = (fst (gate db t), db, Some e)"
    then show ?thesis using assms by simp
  next
    fix m0 atts m db1
    assume D: "Data cfg sql statfs lib env t rd db = (fst (gate db t), db1, None)" and gate: "gate db t = (fst (gate db t), None)"
      and save: "saveMessage cfg sql statfs env m0 atts (fst (plan (fst (gate db t)))) (snd (plan (fst (gate db t)))) None
        (Some (data_event lib (fst (gate db t)))) db = Inr (db1, m)"
    have "ts_recipients (fst (gate db t)) = ts_recipients t" using gate_frame [OF gate] by simp
    then have "snd (plan (fst (gate db t))) = map rc_address (filter (\<lambda>r. rc_user r = None) (ts_recipients t))"
      by (simp add: plan_eq)
    moreover have "db1 = db'" using D assms(2) by simp
    ultimately obtain qs where qs: "queue db' = queue db @ qs"
        "map q_recipient qs = map normalizeEmail (map rc_address (filter (\<lambda>r. rc_user r = None) (ts_recipients t)))"
      using saved_rows(3) [OF save] by metis
    then have "q \<in> set qs" using assms(3,4) by simp
    then have "q_recipient q \<in> set (map q_recipient qs)" by simp
    then have "\<exists>r \<in> set (ts_recipients t). rc_user r = None \<and> q_recipient q = normalizeEmail (rc_address r)"
      unfolding qs(2) by auto
    moreover have "logged_in db t"
    proof -
      obtain u a where "ts_auth t = Some u" "user_by_id db (u_id u) = Some a" "u_status a = StatusActive"
          "u_protocol_auth_version a = u_protocol_auth_version u"
        using gate mode
        by (auto simp: gate_def requireActiveAuthentication_def GetUserByID_def split: option.splits sum.splits
            store_error.splits if_splits)
      then show ?thesis unfolding logged_in_def user_by_id_def by (fastforce dest: find_SomeD)
    qed
    ultimately show ?thesis using mode by blast
  qed
qed

text \<open>
  C14: No open relay. Whatever the server has been through, an event puts an item into the outgoing queue only
  if it is a composed message of the web interface, past the origin check and with the cookie of a live
  session of an active user, or the DATA of a submission session that is logged in as an account that is
  active and whose login is not stale, for a recipient this session has named. No other request or command,
  no step of the worker and no start of the process queues mail.
\<close>

theorem no_open_relay:
  assumes "server_run su es s" and "server_step su e s s'" and "newly_queued s s' q"
  shows "(\<exists>he r u. e = Client (WebRequest he r) \<and> HttpServer.route (rq_method r) (rq_path r) = ComposePage
        \<and> csrf (su_web su) r = None \<and> live_session (su_web su) he r (mv_db s) u)
    \<or> (\<exists>i cfg sql statfs env rd t. e = Client (SmtpCommand i (EData cfg sql statfs env rd)) \<and> mv_smtp s i = Some t
        \<and> ts_mode t = Submission \<and> logged_in (mv_db s) t
        \<and> (\<exists>r \<in> set (ts_recipients t). rc_user r = None \<and> q_recipient q = normalizeEmail (rc_address r)))"
proof -
  have ok: "sessions_ok s" using simulated_run [OF assms(1)] by (simp add: simulated_def)
  show ?thesis
    using assms(2)
  proof (cases rule: server_step.cases)
    case (client c)
    have q: "q \<in> set (queue (mv_db s'))" "q \<notin> set (queue (mv_db s))" using assms(3) by (auto simp: newly_queued_def)
    then have "queueing s c" using client_evolves [OF ok, of c su] evolves_quiet client(2) by (cases "queueing s c") fastforce+
    then consider (web) he r where "c = WebRequest he r"
      | (data) i cfg sql statfs env rd t where "c = SmtpCommand i (EData cfg sql statfs env rd)" "mv_smtp s i = Some t"
      by (cases rule: queueing.cases [of "(s, c)"]) auto
    then show ?thesis
    proof cases
      case web
      then show ?thesis using web_queued assms(2,3) client(1) by blast
    next
      case data
      obtain t' db' x where D: "Data cfg sql statfs (su_smtp_lib su) env t rd (mv_db s) = (t', db', x)" by (metis prod.exhaust)
      have "mv_db s' = db'" using data D by (simp add: client(2) Let_def)
      moreover have "session_inv (ts_mode t) t" using ok data(2) by (simp add: sessions_ok_def)
      ultimately have "ts_mode t = Submission \<and> logged_in (mv_db s) t \<and> (\<exists>r \<in> set (ts_recipients t). rc_user r = None
          \<and> q_recipient q = normalizeEmail (rc_address r))" using smtp_queued [OF _ D, of q] q by simp
      then show ?thesis using data client(1) by blast
    qed
  next
    case (working w)
    have "map q_id (queue (mv_db s')) = map q_id (queue (mv_db s))" using worker_moves [OF working(3,4)] working(2) by simp
    then have "q_id ` set (queue (mv_db s')) = q_id ` set (queue (mv_db s))" by (metis list.set_map)
    then show ?thesis using assms(3) by (auto simp: newly_queued_def)
  next
    case (restart lib)
    have "evolves False (mv_db s) (mv_db s')" by (simp add: restart(2) restarted_def Let_def prepare_evolves)
    then have "queue (mv_db s') = queue (mv_db s)" by (rule evolves_quiet)
    then show ?thesis using assms(3) by (auto simp: newly_queued_def)
  qed
qed

theorem no_open_relay_witness:
  "\<exists>q. newly_queued ex_ready (client_step ex_setup ex_ready ex_data) q \<and> q_recipient q = ''y@c.io''
    \<and> logged_in (mv_db ex_ready) ready_session"
proof -
  let ?s' = "client_step ex_setup ex_ready ex_data"
  obtain t db' x where D: "Data ex_config ex_lib None ex_mail_lib (ex_env 4) ready_session (''raw'', False) logged_db = (t, db', x)"
    by (metis prod.exhaust)
  then have db': "mv_db ?s' = db'" "map q_recipient (queue db') = [''y@c.io'']"
    using ex_sent_recipient(1) by (simp_all add: ex_data_def ex_ready_state ex_setup_def Let_def)
  then obtain q where q: "queue db' = [q]" "q_recipient q = ''y@c.io''" by auto
  then have new: "newly_queued ex_ready ?s' q" by (simp add: newly_queued_def db'(1) ex_ready_state ex_sent_recipient)
  then have "logged_in (mv_db ex_ready) ready_session"
    using no_open_relay [OF ex_ready_run server_step.client new] by (auto simp: ex_data_def ex_ready_state)
  with new q(2) show ?thesis by blast
qed

end
