(* ===== verification/Spec2Isabelle.thy ===== *)
theory Spec2Isabelle
  imports Prelude AuthLimit ConnLimit ImapGuard Schema AuditLog Accounts Addressing MailStore
    MailboxOps ImapStore QueueStore MailInvariants StoreMachine StoreProperties SaveContract
    BccStrip SmtpSession SmtpProperties GoText QueueWorker RowFrame QueueMachine QueueProperties
    ImapBackend Isolation ImapProperties Security MailCore MailProperties
    Config MailService ServiceProperties StoreReads HttpServer HttpHandlers HttpProperties WebLogin
    Listeners Backup Program StoreRelation SchemaTypes Migrations QueueLiveness Notices
    WebAssets MailServer
begin

text \<open>
  A verification library for Brclio Mail, a mail server in Go (\<open>internal/\<close>): SMTP and submission,
  IMAP, a web interface, an outgoing queue, and one SQLite database behind them.

  \<^bold>\<open>The program.\<close> Connections pass a connection limiter (\<open>connlimit\<close>), IMAP connections also the
  pre-authentication guard (\<open>imapserver/guard.go\<close>). Logins pass the login limiter (\<open>authlimit\<close>) and
  \<open>Store.Authenticate\<close>. A message arrives through an SMTP session (\<open>smtpserver/backend.go\<close>), IMAP
  APPEND or the web interface and is stored by one transaction of \<open>store/mail.go\<close>, which checks
  quotas and limits, writes the message, its attachments, a mailbox entry per delivery, a queue item
  per external recipient, and the audit row. The rows of messages other than drafts are an archive:
  they are never deleted; users only lose sight of them.

  \<^bold>\<open>How the code is modelled.\<close> Structs are records, error returns are the left side of a sum, machine
  integers are words or are wrapped where the code may overflow. The SQLite tables are lists of
  records in the record \<open>db\<close> of theory Schema; a transaction is a function from the database to an
  error or the new database, so a rollback is the old database. The constraints and triggers of the
  schema are guards of the insert and delete functions. Every call of the limiters holds a mutex and
  every transaction is immediate, so concurrent histories are sequences of steps (\<open>op_step\<close>,
  \<open>conn_step\<close>, \<open>guard_step\<close>, \<open>store_step\<close>, \<open>smtp_step\<close>, \<open>worker_step\<close>), and the properties quantify over all of
  them; theory MailServer puts them together into the steps of the whole server (\<open>server_step\<close>). Times are
  nanoseconds as integers, zero being Go's zero time; what the clock and
  \<open>security.NewID\<close> return are arguments (record \<open>env\<close>). Text is bytes; lower-casing, trimming and
  case folding are modelled on ASCII.

  \<^bold>\<open>Parameters.\<close> \<open>net.SplitHostPort\<close>, \<open>net.ParseIP\<close> (record \<open>netlib\<close>), \<open>mail.ParseAddress\<close> and the other
  mail parsers (\<open>smtp_lib\<close>), password verification and token hashing, \<open>statfs\<close>, the network and DNS
  of a delivery (\<open>network\<close>), DKIM signing (\<open>signer\<close>), the IMAP and MIME libraries (\<open>imap_lib\<close>,
  \<open>mime_lib\<close>), cryptography (\<open>crypto\<close>), JSON decoding, URLs and
  the full-text index (\<open>http_lib\<close>), the character count and JSON text of SQLite and \<open>encoding/json\<close> (\<open>sql_lib\<close>),
  which addresses can be bound and which key pairs load (\<open>listen_lib\<close>, \<open>program_lib\<close>), failing calls and other
  processes in the file system (\<open>fs_lib\<close>), which statements of an upgrade fail (\<open>open_lib\<close>), and what the go
  command and the directories say when the notices are built (\<open>build_lib\<close>).

  \<^bold>\<open>Theories.\<close>
  \<^item> Prelude: results, byte strings, updates of rows, and the locales \<open>machine\<close> and
    \<open>ordered_machine\<close>, whose lemmas lift an invariant and an order from a step to all histories.
  \<^item> AuthLimit (\<open>authlimit/limiter.go\<close>): the limiter, its memory bound, lockout and guess bounds, the
    login protocol of the front ends as locale \<open>attempt_limiter\<close>.
  \<^item> ConnLimit (\<open>connlimit/listener.go\<close>): locale \<open>slot_pool\<close>, the contract of a pool of slots, and its
    interpretation on \<open>acquire\<close> and \<open>release\<close>.
  \<^item> ImapGuard (\<open>imapserver/guard.go\<close>): the guarded connection as a stream transformer, the
    admission table as another \<open>slot_pool\<close>.
  \<^item> Schema (\<open>store/models.go\<close>, \<open>migrations.go\<close>, \<open>store.go\<close>): rows, tables, constraints, triggers.
  \<^item> AuditLog (\<open>store/audit.go\<close>), Accounts (\<open>store/accounts.go\<close>, \<open>domains.go\<close>, \<open>setup.go\<close>), Addressing
    (\<open>store/smtp.go\<close>), MailStore (saving a message, \<open>store/mail.go\<close>, \<open>disk_unix.go\<close>), MailboxOps (the
    rest of \<open>store/mail.go\<close>), ImapStore (\<open>store/imap.go\<close>), QueueStore (the queue of \<open>store/mail.go\<close>,
    \<open>queue_status.go\<close>).
  \<^item> MailInvariants, StoreMachine, StoreProperties: every operation of the store as one transition,
    its invariant \<open>store_inv\<close> and order \<open>store_le\<close>, and the properties of all histories.
  \<^item> SaveContract: what a successful \<open>saveMessage\<close> guarantees.
  \<^item> BccStrip, SmtpSession (\<open>smtpserver/backend.go\<close>): the removal of Bcc fields, the session;
    SmtpProperties: no relaying, authorized submission, where an accepted message goes.
  \<^item> GoText: functions of Go's \<open>strings\<close>. RowFrame, StoreRelation: the locales \<open>quiet_relation\<close>, \<open>mail_relation\<close>,
    \<open>quiet_store\<close> and \<open>store_relation\<close>, which lift a relation from the primitive changes of the tables to every
    operation of the store (the quiet ones those that queue nothing), and \<open>row_frame\<close> and \<open>store_frame\<close>, the tables
    that operations leave alone; interpreted for the accounts, for the queue and for the columns.
  \<^item> SchemaTypes: the constraints of the columns and keys hold in every history. Migrations (\<open>store/migrations.go\<close>,
    \<open>Open\<close>): upgrades of older files, with failing statements.
  \<^item> QueueWorker (\<open>queue/worker.go\<close>): batches and deliveries as functions; QueueMachine: the worker's
    statements as the step relation \<open>worker_step\<close> with crashes, failing statements and the rest of the
    program in between, and its invariant; QueueProperties: final items, bounds on attempts and
    duplicates, the batch as a run, the status of messages, the schedule, what leaves the server;
    QueueLiveness: the loop \<open>Run\<close>, and that it brings every item to an end. Each late batch lowers the number of
    attempts that are left, so as many batches as attempts are enough.
  \<^item> ImapBackend (\<open>imapserver/backend.go\<close>): what the IMAP library calls, over the store; Isolation: what
    the commands of one user leave alone; ImapProperties: a session as a run of own store commands,
    isolation of the users, revocation of sessions, sequence sets.
  \<^item> Security (\<open>security/security.go\<close>): passwords, their stored form, tokens; UTF-8.
  \<^item> MailCore (\<open>mailcore/message.go\<close>): parsing and composing messages; MailProperties: what Parse accepts,
    the header block of Compose, the threads of replies.
  \<^item> Config (\<open>config/config.go\<close>): the configuration and what a loaded one guarantees. MailService
    (\<open>service/service.go\<close>): setup, sending, drafts, the archive view; ServiceProperties: each call as an
    operation of the store, and what a sent message does.
  \<^item> StoreReads: lists and searches of messages, counters, DNS records. HttpServer, HttpHandlers
    (\<open>httpapi/server.go\<close>, \<open>handlers_*.go\<close>): requests, routing, checks and handlers as one function
    \<open>serve\<close>; HttpProperties: a request as a run of store operations, who is let in, who sees the
    content of a message; WebLogin: the limiter over histories of requests. WebAssets (\<open>web/embed.go\<close>): the
    files of the front end, with \<open>path.Clean\<close> and \<open>http.FileServer\<close> written out.
  \<^item> Listeners (\<open>smtpserver/server.go\<close>, \<open>imapserver/server.go\<close>, \<open>tlsconfig/provider.go\<close>): the listening sockets and
    their TLS. Backup (\<open>store/maintenance.go\<close>): the backup over a file system. Program (\<open>cmd/brclio-mail/main.go\<close>):
    the commands, start-up and shutdown. MailServer: the whole server as one step relation over its sessions, its
    worker, its limiters and the database; each component goes through a history of its own machine, so its
    theorems hold in the running server, and only authorized events queue mail.
  \<^item> Notices (\<open>scripts/third-party-notices/main.go\<close>): the bundle of licence texts.

  \<^bold>\<open>Not modelled.\<close> The wire protocols, TLS and password hashing (libraries); the accept loops and the
  interleaving inside one request, which is one step; certificate renewal; logging and printed texts; the
  full-text index, which is a parameter; and failures of SQLite or of the machine in the middle of a
  transaction, which leave the database as before.
\<close>

end
